theory Spec2Isabelle
  imports Main
begin

section \<open>Data model of the queue service\<close>

text \<open>
  The embedding follows \<^verbatim>\<open>services/queue/src/api.js\<close>. Timestamps are the
  millisecond counts that \<^verbatim>\<open>Date.getTime()\<close> returns; a request handler reads the
  clock once (\<open>now\<close>). Authorization (\<^verbatim>\<open>req.authorize\<close>) is an external
  collaborator and every modelled request is an authorized one. An entity's
  \<^verbatim>\<open>modify\<close> applies its modifier to the loaded row and stores the result.
\<close>

type_synonym time = int

definition MAX_RUNS_ALLOWED :: nat where
  "MAX_RUNS_ALLOWED = 50"

datatype priority = Highest | VeryHigh | High | Medium | Low | VeryLow | Lowest | Normal

definition PRIORITY_LEVELS :: "priority list" where
  "PRIORITY_LEVELS = [Highest, VeryHigh, High, Medium, Low, VeryLow, Lowest]"

datatype requires = AllCompleted | AllResolved

text \<open>The state strings of a run, and those of a task: \<^verbatim>\<open>'unscheduled'\<close> for a
  task without runs, otherwise the state of a run.\<close>

datatype run_state = Pending | Running | Completed | Failed | Exception

datatype lifecycle = Unscheduled | RunState run_state

datatype reason_created = Scheduled | Retry | TaskRetry | Rerun | CreatedException

datatype reason_resolved =
  ResolvedCompleted | ResolvedFailed | DeadlineExceeded | Canceled | Superseded
  | ClaimExpired | WorkerShutdown | MalformedPayload | ResourceUnavailable
  | InternalError | IntermittentTask

record run =
  state :: run_state
  reasonCreated :: reason_created
  reasonResolved :: "reason_resolved option"
  scheduled :: time
  started :: "time option"
  resolved :: "time option"
  takenUntil :: "time option"
  workerGroup :: "string option"
  workerId :: "string option"

text \<open>The request body of createTask and defineTask (\<^verbatim>\<open>taskDef\<close>); \<open>taskGroupId\<close>
  and \<open>expires\<close> are optional, the opaque JSON properties are strings.\<close>

record task_def =
  def_provisionerId :: string
  def_workerType :: string
  def_schedulerId :: string
  def_taskGroupId :: "string option"
  def_dependencies :: "string list"
  def_requires :: requires
  def_routes :: "string list"
  def_priority :: priority
  def_retries :: int
  def_created :: time
  def_deadline :: time
  def_expires :: "time option"
  def_scopes :: "string list"
  def_payload :: string
  def_metadata :: string
  def_tags :: string
  def_extra :: string

text \<open>The Task entity, with the properties \<^verbatim>\<open>Task.create\<close> is given.\<close>

record task =
  taskId :: string
  provisionerId :: string
  workerType :: string
  schedulerId :: string
  taskGroupId :: string
  dependencies :: "string list"
  requires :: requires
  routes :: "string list"
  priority :: priority
  retries :: int
  retriesLeft :: int
  created :: time
  deadline :: time
  expires :: time
  scopes :: "string list"
  payload :: string
  metadata :: string
  tags :: string
  extra :: string
  runs :: "run list"
  task_takenUntil :: time

record task_status =
  status_taskId :: string
  status_provisionerId :: string
  status_workerType :: string
  status_schedulerId :: string
  status_taskGroupId :: string
  status_deadline :: time
  status_expires :: time
  status_retriesLeft :: int
  status_state :: lifecycle
  status_runs :: "run list"

record task_group =
  tg_schedulerId :: string
  tg_expires :: time

record artifact =
  art_taskId :: string
  art_runId :: nat
  art_name :: string
  art_storageType :: string
  art_present :: bool

text \<open>Messages put on the advisory queues and events published on the bus.\<close>

datatype message =
  DeadlineMessage string string string time
  | PendingMessage string string priority string nat
  | ClaimMessage string nat time
  | ResolvedMessage string string string run_state

datatype event =
  TaskDefined task_status
  | TaskPending task_status nat
  | TaskRunning task_status nat
  | TaskCompleted task_status nat
  | TaskFailed task_status nat
  | TaskException task_status nat

datatype error = InputError | ResourceNotFound | RequestConflict | ServerError

datatype reply =
  StatusReply task_status
  | ReclaimReply task_status nat "string option" "string option" time
  | ClaimReply task_status nat "string option" "string option" time
  | EmptyReply

text \<open>The tables, the queues and the bus a handler works on.\<close>

record queue_state =
  Task :: "string \<rightharpoonup> task"
  TaskGroup :: "string \<rightharpoonup> task_group"
  TaskGroupMember :: "(string \<times> string) \<rightharpoonup> time"
  TaskGroupActiveSet :: "(string \<times> string) \<rightharpoonup> time"
  TaskDependency :: "(string \<times> string) list"
  Artifact :: "artifact list"
  Worker :: "(string \<times> string \<times> string \<times> string) \<rightharpoonup> time"
  queue :: "message list"
  published :: "event list"

text \<open>The handler context: \<open>claimTimeout\<close> and \<open>taskGroupExpiresExtension\<close> are
  seconds. \<open>addOneYear\<close> stands for the calendar arithmetic of
  \<^verbatim>\<open>expires.setFullYear(expires.getFullYear() + 1)\<close>, \<open>addSeconds\<close> for that of
  \<^verbatim>\<open>date.setSeconds(date.getSeconds() + n)\<close>, both computed by the language
  runtime in the local time of the process, and \<open>propertyTooLarge\<close> for the store
  refusing an oversize row (\<^verbatim>\<open>PropertyTooLarge\<close>); all three belong to libraries
  outside the repository.\<close>

record ctx =
  claimTimeout :: int
  taskGroupExpiresExtension :: int
  addOneYear :: "time \<Rightarrow> time"
  addSeconds :: "time \<Rightarrow> int \<Rightarrow> time"
  propertyTooLarge :: "task \<Rightarrow> bool"

section \<open>Helpers\<close>

definition new_run :: "run_state \<Rightarrow> reason_created \<Rightarrow> time \<Rightarrow> run" where
  "new_run st rc now =
     \<lparr>state = st, reasonCreated = rc, reasonResolved = None, scheduled = now,
      started = None, resolved = None, takenUntil = None,
      workerGroup = None, workerId = None\<rparr>"

text \<open>\<^verbatim>\<open>(_.last(task.runs) || {state: 'unscheduled'}).state\<close>\<close>

definition lastRunState :: "run list \<Rightarrow> lifecycle" where
  "lastRunState rs = (case rs of [] \<Rightarrow> Unscheduled | _ \<Rightarrow> RunState (state (last rs)))"

text \<open>Modelled from the spec: \<^verbatim>\<open>task.state()\<close> of the Task entity (data.js is
  not among the sources): unscheduled if the task has no runs, otherwise the state of
  the last run.\<close>

definition task_state :: "task \<Rightarrow> lifecycle" where
  "task_state t = lastRunState (runs t)"

text \<open>Modelled from the spec: \<^verbatim>\<open>task.status()\<close> of the Task entity, the task
  status structure: the identifiers, deadline, expires, retriesLeft, the derived
  state and the runs.\<close>

definition status :: "task \<Rightarrow> task_status" where
  "status t =
     \<lparr>status_taskId = taskId t, status_provisionerId = provisionerId t,
      status_workerType = workerType t, status_schedulerId = schedulerId t,
      status_taskGroupId = taskGroupId t, status_deadline = deadline t,
      status_expires = expires t, status_retriesLeft = retriesLeft t,
      status_state = task_state t, status_runs = runs t\<rparr>"

text \<open>Modelled from the spec: \<^verbatim>\<open>task.definition()\<close> of the Task entity, the
  definition the task was created from (with the defaults filled in).\<close>

definition definition_of :: "task \<Rightarrow> task_def" where
  "definition_of t =
     \<lparr>def_provisionerId = provisionerId t, def_workerType = workerType t,
      def_schedulerId = schedulerId t, def_taskGroupId = Some (taskGroupId t),
      def_dependencies = dependencies t, def_requires = requires t,
      def_routes = routes t, def_priority = priority t, def_retries = retries t,
      def_created = created t, def_deadline = deadline t,
      def_expires = Some (expires t), def_scopes = scopes t,
      def_payload = payload t, def_metadata = metadata t, def_tags = tags t,
      def_extra = extra t\<rparr>"

definition endsWith :: "string \<Rightarrow> string \<Rightarrow> bool" where
  "endsWith s suffix =
     (length suffix \<le> length s \<and> drop (length s - length suffix) s = suffix)"

definition putMessage :: "message \<Rightarrow> queue_state \<Rightarrow> queue_state" where
  "putMessage m s = s\<lparr>queue := queue s @ [m]\<rparr>"

definition publish :: "event \<Rightarrow> queue_state \<Rightarrow> queue_state" where
  "publish e s = s\<lparr>published := published s @ [e]\<rparr>"

definition putDeadlineMessage ::
  "string \<Rightarrow> string \<Rightarrow> string \<Rightarrow> time \<Rightarrow> queue_state \<Rightarrow> queue_state" where
  "putDeadlineMessage tid g sched dl s = putMessage (DeadlineMessage tid g sched dl) s"

definition putPendingMessage :: "task \<Rightarrow> nat \<Rightarrow> queue_state \<Rightarrow> queue_state" where
  "putPendingMessage t runId s =
     putMessage (PendingMessage (provisionerId t) (workerType t) (priority t) (taskId t) runId) s"

section \<open>reportException\<close>

text \<open>The modifier given to \<^verbatim>\<open>task.modify\<close> in reportException.\<close>

definition reportException_modify :: "time \<Rightarrow> nat \<Rightarrow> reason_resolved \<Rightarrow> task \<Rightarrow> task" where
  "reportException_modify now runId reason t =
     (if int (length (runs t)) - 1 \<noteq> int runId \<or> state (runs t ! runId) \<noteq> Running then t
      else
        let run' = (runs t ! runId)\<lparr>state := Exception, reasonResolved := Some reason,
                                    resolved := Some now\<rparr>;
            t1 = t\<lparr>runs := (runs t)[runId := run'], task_takenUntil := 0\<rparr>;
            t2 = (if reason = WorkerShutdown \<and> 0 < retriesLeft t1
                  then t1\<lparr>retriesLeft := retriesLeft t1 - 1,
                          runs := runs t1 @ [new_run Pending Retry now]\<rparr>
                  else t1)
        in (if reason = IntermittentTask \<and> 0 < retriesLeft t2
            then t2\<lparr>retriesLeft := retriesLeft t2 - 1,
                    runs := runs t2 @ [new_run Pending TaskRetry now]\<rparr>
            else t2))"

definition reportException ::
  "time \<Rightarrow> string \<Rightarrow> nat \<Rightarrow> reason_resolved \<Rightarrow> queue_state \<Rightarrow> (error + reply) \<times> queue_state" where
  "reportException now tid runId reason s =
     (case Task s tid of
        None \<Rightarrow> (Inl ResourceNotFound, s)
      | Some t0 \<Rightarrow>
          if length (runs t0) \<le> runId then (Inl ResourceNotFound, s)
          else
            let t = reportException_modify now runId reason t0;
                s1 = s\<lparr>Task := (Task s)(tid \<mapsto> t)\<rparr>
            in if length (runs t) \<le> runId
                  \<or> int runId + 1 < int (length (runs t)) - 1
                  \<or> state (runs t ! runId) \<noteq> Exception
                  \<or> reasonResolved (runs t ! runId) \<noteq> Some reason
               then (Inl RequestConflict, s1)
               else if runId + 1 < length (runs t)
                       \<and> int (length (runs t)) - 1 = int runId + 1
                       \<and> state (runs t ! (runId + 1)) = Pending
                       \<and> (reasonCreated (runs t ! (runId + 1)) = Retry
                            \<or> reasonCreated (runs t ! (runId + 1)) = TaskRetry)
               then (Inr (StatusReply (status t)),
                     publish (TaskPending (status t) (runId + 1))
                       (putPendingMessage t (runId + 1) s1))
               else (Inr (StatusReply (status t)),
                     publish (TaskException (status t) runId)
                       (putMessage (ResolvedMessage tid (taskGroupId t) (schedulerId t) Exception) s1)))"

section \<open>reportCompleted and reportFailed\<close>

datatype resolve_target = ToCompleted | ToFailed

definition target_state :: "resolve_target \<Rightarrow> run_state" where
  "target_state target = (case target of ToCompleted \<Rightarrow> Completed | ToFailed \<Rightarrow> Failed)"

definition target_reason :: "resolve_target \<Rightarrow> reason_resolved" where
  "target_reason target =
     (case target of ToCompleted \<Rightarrow> ResolvedCompleted | ToFailed \<Rightarrow> ResolvedFailed)"

text \<open>The artifact query of resolveTask: its handler runs for a row of this task and
  run with \<^verbatim>\<open>storageType: 'blob'\<close> and \<^verbatim>\<open>present: false\<close>.\<close>

definition haveAllBlobs :: "queue_state \<Rightarrow> string \<Rightarrow> nat \<Rightarrow> bool" where
  "haveAllBlobs s tid runId =
     (filter (\<lambda>a. art_taskId a = tid \<and> art_runId a = runId
                   \<and> art_storageType a = ''blob'' \<and> \<not> art_present a) (Artifact s) = [])"

definition resolveTask_modify :: "time \<Rightarrow> nat \<Rightarrow> resolve_target \<Rightarrow> task \<Rightarrow> task" where
  "resolveTask_modify now runId target t =
     (if int (length (runs t)) - 1 \<noteq> int runId \<or> state (runs t ! runId) \<noteq> Running then t
      else t\<lparr>runs := (runs t)[runId := (runs t ! runId)\<lparr>state := target_state target,
                  reasonResolved := Some (target_reason target), resolved := Some now\<rparr>],
             task_takenUntil := 0\<rparr>)"

definition resolveTask ::
  "time \<Rightarrow> string \<Rightarrow> nat \<Rightarrow> resolve_target \<Rightarrow> queue_state \<Rightarrow> (error + reply) \<times> queue_state" where
  "resolveTask now tid runId target s =
     (case Task s tid of
        None \<Rightarrow> (Inl ResourceNotFound, s)
      | Some t0 \<Rightarrow>
          if length (runs t0) \<le> runId then (Inl ResourceNotFound, s)
          else if target = ToCompleted \<and> \<not> haveAllBlobs s tid runId
          then (Inl RequestConflict, s)
          else
            let t = resolveTask_modify now runId target t0;
                s1 = s\<lparr>Task := (Task s)(tid \<mapsto> t)\<rparr>
            in if int (length (runs t)) - 1 \<noteq> int runId
                  \<or> state (runs t ! runId) \<noteq> target_state target
                  \<or> reasonResolved (runs t ! runId) \<noteq> Some (target_reason target)
               then (Inl RequestConflict, s1)
               else (Inr (StatusReply (status t)),
                     publish (if target = ToCompleted then TaskCompleted (status t) runId
                              else TaskFailed (status t) runId)
                       (putMessage (ResolvedMessage tid (taskGroupId t) (schedulerId t)
                          (target_state target)) s1)))"

text \<open>The request body of reportCompleted is read only for its \<^verbatim>\<open>success\<close>
  property: \<open>Some b\<close> when it is the boolean \<open>b\<close>, \<open>None\<close> otherwise.\<close>

definition reportCompleted ::
  "time \<Rightarrow> string \<Rightarrow> nat \<Rightarrow> bool option \<Rightarrow> queue_state \<Rightarrow> (error + reply) \<times> queue_state" where
  "reportCompleted now tid runId success s =
     resolveTask now tid runId (if success = Some False then ToFailed else ToCompleted) s"

definition reportFailed ::
  "time \<Rightarrow> string \<Rightarrow> nat \<Rightarrow> queue_state \<Rightarrow> (error + reply) \<times> queue_state" where
  "reportFailed now tid runId s = resolveTask now tid runId ToFailed s"

section \<open>reclaimTask\<close>

text \<open>The modifier of reclaimTask, with the claim-expiration message it puts.
  \<^verbatim>\<open>new Date(run.takenUntil).getTime()\<close> of a run without takenUntil is NaN, which
  compares false. The handler proposes
  \<^verbatim>\<open>takenUntil.setSeconds(takenUntil.getSeconds() + this.claimTimeout)\<close> of the
  current time.\<close>

definition reclaimTask_modify ::
  "string \<Rightarrow> nat \<Rightarrow> time \<Rightarrow> task \<Rightarrow> task \<times> message list" where
  "reclaimTask_modify tid runId proposed t =
     (if int (length (runs t)) - 1 \<noteq> int runId \<or> state (runs t ! runId) \<noteq> Running
      then (t, [])
      else if (case takenUntil (runs t ! runId) of None \<Rightarrow> False | Some tu \<Rightarrow> proposed \<le> tu)
      then (t, [])
      else (t\<lparr>runs := (runs t)[runId := (runs t ! runId)\<lparr>takenUntil := Some proposed\<rparr>],
              task_takenUntil := proposed\<rparr>,
            [ClaimMessage tid runId proposed]))"

definition reclaimTask ::
  "ctx \<Rightarrow> time \<Rightarrow> string \<Rightarrow> nat \<Rightarrow> queue_state \<Rightarrow> (error + reply) \<times> queue_state" where
  "reclaimTask c now tid runId s =
     (case Task s tid of
        None \<Rightarrow> (Inl ResourceNotFound, s)
      | Some t0 \<Rightarrow>
          if length (runs t0) \<le> runId then (Inl ResourceNotFound, s)
          else if deadline t0 \<le> now then (Inl RequestConflict, s)
          else
            let proposed = addSeconds c now (claimTimeout c);
                (t, msgs) = reclaimTask_modify tid runId proposed t0;
                s1 = s\<lparr>Task := (Task s)(tid \<mapsto> t), queue := queue s @ msgs\<rparr>
            in if int (length (runs t)) - 1 \<noteq> int runId \<or> state (runs t ! runId) \<noteq> Running
               then (Inl RequestConflict, s1)
               else (Inr (ReclaimReply (status t) runId (workerGroup (runs t ! runId))
                            (workerId (runs t ! runId)) proposed), s1))"

section \<open>cancelTask\<close>

definition cancelTask_modify :: "time \<Rightarrow> task \<Rightarrow> task" where
  "cancelTask_modify now t =
     (let st = lastRunState (runs t);
          rs1 = (if st = RunState Pending \<or> st = RunState Running
                 then butlast (runs t) @ [(last (runs t))\<lparr>state := Exception,
                        reasonResolved := Some Canceled, resolved := Some now\<rparr>]
                 else runs t);
          rs2 = (if st = Unscheduled
                 then rs1 @ [\<lparr>state = Exception, reasonCreated = CreatedException,
                        reasonResolved = Some Canceled, scheduled = now, started = None,
                        resolved = Some now, takenUntil = None, workerGroup = None,
                        workerId = None\<rparr>]
                 else rs1)
      in t\<lparr>runs := rs2, task_takenUntil := 0\<rparr>)"

definition cancelTask ::
  "time \<Rightarrow> string \<Rightarrow> queue_state \<Rightarrow> (error + reply) \<times> queue_state" where
  "cancelTask now tid s =
     (case Task s tid of
        None \<Rightarrow> (Inl ResourceNotFound, s)
      | Some t0 \<Rightarrow>
          if deadline t0 < now then (Inl RequestConflict, s)
          else
            let t = cancelTask_modify now t0;
                s1 = s\<lparr>Task := (Task s)(tid \<mapsto> t)\<rparr>
            in if runs t = [] then (Inl ServerError, s1)
               else if state (last (runs t)) = Exception
                       \<and> reasonResolved (last (runs t)) = Some Canceled
               then (Inr (StatusReply (status t)),
                     publish (TaskException (status t) (length (runs t) - 1))
                       (putMessage (ResolvedMessage tid (taskGroupId t) (schedulerId t) Exception) s1))
               else (Inr (StatusReply (status t)), s1))"

section \<open>rerunTask\<close>

definition rerunTask_modify :: "time \<Rightarrow> task \<Rightarrow> task" where
  "rerunTask_modify now t =
     (let st = lastRunState (runs t)
      in if st = RunState Pending \<or> st = RunState Running then t
         else if MAX_RUNS_ALLOWED \<le> length (runs t) then t
         else
           let rs = runs t @ [new_run Pending Rerun now];
               allowedRetries = int MAX_RUNS_ALLOWED - int (length rs)
           in t\<lparr>runs := rs, retriesLeft := min (retries t) allowedRetries,
                 task_takenUntil := 0\<rparr>)"

definition rerunTask ::
  "time \<Rightarrow> string \<Rightarrow> queue_state \<Rightarrow> (error + reply) \<times> queue_state" where
  "rerunTask now tid s =
     (case Task s tid of
        None \<Rightarrow> (Inl ResourceNotFound, s)
      | Some t0 \<Rightarrow>
          if deadline t0 < now then (Inl RequestConflict, s)
          else
            let t = rerunTask_modify now t0;
                s1 = s\<lparr>Task := (Task s)(tid \<mapsto> t)\<rparr>;
                st = task_state t
            in if st \<noteq> RunState Pending \<and> st \<noteq> RunState Running
                  \<and> MAX_RUNS_ALLOWED \<le> length (runs t)
               then (Inl RequestConflict, s1)
               else if st = RunState Pending
               then (Inr (StatusReply (status t)),
                     publish (TaskPending (status t) (length (runs t) - 1))
                       (putPendingMessage t (length (runs t) - 1) s1))
               else (Inr (StatusReply (status t)), s1))"

section \<open>The dependency tracker\<close>

text \<open>Modelled from the spec: \<^verbatim>\<open>dependencyTracker.scheduleTask(task)\<close>
  (dependencytracker.js is not among the sources). It appends a pending run with
  reasonCreated scheduled iff the task is unscheduled, and then emits a pending message
  and a task-pending event; it returns the task's status, or nothing when the task is
  past its deadline. The task it was given is modified in place, so it is returned.\<close>

definition dependencyTracker_scheduleTask ::
  "time \<Rightarrow> task \<Rightarrow> queue_state \<Rightarrow> task_status option \<times> task \<times> queue_state" where
  "dependencyTracker_scheduleTask now t0 s =
     (if deadline t0 < now then (None, t0, s)
      else if task_state t0 = Unscheduled
      then
        let t = t0\<lparr>runs := runs t0 @ [new_run Pending Scheduled now]\<rparr>;
            s1 = s\<lparr>Task := (Task s)(taskId t0 \<mapsto> t)\<rparr>
        in (Some (status t), t,
            publish (TaskPending (status t) 0) (putPendingMessage t 0 s1))
      else (Some (status t0), t0, s))"

text \<open>Modelled from the spec: whether a required task lets its dependent run. With
  requires all-completed only a completed task does; with all-resolved every terminal
  state does.\<close>

definition dependencyResolved :: "queue_state \<Rightarrow> requires \<Rightarrow> string \<Rightarrow> bool" where
  "dependencyResolved s req dep =
     (case Task s dep of
        None \<Rightarrow> False
      | Some d \<Rightarrow> task_state d = RunState Completed
                  \<or> (req = AllResolved
                       \<and> (task_state d = RunState Failed \<or> task_state d = RunState Exception)))"

text \<open>Modelled from the spec: \<^verbatim>\<open>dependencyTracker.trackDependencies(task)\<close>.
  Every dependency must exist, otherwise an error is returned (the handlers report it
  as InputError); the forward edges are written; when no dependency is left
  unresolved the task is scheduled.\<close>

definition dependencyTracker_trackDependencies ::
  "time \<Rightarrow> task \<Rightarrow> queue_state \<Rightarrow> error option \<times> task \<times> queue_state" where
  "dependencyTracker_trackDependencies now t s =
     (if list_ex (\<lambda>dep. Task s dep = None) (dependencies t) then (Some InputError, t, s)
      else
        let s1 = s\<lparr>TaskDependency :=
                     TaskDependency s @ map (\<lambda>dep. (taskId t, dep)) (dependencies t)\<rparr>
        in if list_all (dependencyResolved s1 (requires t)) (dependencies t)
           then (None, snd (dependencyTracker_scheduleTask now t s1))
           else (None, t, s1))"

section \<open>createTask and defineTask\<close>

definition patchAndValidateTaskDef :: "ctx \<Rightarrow> time \<Rightarrow> string \<Rightarrow> task_def \<Rightarrow> error + task_def" where
  "patchAndValidateTaskDef c now tid d0 =
     (let d1 = (if def_taskGroupId d0 = None \<or> def_taskGroupId d0 = Some []
                then d0\<lparr>def_taskGroupId := Some tid\<rparr> else d0)
      in if def_created d1 < now - 15 * 60 * 1000 then Inl InputError
         else if now + 15 * 60 * 1000 < def_created d1 then Inl InputError
         else if def_deadline d1 < def_created d1 then Inl InputError
         else if def_deadline d1 < now then Inl InputError
         else if 5 * 24 * 60 * 60 * 1000 + 15 * 60 * 1000 < def_deadline d1 - now
         then Inl InputError
         else
           let d2 = (if def_expires d1 = None
                     then d1\<lparr>def_expires := Some (addOneYear c (def_deadline d1))\<rparr> else d1)
           in if (case def_expires d2 of None \<Rightarrow> False | Some e \<Rightarrow> e < def_deadline d2)
              then Inl InputError
              else Inr (if def_priority d2 = Normal then d2\<lparr>def_priority := Lowest\<rparr> else d2))"

text \<open>ensureTaskGroup returns whether the handler may go on, whether it has already
  sent RequestConflict as the response, and the tables. A failed load followed by a
  create cannot find the row in this sequential model, so the
  \<^verbatim>\<open>EntityAlreadyExists\<close> branch of \<^verbatim>\<open>TaskGroup.create\<close> has no counterpart.
  The definition it is given has been patched: taskGroupId and expires are set.\<close>

definition ensureTaskGroup ::
  "ctx \<Rightarrow> string \<Rightarrow> task_def \<Rightarrow> queue_state \<Rightarrow> bool \<times> bool \<times> queue_state" where
  "ensureTaskGroup c tid d s =
     (let g = the (def_taskGroupId d);
          exp = the (def_expires d);
          taskGroupExpiration = exp + taskGroupExpiresExtension c * 1000;
          (tg, s1) = (case TaskGroup s g of
                        None \<Rightarrow>
                          (\<lparr>tg_schedulerId = def_schedulerId d, tg_expires = taskGroupExpiration\<rparr>,
                           s\<lparr>TaskGroup := (TaskGroup s)(g \<mapsto>
                               \<lparr>tg_schedulerId = def_schedulerId d,
                                tg_expires = taskGroupExpiration\<rparr>)\<rparr>)
                      | Some tg0 \<Rightarrow> (tg0, s))
      in if tg_schedulerId tg \<noteq> def_schedulerId d then (False, True, s1)
         else
           let tg' = (if tg_expires tg < exp then tg\<lparr>tg_expires := taskGroupExpiration\<rparr> else tg);
               s2 = s1\<lparr>TaskGroup := (TaskGroup s1)(g \<mapsto> tg')\<rparr>;
               s3 = (case TaskGroupMember s2 (g, tid) of
                       None \<Rightarrow> s2\<lparr>TaskGroupMember := (TaskGroupMember s2)((g, tid) \<mapsto> exp)\<rparr>
                     | Some _ \<Rightarrow> s2)
           in (case TaskGroupActiveSet s3 (g, tid) of
                 None \<Rightarrow>
                   (True, False,
                    s3\<lparr>TaskGroupActiveSet := (TaskGroupActiveSet s3)((g, tid) \<mapsto> exp)\<rparr>)
               | Some active \<Rightarrow> (True, active \<noteq> exp, s3)))"

text \<open>The response of a handler is the first one it sends: after ensureTaskGroup has
  reported RequestConflict for a taskId whose active-set row has another expiry, the
  handler still runs on and what it sends later does not reach the caller.\<close>

definition respond :: "bool \<Rightarrow> error + reply \<Rightarrow> error + reply" where
  "respond reported r = (if reported then Inl RequestConflict else r)"

definition taskFromDef :: "string \<Rightarrow> task_def \<Rightarrow> run list \<Rightarrow> task" where
  "taskFromDef tid d rs =
     \<lparr>taskId = tid, provisionerId = def_provisionerId d, workerType = def_workerType d,
      schedulerId = def_schedulerId d, taskGroupId = the (def_taskGroupId d),
      dependencies = def_dependencies d, requires = def_requires d,
      routes = def_routes d, priority = def_priority d, retries = def_retries d,
      retriesLeft = def_retries d, created = def_created d, deadline = def_deadline d,
      expires = the (def_expires d), scopes = def_scopes d, payload = def_payload d,
      metadata = def_metadata d, tags = def_tags d, extra = def_extra d,
      runs = rs, task_takenUntil = 0\<rparr>"

text \<open>The \<^verbatim>\<open>try { Task.create } catch\<close> block of createTask and defineTask: an
  oversize row is an InputError, an existing row is loaded and its definition
  compared with the request's.\<close>

definition tryCreateTask ::
  "ctx \<Rightarrow> task \<Rightarrow> task_def \<Rightarrow> queue_state \<Rightarrow> error + (task \<times> queue_state)" where
  "tryCreateTask c new d s =
     (if propertyTooLarge c new then Inl InputError
      else (case Task s (taskId new) of
              None \<Rightarrow> Inr (new, s\<lparr>Task := (Task s)(taskId new \<mapsto> new)\<rparr>)
            | Some t \<Rightarrow> if d \<noteq> definition_of t then Inl RequestConflict else Inr (t, s)))"

definition trackIfUnscheduled ::
  "time \<Rightarrow> task \<Rightarrow> queue_state \<Rightarrow> error option \<times> task \<times> queue_state" where
  "trackIfUnscheduled now t s =
     (if task_state t = Unscheduled then dependencyTracker_trackDependencies now t s
      else (None, t, s))"

text \<open>The runs createTask gives a new task: a pending run when the definition has no
  dependencies.\<close>

definition initialRuns :: "time \<Rightarrow> task_def \<Rightarrow> run list" where
  "initialRuns now d =
     (if def_dependencies d = [] then [new_run Pending Scheduled now] else [])"

definition runZeroState :: "task \<Rightarrow> lifecycle" where
  "runZeroState t = (case runs t of [] \<Rightarrow> Unscheduled | r # _ \<Rightarrow> RunState (state r))"

definition createTask ::
  "ctx \<Rightarrow> time \<Rightarrow> string \<Rightarrow> task_def \<Rightarrow> queue_state \<Rightarrow> (error + reply) \<times> queue_state" where
  "createTask c now tid d0 s =
     (case patchAndValidateTaskDef c now tid d0 of
        Inl e \<Rightarrow> (Inl e, s)
      | Inr d \<Rightarrow>
          if list_ex (\<lambda>sc. endsWith sc ''**'') (def_scopes d) then (Inl InputError, s)
          else
            let (ok, reported, s1) = ensureTaskGroup c tid d s
            in if \<not> ok then (Inl RequestConflict, s1)
               else
                 let s2 = putDeadlineMessage tid (the (def_taskGroupId d))
                            (def_schedulerId d) (def_deadline d) s1
                 in (case tryCreateTask c (taskFromDef tid d (initialRuns now d)) d s2 of
                       Inl e \<Rightarrow> (respond reported (Inl e), s2)
                     | Inr (t, s3) \<Rightarrow>
                         (case trackIfUnscheduled now t s3 of
                            (Some e, _, s4) \<Rightarrow> (respond reported (Inl InputError), s4)
                          | (None, t', s4) \<Rightarrow>
                              if runZeroState t' \<noteq> Unscheduled
                                 \<and> runZeroState t' \<noteq> RunState Pending
                              then (respond reported (Inr (StatusReply (status t'))), s4)
                              else
                                let s5 = publish (TaskDefined (status t')) s4;
                                    s6 = (if runZeroState t' = RunState Pending
                                          then publish (TaskPending (status t') 0)
                                                 (putPendingMessage t' 0 s5)
                                          else s5)
                                in (respond reported (Inr (StatusReply (status t'))), s6))))"

text \<open>defineTask makes the task depend on itself: unless the taskId is among the
  dependencies already, it is put in front of them.\<close>

definition withSelfDependency :: "string \<Rightarrow> task_def \<Rightarrow> task_def" where
  "withSelfDependency tid d =
     (if tid \<in> set (def_dependencies d) then d
      else d\<lparr>def_dependencies := tid # def_dependencies d\<rparr>)"

definition defineTask ::
  "ctx \<Rightarrow> time \<Rightarrow> string \<Rightarrow> task_def \<Rightarrow> queue_state \<Rightarrow> (error + reply) \<times> queue_state" where
  "defineTask c now tid d0 s =
     (case patchAndValidateTaskDef c now tid d0 of
        Inl e \<Rightarrow> (Inl e, s)
      | Inr d1 \<Rightarrow>
          let d = withSelfDependency tid d1;
              (ok, reported, s1) = ensureTaskGroup c tid d s
          in if \<not> ok then (Inl RequestConflict, s1)
             else
               let s2 = putDeadlineMessage tid (the (def_taskGroupId d))
                          (def_schedulerId d) (def_deadline d) s1
               in (case tryCreateTask c (taskFromDef tid d []) d s2 of
                     Inl e \<Rightarrow> (respond reported (Inl e), s2)
                   | Inr (t, s3) \<Rightarrow>
                       (case trackIfUnscheduled now t s3 of
                          (Some e, _, s4) \<Rightarrow> (respond reported (Inl InputError), s4)
                        | (None, t', s4) \<Rightarrow>
                            if task_state t = Unscheduled \<and> task_state t' \<noteq> Unscheduled
                            then (respond reported (Inl ServerError), s4)
                            else if runs t' \<noteq> []
                            then (respond reported (Inr (StatusReply (status t'))), s4)
                            else (respond reported (Inr (StatusReply (status t'))),
                                  publish (TaskDefined (status t')) s4))))"

section \<open>scheduleTask\<close>

definition scheduleTask ::
  "time \<Rightarrow> string \<Rightarrow> queue_state \<Rightarrow> (error + reply) \<times> queue_state" where
  "scheduleTask now tid s =
     (case Task s tid of
        None \<Rightarrow> (Inl ResourceNotFound, s)
      | Some t \<Rightarrow>
          (case dependencyTracker_scheduleTask now t s of
             (None, _, s1) \<Rightarrow> (Inl RequestConflict, s1)
           | (Some st, _, s1) \<Rightarrow> (Inr (StatusReply st), s1)))"

section \<open>claimTask\<close>

datatype claim_result = RunNotFound | Conflict | Claimed reply

text \<open>Modelled from the spec: \<^verbatim>\<open>workClaimer.claimTask\<close> (workclaimer.js is not
  among the sources), the claim of one run: a run that is not pending is not claimed;
  otherwise the run becomes running with started, workerGroup, workerId and
  takenUntil = now + claimTimeout, the task's takenUntil is set likewise, a
  claim-expiration message is put and a task-running event is built.\<close>

definition workClaimer_claimTask ::
  "ctx \<Rightarrow> time \<Rightarrow> string \<Rightarrow> nat \<Rightarrow> string \<Rightarrow> string \<Rightarrow> task \<Rightarrow> queue_state
     \<Rightarrow> claim_result \<times> queue_state" where
  "workClaimer_claimTask c now tid runId wg wid t0 s =
     (if length (runs t0) \<le> runId then (RunNotFound, s)
      else if state (runs t0 ! runId) \<noteq> Pending then (Conflict, s)
      else
        let tu = now + claimTimeout c * 1000;
            t = t0\<lparr>runs := (runs t0)[runId := (runs t0 ! runId)\<lparr>state := Running,
                        started := Some now, takenUntil := Some tu,
                        workerGroup := Some wg, workerId := Some wid\<rparr>],
                    task_takenUntil := tu\<rparr>;
            s1 = putMessage (ClaimMessage tid runId tu) (s\<lparr>Task := (Task s)(tid \<mapsto> t)\<rparr>)
        in (Claimed (ClaimReply (status t) runId (Some wg) (Some wid) tu),
            publish (TaskRunning (status t) runId) s1))"

text \<open>The claimTask handler; the worker registry's bookkeeping
  (\<^verbatim>\<open>workerInfo.seen\<close>, \<^verbatim>\<open>taskSeen\<close>) touches no task and is left out.\<close>

definition claimTask ::
  "ctx \<Rightarrow> time \<Rightarrow> string \<Rightarrow> nat \<Rightarrow> string \<Rightarrow> string \<Rightarrow> queue_state
     \<Rightarrow> (error + reply) \<times> queue_state" where
  "claimTask c now tid runId wg wid s =
     (case Task s tid of
        None \<Rightarrow> (Inl ResourceNotFound, s)
      | Some t \<Rightarrow>
          if deadline t \<le> now then (Inl RequestConflict, s)
          else if (case Worker s (provisionerId t, workerType t, wg, wid) of
                     None \<Rightarrow> False | Some quarantineUntil \<Rightarrow> now < quarantineUntil)
          then (Inr EmptyReply, s)
          else (case workClaimer_claimTask c now tid runId wg wid t s of
                  (RunNotFound, s1) \<Rightarrow> (Inl ResourceNotFound, s1)
                | (Conflict, s1) \<Rightarrow> (Inl RequestConflict, s1)
                | (Claimed r, s1) \<Rightarrow> (Inr r, s1)))"

section \<open>The resolvers\<close>

text \<open>Modelled from the spec: the claim-expiration resolver's handler for a message
  (taskId, runId, takenUntil) (claimresolver.js is not among the sources). A running
  run whose takenUntil is the message's is resolved as exception with reasonResolved
  claim-expired; with retries left, one is used to append a pending run with
  reasonCreated retry (pending message, task-pending event), otherwise task-exception
  is published and a resolved message put. Any other message is dropped.\<close>

definition claimResolver_handle :: "time \<Rightarrow> string \<Rightarrow> nat \<Rightarrow> time \<Rightarrow> queue_state \<Rightarrow> queue_state" where
  "claimResolver_handle now tid runId tu s =
     (case Task s tid of
        None \<Rightarrow> s
      | Some t0 \<Rightarrow>
          if runId < length (runs t0) \<and> state (runs t0 ! runId) = Running
             \<and> takenUntil (runs t0 ! runId) = Some tu
          then
            let t1 = t0\<lparr>runs := (runs t0)[runId := (runs t0 ! runId)\<lparr>state := Exception,
                          reasonResolved := Some ClaimExpired, resolved := Some now\<rparr>]\<rparr>
            in if 0 < retriesLeft t1
               then
                 let t = t1\<lparr>retriesLeft := retriesLeft t1 - 1,
                           runs := runs t1 @ [new_run Pending Retry now]\<rparr>
                 in publish (TaskPending (status t) (length (runs t) - 1))
                      (putPendingMessage t (length (runs t) - 1)
                         (s\<lparr>Task := (Task s)(tid \<mapsto> t)\<rparr>))
               else publish (TaskException (status t1) runId)
                      (putMessage (ResolvedMessage tid (taskGroupId t1) (schedulerId t1) Exception)
                         (s\<lparr>Task := (Task s)(tid \<mapsto> t1)\<rparr>))
          else s)"

text \<open>Modelled from the spec: the deadline resolver's handler for a message
  (taskId, deadline) (deadlineresolver.js is not among the sources). When the deadline
  is the task's and the last run is not terminal, an active pending or running run is
  marked exception with reasonResolved deadline-exceeded, a task without runs gets an
  exception run appended; a resolved message is put and task-exception published.\<close>

definition deadlineResolver_handle :: "time \<Rightarrow> string \<Rightarrow> time \<Rightarrow> queue_state \<Rightarrow> queue_state" where
  "deadlineResolver_handle now tid dl s =
     (case Task s tid of
        None \<Rightarrow> s
      | Some t0 \<Rightarrow>
          let st = lastRunState (runs t0)
          in if deadline t0 = dl
                \<and> (st = Unscheduled \<or> st = RunState Pending \<or> st = RunState Running)
             then
               let rs = (if runs t0 = []
                         then [\<lparr>state = Exception, reasonCreated = CreatedException,
                                 reasonResolved = Some DeadlineExceeded, scheduled = now,
                                 started = None, resolved = Some now, takenUntil = None,
                                 workerGroup = None, workerId = None\<rparr>]
                         else butlast (runs t0) @ [(last (runs t0))\<lparr>state := Exception,
                                 reasonResolved := Some DeadlineExceeded, resolved := Some now\<rparr>]);
                   t = t0\<lparr>runs := rs\<rparr>
               in publish (TaskException (status t) (length (runs t) - 1))
                    (putMessage (ResolvedMessage tid (taskGroupId t) (schedulerId t) Exception)
                       (s\<lparr>Task := (Task s)(tid \<mapsto> t)\<rparr>))
             else s)"

section \<open>The operations on tasks, as one step function\<close>

datatype request =
  CreateTask string task_def
  | DefineTask string task_def
  | ScheduleTask string
  | RerunTask string
  | CancelTask string
  | ClaimTask string nat string string
  | ReclaimTask string nat
  | ReportCompleted string nat "bool option"
  | ReportFailed string nat
  | ReportException string nat reason_resolved
  | ClaimExpiration string nat time
  | DeadlineExpiration string time

fun handle :: "ctx \<Rightarrow> time \<Rightarrow> request \<Rightarrow> queue_state \<Rightarrow> queue_state" where
  "handle c now (CreateTask tid d) s = snd (createTask c now tid d s)"
| "handle c now (DefineTask tid d) s = snd (defineTask c now tid d s)"
| "handle c now (ScheduleTask tid) s = snd (scheduleTask now tid s)"
| "handle c now (RerunTask tid) s = snd (rerunTask now tid s)"
| "handle c now (CancelTask tid) s = snd (cancelTask now tid s)"
| "handle c now (ClaimTask tid runId wg wid) s = snd (claimTask c now tid runId wg wid s)"
| "handle c now (ReclaimTask tid runId) s = snd (reclaimTask c now tid runId s)"
| "handle c now (ReportCompleted tid runId success) s = snd (reportCompleted now tid runId success s)"
| "handle c now (ReportFailed tid runId) s = snd (reportFailed now tid runId s)"
| "handle c now (ReportException tid runId reason) s = snd (reportException now tid runId reason s)"
| "handle c now (ClaimExpiration tid runId tu) s = claimResolver_handle now tid runId tu s"
| "handle c now (DeadlineExpiration tid dl) s = deadlineResolver_handle now tid dl s"

text \<open>A history of the service: requests handled one after another, each at the
  time it arrives.\<close>

fun handleAll :: "ctx \<Rightarrow> (time \<times> request) list \<Rightarrow> queue_state \<Rightarrow> queue_state" where
  "handleAll c [] s = s"
| "handleAll c ((now, r) # rs) s = handleAll c rs (handle c now r s)"

section \<open>Concrete inputs\<close>

text \<open>A context (a process whose local time has no clock change in the years
  concerned, so that a year is 365 days and a second 1000 ms), an empty service, and
  the task of the retry scenario: created with two retries and claimed by a worker.\<close>

definition ctx0 :: ctx where
  "ctx0 = \<lparr>claimTimeout = 1200, taskGroupExpiresExtension = 86400,
           addOneYear = (\<lambda>t. t + 365 * 24 * 60 * 60 * 1000),
           addSeconds = (\<lambda>t n. t + n * 1000),
           propertyTooLarge = (\<lambda>_. False)\<rparr>"

definition state0 :: queue_state where
  "state0 = \<lparr>Task = Map.empty, TaskGroup = Map.empty, TaskGroupMember = Map.empty,
             TaskGroupActiveSet = Map.empty, TaskDependency = [], Artifact = [],
             Worker = Map.empty, queue = [], published = []\<rparr>"

definition defA :: task_def where
  "defA = \<lparr>def_provisionerId = ''prov'', def_workerType = ''wt'', def_schedulerId = ''S1'',
           def_taskGroupId = Some ''G'', def_dependencies = [], def_requires = AllCompleted,
           def_routes = [], def_priority = Lowest, def_retries = 2, def_created = 1000000,
           def_deadline = 4600000, def_expires = None, def_scopes = [],
           def_payload = ''{}'', def_metadata = ''{}'', def_tags = ''{}'', def_extra = ''{}''\<rparr>"

definition runRunning :: run where
  "runRunning = \<lparr>state = Running, reasonCreated = Scheduled, reasonResolved = None,
      scheduled = 1000000, started = Some 1000500, resolved = None,
      takenUntil = Some 2200500, workerGroup = Some ''wg'', workerId = Some ''w1''\<rparr>"

definition taskRunning :: task where
  "taskRunning = (taskFromDef ''T'' (defA\<lparr>def_expires := Some 31540600000\<rparr>) [runRunning])
     \<lparr>task_takenUntil := 2200500\<rparr>"

definition stateRunning :: queue_state where
  "stateRunning = state0\<lparr>Task := [''T'' \<mapsto> taskRunning]\<rparr>"

text \<open>The same task before it is scheduled (it depends on itself) and after its run
  has completed, and the service holding one task.\<close>

definition taskUnscheduled :: task where
  "taskUnscheduled =
     taskFromDef ''T'' (defA\<lparr>def_expires := Some 31540600000, def_dependencies := [''T'']\<rparr>) []"

definition taskCompleted :: task where
  "taskCompleted = taskFromDef ''T'' (defA\<lparr>def_expires := Some 31540600000\<rparr>)
     [runRunning\<lparr>state := Completed, reasonResolved := Some ResolvedCompleted,
                 resolved := Some 1002000\<rparr>]"

definition stateOf :: "task \<Rightarrow> queue_state" where
  "stateOf t = state0\<lparr>Task := [''T'' \<mapsto> t]\<rparr>"

text \<open>Artifacts of run 0 that have not been uploaded, one per storage type.\<close>

definition artifactObject :: artifact where
  "artifactObject = \<lparr>art_taskId = ''T'', art_runId = 0, art_name = ''public/build.log'',
                      art_storageType = ''object'', art_present = False\<rparr>"

definition artifactBlob :: artifact where
  "artifactBlob = \<lparr>art_taskId = ''T'', art_runId = 0, art_name = ''public/build.log'',
                    art_storageType = ''blob'', art_present = False\<rparr>"

text \<open>The timestamp rules of createTask as the specification words them: created
  within 15 minutes of now, deadline strictly in the future, deadline at most 5 days
  and 15 minutes after created, expires (by default a year after the deadline) not
  before the deadline.\<close>

definition spec_timestamps_ok :: "ctx \<Rightarrow> time \<Rightarrow> task_def \<Rightarrow> bool" where
  "spec_timestamps_ok c now d =
     (now - 15 * 60 * 1000 \<le> def_created d \<and> def_created d \<le> now + 15 * 60 * 1000
      \<and> now < def_deadline d
      \<and> def_deadline d - def_created d \<le> 5 * 24 * 60 * 60 * 1000 + 15 * 60 * 1000
      \<and> def_deadline d \<le> (case def_expires d of
                              None \<Rightarrow> addOneYear c (def_deadline d) | Some e \<Rightarrow> e))"

text \<open>Definitions sent at \<open>now = 1000000\<close>: created ten minutes ahead of now and
  five minutes after the deadline; deadline equal to now; created fifteen minutes
  before now with the deadline five days and twelve minutes after now; a scope that
  ends in two stars.\<close>

definition defCreatedAfterDeadline :: task_def where
  "defCreatedAfterDeadline = defA\<lparr>def_created := 1600000, def_deadline := 1300000\<rparr>"

definition defDeadlineNow :: task_def where
  "defDeadlineNow = defA\<lparr>def_deadline := 1000000\<rparr>"

definition defLongHorizon :: task_def where
  "defLongHorizon = defA\<lparr>def_created := 100000, def_deadline := 433720000\<rparr>"

definition defStarScope :: task_def where
  "defStarScope = defA\<lparr>def_scopes := [''queue:create-task:**'']\<rparr>"

text \<open>The task-group invariant of the data model: the TaskGroup row of every task's
  group exists and carries the task's schedulerId.\<close>

definition groupOk :: "queue_state \<Rightarrow> task \<Rightarrow> bool" where
  "groupOk s t =
     (\<exists>tg. TaskGroup s (taskGroupId t) = Some tg \<and> tg_schedulerId tg = schedulerId t)"

definition groupSchedulerInvariant :: "queue_state \<Rightarrow> bool" where
  "groupSchedulerInvariant s = (\<forall>k t. Task s k = Some t \<longrightarrow> groupOk s t)"

text \<open>The task-group conflict scenario: the sample definition creates task \<open>T\<close> in
  group \<open>G\<close> for scheduler \<open>S1\<close>; a second definition names scheduler \<open>S2\<close>.\<close>

definition defB :: task_def where
  "defB = defA\<lparr>def_schedulerId := ''S2''\<rparr>"

text \<open>The second definition with a deadline before its created time, and with a scope
  that ends in two stars.\<close>

definition defBPast :: task_def where
  "defBPast = defB\<lparr>def_deadline := 900000\<rparr>"

definition defBStar :: task_def where
  "defBStar = defB\<lparr>def_scopes := [''queue:create-task:**'']\<rparr>"

definition stateCreated :: queue_state where
  "stateCreated = snd (createTask ctx0 1000000 ''T'' defA state0)"

text \<open>The service after that task has been canceled, and a task whose only run has
  been canceled.\<close>

definition stateCanceled :: queue_state where
  "stateCanceled = snd (cancelTask 1001000 ''T'' stateCreated)"

definition taskCanceled :: task where
  "taskCanceled = taskFromDef ''T'' (defA\<lparr>def_expires := Some 31540600000\<rparr>)
     [runRunning\<lparr>state := Exception, reasonResolved := Some Canceled,
                 resolved := Some 1001000\<rparr>]"

text \<open>The invariants of a task as the specification words them: retriesLeft between
  0 and retries, at most \<open>MAX_RUNS_ALLOWED\<close> runs. The runs are append-only when every
  run keeps its index (its reasonCreated and scheduled time stay at the same position)
  and a run in a terminal state is not changed.\<close>

definition terminal :: "run_state \<Rightarrow> bool" where
  "terminal st = (st = Completed \<or> st = Failed \<or> st = Exception)"

definition runsExtended :: "run list \<Rightarrow> run list \<Rightarrow> bool" where
  "runsExtended rs rs' =
     (length rs \<le> length rs'
      \<and> (\<forall>i < length rs. reasonCreated (rs' ! i) = reasonCreated (rs ! i)
             \<and> scheduled (rs' ! i) = scheduled (rs ! i)
             \<and> (terminal (state (rs ! i)) \<longrightarrow> rs' ! i = rs ! i)))"

definition claimedInvariant :: "task \<Rightarrow> bool" where
  "claimedInvariant t =
     (0 \<le> retriesLeft t \<and> retriesLeft t \<le> retries t \<and> length (runs t) \<le> MAX_RUNS_ALLOWED)"

text \<open>The invariant the operations maintain: the runs a task has and the retries
  it has left together never exceed \<open>MAX_RUNS_ALLOWED\<close>, for a task created with at
  most \<open>MAX_RUNS_ALLOWED - 1\<close> retries; every row is stored under its taskId.\<close>

definition taskInvariant :: "task \<Rightarrow> bool" where
  "taskInvariant t =
     (0 \<le> retriesLeft t \<and> retriesLeft t \<le> retries t
      \<and> retries t \<le> int MAX_RUNS_ALLOWED - 1
      \<and> int (length (runs t)) + retriesLeft t \<le> int MAX_RUNS_ALLOWED)"

definition stateInvariant :: "queue_state \<Rightarrow> bool" where
  "stateInvariant s = (\<forall>k t. Task s k = Some t \<longrightarrow> taskId t = k \<and> taskInvariant t)"

text \<open>A create or define request is admissible when the retries of its definition
  lie between 0 and \<open>MAX_RUNS_ALLOWED - 1\<close>.\<close>

fun requestOk :: "request \<Rightarrow> bool" where
  "requestOk (CreateTask tid d) = (0 \<le> def_retries d \<and> def_retries d \<le> int MAX_RUNS_ALLOWED - 1)"
| "requestOk (DefineTask tid d) = (0 \<le> def_retries d \<and> def_retries d \<le> int MAX_RUNS_ALLOWED - 1)"
| "requestOk _ = True"

text \<open>A step keeps the invariant and extends the runs of every task.\<close>

definition stepOk :: "queue_state \<Rightarrow> queue_state \<Rightarrow> bool" where
  "stepOk s s' =
     (stateInvariant s'
      \<and> (\<forall>k t. Task s k = Some t \<longrightarrow>
            (\<exists>t'. Task s' k = Some t' \<and> runsExtended (runs t) (runs t'))))"

text \<open>A task at the run limit: 49 resolved runs, a running one, one retry left.\<close>

definition runExpired :: run where
  "runExpired = \<lparr>state = Exception, reasonCreated = Retry, reasonResolved = Some ClaimExpired,
      scheduled = 1000000, started = Some 1000100, resolved = Some 1000200,
      takenUntil = Some 1000200, workerGroup = Some ''wg'', workerId = Some ''w1''\<rparr>"

definition task50 :: task where
  "task50 = (taskFromDef ''T'' (defA\<lparr>def_expires := Some 31540600000, def_retries := 5\<rparr>)
               (replicate 49 runExpired @ [runRunning]))
     \<lparr>retriesLeft := 1, task_takenUntil := 2200500\<rparr>"

section \<open>What a repeated createTask is compared with\<close>

text \<open>What createTask puts on the queues and publishes once the task is stored and
  tracked (the end of the handler): nothing when run 0 is neither missing nor pending,
  task-defined otherwise, and for a pending run 0 also the pending message and
  task-pending.\<close>

definition createdMessages :: "task \<Rightarrow> message list" where
  "createdMessages t =
     (if runZeroState t = RunState Pending
      then [PendingMessage (provisionerId t) (workerType t) (priority t) (taskId t) 0]
      else [])"

definition createdEvents :: "task \<Rightarrow> event list" where
  "createdEvents t =
     (if runZeroState t = Unscheduled then [TaskDefined (status t)]
      else if runZeroState t = RunState Pending
      then [TaskDefined (status t), TaskPending (status t) 0]
      else [])"

text \<open>The forward edges the dependency tracker writes for a task.\<close>

definition edgesOf :: "task \<Rightarrow> (string \<times> string) list" where
  "edgesOf t = map (\<lambda>dep. (taskId t, dep)) (dependencies t)"


text \<open>\<open>defA\<close> with priority normal (which the handler stores as lowest), \<open>defA\<close> with
  another number of retries, and the task that createTask of \<open>defA\<close> stores.\<close>

definition defNormal :: task_def where
  "defNormal = defA\<lparr>def_priority := Normal\<rparr>"

definition defRetries3 :: task_def where
  "defRetries3 = defA\<lparr>def_retries := 3\<rparr>"

definition taskCreated :: task where
  "taskCreated = taskFromDef ''T'' (defA\<lparr>def_expires := Some 31540600000\<rparr>)
     [\<lparr>state = Pending, reasonCreated = Scheduled, reasonResolved = None,
       scheduled = 1000000, started = None, resolved = None, takenUntil = None,
       workerGroup = None, workerId = None\<rparr>]"

text \<open>A store that refuses the row of a task whose only run was scheduled at
  1000500.\<close>

definition ctxRefusing :: ctx where
  "ctxRefusing = ctx0\<lparr>propertyTooLarge := (\<lambda>t. map scheduled (runs t) = [1000500])\<rparr>"

section \<open>Properties\<close>

lemmas samples = ctx0_def state0_def defA_def runRunning_def taskRunning_def
  stateRunning_def taskFromDef_def

subsection \<open>reportException: retry or task-exception\<close>

lemma reportException_modify_last_running:
  assumes "length (runs t) = Suc runId" "state (runs t ! runId) = Running"
  shows "reportException_modify now runId reason t =
     (let run' = (runs t ! runId)\<lparr>state := Exception, reasonResolved := Some reason,
                                   resolved := Some now\<rparr>
      in if (reason = WorkerShutdown \<or> reason = IntermittentTask) \<and> 0 < retriesLeft t
         then t\<lparr>runs := (runs t)[runId := run']
                     @ [new_run Pending (if reason = WorkerShutdown then Retry else TaskRetry) now],
                 task_takenUntil := 0, retriesLeft := retriesLeft t - 1\<rparr>
         else t\<lparr>runs := (runs t)[runId := run'], task_takenUntil := 0\<rparr>)"
  using assms by (auto simp: reportException_modify_def Let_def)

text \<open>
  C1. Let the run at \<open>runId\<close> be the last run of the task and be running. Then
  reportException resolves it as exception with the given reason, and
  \<^item> for reason worker-shutdown or intermittent-task with \<open>retriesLeft > 0\<close> it takes
    exactly one from retriesLeft, appends one run, in state pending, scheduled now,
    with reasonCreated retry (worker-shutdown) or task-retry (intermittent-task), puts
    one pending message and publishes one event, task-pending for the new run: no
    task-exception;
  \<^item> otherwise (no retries left, or another reason) it appends no run, leaves
    retriesLeft as it is, puts a resolved message and publishes task-exception.
\<close>

theorem reportException_retry:
  assumes "Task s tid = Some t"
    and "length (runs t) = runId + 1"
    and "state (runs t ! runId) = Running"
  shows "reportException now tid runId reason s =
     (let resolvedRun = (runs t ! runId)\<lparr>state := Exception, reasonResolved := Some reason,
                                          resolved := Some now\<rparr>
      in if (reason = WorkerShutdown \<or> reason = IntermittentTask) \<and> 0 < retriesLeft t
         then
           let newRun = \<lparr>state = Pending,
                         reasonCreated = (if reason = WorkerShutdown then Retry else TaskRetry),
                         reasonResolved = None, scheduled = now, started = None,
                         resolved = None, takenUntil = None, workerGroup = None,
                         workerId = None\<rparr>;
               t' = t\<lparr>runs := (runs t)[runId := resolvedRun] @ [newRun],
                      task_takenUntil := 0, retriesLeft := retriesLeft t - 1\<rparr>
           in (Inr (StatusReply (status t')),
               s\<lparr>Task := (Task s)(tid \<mapsto> t'),
                 queue := queue s @ [PendingMessage (provisionerId t) (workerType t) (priority t)
                                       (taskId t) (runId + 1)],
                 published := published s @ [TaskPending (status t') (runId + 1)]\<rparr>)
         else
           let t' = t\<lparr>runs := (runs t)[runId := resolvedRun], task_takenUntil := 0\<rparr>
           in (Inr (StatusReply (status t')),
               s\<lparr>Task := (Task s)(tid \<mapsto> t'),
                 queue := queue s @ [ResolvedMessage tid (taskGroupId t) (schedulerId t) Exception],
                 published := published s @ [TaskException (status t') runId]\<rparr>))"
  using assms
  by (auto simp: reportException_def reportException_modify_last_running Let_def new_run_def
      publish_def putMessage_def putPendingMessage_def nth_append)

text \<open>The retry scenario, with two retries left: a worker-shutdown report and an
  intermittent-task report each leave one retry and a pending run, scheduled at the
  time of the report, with reasonCreated retry and task-retry; a malformed-payload
  report, and a worker-shutdown report when no retry is left, append nothing and
  publish task-exception.\<close>

theorem reportException_retry_witness:
  "Task stateRunning ''T'' = Some taskRunning
   \<and> length (runs taskRunning) = 0 + 1
   \<and> state (runs taskRunning ! 0) = Running
   \<and> retriesLeft taskRunning = 2
   \<and> fst (reportException 1001000 ''T'' 0 WorkerShutdown stateRunning)
       = Inr (StatusReply (status (the (Task (snd (reportException 1001000 ''T'' 0 WorkerShutdown stateRunning)) ''T''))))
   \<and> retriesLeft (the (Task (snd (reportException 1001000 ''T'' 0 WorkerShutdown stateRunning)) ''T'')) = 1
   \<and> map state (runs (the (Task (snd (reportException 1001000 ''T'' 0 WorkerShutdown stateRunning)) ''T'')))
       = [Exception, Pending]
   \<and> map reasonCreated (runs (the (Task (snd (reportException 1001000 ''T'' 0 WorkerShutdown stateRunning)) ''T'')))
       = [Scheduled, Retry]
   \<and> map scheduled (runs (the (Task (snd (reportException 1001000 ''T'' 0 WorkerShutdown stateRunning)) ''T'')))
       = [1000000, 1001000]
   \<and> queue (snd (reportException 1001000 ''T'' 0 WorkerShutdown stateRunning))
       = [PendingMessage ''prov'' ''wt'' Lowest ''T'' 1]
   \<and> published (snd (reportException 1001000 ''T'' 0 WorkerShutdown stateRunning))
       = [TaskPending (status (the (Task (snd (reportException 1001000 ''T'' 0 WorkerShutdown stateRunning)) ''T''))) 1]
   \<and> retriesLeft (the (Task (snd (reportException 1001000 ''T'' 0 IntermittentTask stateRunning)) ''T'')) = 1
   \<and> map state (runs (the (Task (snd (reportException 1001000 ''T'' 0 IntermittentTask stateRunning)) ''T'')))
       = [Exception, Pending]
   \<and> map reasonCreated (runs (the (Task (snd (reportException 1001000 ''T'' 0 IntermittentTask stateRunning)) ''T'')))
       = [Scheduled, TaskRetry]
   \<and> map scheduled (runs (the (Task (snd (reportException 1001000 ''T'' 0 IntermittentTask stateRunning)) ''T'')))
       = [1000000, 1001000]
   \<and> queue (snd (reportException 1001000 ''T'' 0 IntermittentTask stateRunning))
       = [PendingMessage ''prov'' ''wt'' Lowest ''T'' 1]
   \<and> published (snd (reportException 1001000 ''T'' 0 IntermittentTask stateRunning))
       = [TaskPending (status (the (Task (snd (reportException 1001000 ''T'' 0 IntermittentTask stateRunning)) ''T''))) 1]
   \<and> retriesLeft (the (Task (snd (reportException 1001000 ''T'' 0 MalformedPayload stateRunning)) ''T'')) = 2
   \<and> map state (runs (the (Task (snd (reportException 1001000 ''T'' 0 MalformedPayload stateRunning)) ''T'')))
       = [Exception]
   \<and> map reasonResolved (runs (the (Task (snd (reportException 1001000 ''T'' 0 MalformedPayload stateRunning)) ''T'')))
       = [Some MalformedPayload]
   \<and> queue (snd (reportException 1001000 ''T'' 0 MalformedPayload stateRunning))
       = [ResolvedMessage ''T'' ''G'' ''S1'' Exception]
   \<and> published (snd (reportException 1001000 ''T'' 0 MalformedPayload stateRunning))
       = [TaskException (status (the (Task (snd (reportException 1001000 ''T'' 0 MalformedPayload stateRunning)) ''T''))) 0]
   \<and> Task (stateOf (taskRunning\<lparr>retriesLeft := 0\<rparr>)) ''T'' = Some (taskRunning\<lparr>retriesLeft := 0\<rparr>)
   \<and> map state (runs (the (Task (snd (reportException 1001000 ''T'' 0 WorkerShutdown
         (stateOf (taskRunning\<lparr>retriesLeft := 0\<rparr>)))) ''T''))) = [Exception]
   \<and> queue (snd (reportException 1001000 ''T'' 0 WorkerShutdown (stateOf (taskRunning\<lparr>retriesLeft := 0\<rparr>))))
       = [ResolvedMessage ''T'' ''G'' ''S1'' Exception]
   \<and> published (snd (reportException 1001000 ''T'' 0 WorkerShutdown (stateOf (taskRunning\<lparr>retriesLeft := 0\<rparr>))))
       = [TaskException (status (the (Task (snd (reportException 1001000 ''T'' 0 WorkerShutdown
             (stateOf (taskRunning\<lparr>retriesLeft := 0\<rparr>)))) ''T''))) 0]"
  using reportException_retry [of stateRunning "''T''" taskRunning 0 1001000 WorkerShutdown]
    reportException_retry [of stateRunning "''T''" taskRunning 0 1001000 IntermittentTask]
    reportException_retry [of stateRunning "''T''" taskRunning 0 1001000 MalformedPayload]
    reportException_retry [of "stateOf (taskRunning\<lparr>retriesLeft := 0\<rparr>)" "''T''"
        "taskRunning\<lparr>retriesLeft := 0\<rparr>" 0 1001000 WorkerShutdown]
  by (simp add: samples stateOf_def Let_def)

lemmas samples2 = samples taskUnscheduled_def taskCompleted_def stateOf_def
  artifactObject_def artifactBlob_def

lemmas createTask_eval = createTask_def defineTask_def withSelfDependency_def
  patchAndValidateTaskDef_def
  ensureTaskGroup_def tryCreateTask_def taskFromDef_def initialRuns_def
  trackIfUnscheduled_def runZeroState_def respond_def publish_def putMessage_def
  putPendingMessage_def putDeadlineMessage_def task_state_def lastRunState_def new_run_def
  endsWith_def dependencyTracker_trackDependencies_def dependencyTracker_scheduleTask_def
  dependencyResolved_def Let_def

lemma store_same:
  "Task s tid = Some t \<Longrightarrow> s\<lparr>Task := (Task s)(tid \<mapsto> t)\<rparr> = s"
  by (simp add: map_upd_triv)

subsection \<open>cancelTask\<close>

lemma cancelTask_modify_cases:
  "cancelTask_modify now t =
     (if runs t = []
      then t\<lparr>runs := runs t @ [\<lparr>state = Exception, reasonCreated = CreatedException,
                  reasonResolved = Some Canceled, scheduled = now, started = None,
                  resolved = Some now, takenUntil = None, workerGroup = None,
                  workerId = None\<rparr>],
              task_takenUntil := 0\<rparr>
      else if state (last (runs t)) = Pending \<or> state (last (runs t)) = Running
      then t\<lparr>runs := butlast (runs t) @ [(last (runs t))\<lparr>state := Exception,
                  reasonResolved := Some Canceled, resolved := Some now\<rparr>],
              task_takenUntil := 0\<rparr>
      else t\<lparr>task_takenUntil := 0\<rparr>)"
  by (auto simp: cancelTask_modify_def lastRunState_def Let_def split: list.splits)

text \<open>
  C3, as the code has it. For an existing task, with \<open>now\<close> the time of the request:
  \<^item> past the deadline (\<open>deadline < now\<close>) cancelTask returns RequestConflict and
    changes nothing;
  \<^item> otherwise a pending or running last run is resolved as exception with
    reasonResolved canceled and resolved = now, a resolved message is put and
    task-exception published;
  \<^item> otherwise a task without runs gets the single run
    \<open>{state: exception, reasonCreated: exception, reasonResolved: canceled}\<close>,
    scheduled and resolved now, with the same message and event;
  \<^item> otherwise, the last run being completed, failed, or exception for a reason other
    than canceled, the current status is returned, nothing is put or published, and
    the only write is the task's own takenUntil, cleared as in every branch (no write
    at all when it is the epoch already);
  \<^item> otherwise, the last run being exception with reasonResolved canceled, the current
    status is returned and the runs stay as they are, but the resolved message is put
    and task-exception is published once more.
\<close>

theorem cancelTask_cases:
  assumes "Task s tid = Some t"
  shows "(deadline t < now \<longrightarrow> cancelTask now tid s = (Inl RequestConflict, s))
    \<and> (now \<le> deadline t \<and> runs t \<noteq> []
         \<and> (state (last (runs t)) = Pending \<or> state (last (runs t)) = Running) \<longrightarrow>
        (let t' = t\<lparr>runs := butlast (runs t) @ [(last (runs t))\<lparr>state := Exception,
                          reasonResolved := Some Canceled, resolved := Some now\<rparr>],
                    task_takenUntil := 0\<rparr>
         in cancelTask now tid s =
              (Inr (StatusReply (status t')),
               s\<lparr>Task := (Task s)(tid \<mapsto> t'),
                 queue := queue s @ [ResolvedMessage tid (taskGroupId t) (schedulerId t) Exception],
                 published := published s @ [TaskException (status t') (length (runs t) - 1)]\<rparr>)))
    \<and> (now \<le> deadline t \<and> runs t = [] \<longrightarrow>
        (let t' = t\<lparr>runs := [\<lparr>state = Exception, reasonCreated = CreatedException,
                          reasonResolved = Some Canceled, scheduled = now, started = None,
                          resolved = Some now, takenUntil = None, workerGroup = None,
                          workerId = None\<rparr>],
                    task_takenUntil := 0\<rparr>
         in cancelTask now tid s =
              (Inr (StatusReply (status t')),
               s\<lparr>Task := (Task s)(tid \<mapsto> t'),
                 queue := queue s @ [ResolvedMessage tid (taskGroupId t) (schedulerId t) Exception],
                 published := published s @ [TaskException (status t') 0]\<rparr>)))
    \<and> (now \<le> deadline t \<and> runs t \<noteq> []
         \<and> (state (last (runs t)) = Completed \<or> state (last (runs t)) = Failed
              \<or> (state (last (runs t)) = Exception
                   \<and> reasonResolved (last (runs t)) \<noteq> Some Canceled)) \<longrightarrow>
        cancelTask now tid s =
          (Inr (StatusReply (status t)), s\<lparr>Task := (Task s)(tid \<mapsto> t\<lparr>task_takenUntil := 0\<rparr>)\<rparr>)
        \<and> (task_takenUntil t = 0 \<longrightarrow> cancelTask now tid s = (Inr (StatusReply (status t)), s)))
    \<and> (now \<le> deadline t \<and> runs t \<noteq> []
         \<and> state (last (runs t)) = Exception
         \<and> reasonResolved (last (runs t)) = Some Canceled \<longrightarrow>
        cancelTask now tid s =
          (Inr (StatusReply (status t)),
           s\<lparr>Task := (Task s)(tid \<mapsto> t\<lparr>task_takenUntil := 0\<rparr>),
             queue := queue s @ [ResolvedMessage tid (taskGroupId t) (schedulerId t) Exception],
             published := published s @ [TaskException (status t) (length (runs t) - 1)]\<rparr>))"
proof -
  have same: "s\<lparr>Task := (Task s)(tid \<mapsto> t\<lparr>task_takenUntil := 0\<rparr>)\<rparr> = s" if "task_takenUntil t = 0"
    using that assms by (simp add: store_same)
  show ?thesis
    using assms same
    by (auto simp: cancelTask_def cancelTask_modify_cases Let_def status_def
        task_state_def lastRunState_def publish_def putMessage_def split: list.splits)
qed

text \<open>The five cases on the sample task: past the deadline; running; without runs;
  completed; canceled.\<close>

theorem cancelTask_cases_witness:
  "Task (stateOf taskRunning) ''T'' = Some taskRunning
   \<and> deadline taskRunning < 5000000
   \<and> cancelTask 5000000 ''T'' (stateOf taskRunning) = (Inl RequestConflict, stateOf taskRunning)
   \<and> 1001000 \<le> deadline taskRunning \<and> runs taskRunning \<noteq> []
   \<and> state (last (runs taskRunning)) = Running
   \<and> map state (runs (the (Task (snd (cancelTask 1001000 ''T'' (stateOf taskRunning))) ''T'')))
        = [Exception]
   \<and> map reasonResolved (runs (the (Task (snd (cancelTask 1001000 ''T'' (stateOf taskRunning))) ''T'')))
        = [Some Canceled]
   \<and> map resolved (runs (the (Task (snd (cancelTask 1001000 ''T'' (stateOf taskRunning))) ''T'')))
        = [Some 1001000]
   \<and> queue (snd (cancelTask 1001000 ''T'' (stateOf taskRunning)))
        = [ResolvedMessage ''T'' ''G'' ''S1'' Exception]
   \<and> Task (stateOf taskUnscheduled) ''T'' = Some taskUnscheduled
   \<and> runs taskUnscheduled = []
   \<and> map state (runs (the (Task (snd (cancelTask 1001000 ''T'' (stateOf taskUnscheduled))) ''T'')))
        = [Exception]
   \<and> map reasonCreated (runs (the (Task (snd (cancelTask 1001000 ''T'' (stateOf taskUnscheduled))) ''T'')))
        = [CreatedException]
   \<and> map reasonResolved (runs (the (Task (snd (cancelTask 1001000 ''T'' (stateOf taskUnscheduled))) ''T'')))
        = [Some Canceled]
   \<and> map scheduled (runs (the (Task (snd (cancelTask 1001000 ''T'' (stateOf taskUnscheduled))) ''T'')))
        = [1001000]
   \<and> Task (stateOf taskCompleted) ''T'' = Some taskCompleted
   \<and> state (last (runs taskCompleted)) = Completed
   \<and> task_takenUntil taskCompleted = 0
   \<and> cancelTask 1001000 ''T'' (stateOf taskCompleted)
        = (Inr (StatusReply (status taskCompleted)), stateOf taskCompleted)
   \<and> Task (stateOf taskCanceled) ''T'' = Some taskCanceled
   \<and> state (last (runs taskCanceled)) = Exception
   \<and> reasonResolved (last (runs taskCanceled)) = Some Canceled
   \<and> cancelTask 1002000 ''T'' (stateOf taskCanceled)
        = (Inr (StatusReply (status taskCanceled)),
           (stateOf taskCanceled)\<lparr>queue := [ResolvedMessage ''T'' ''G'' ''S1'' Exception],
                                  published := [TaskException (status taskCanceled) 0]\<rparr>)"
proof -
  have same: "(stateOf taskCanceled)\<lparr>Task := (Task (stateOf taskCanceled))
                  (''T'' \<mapsto> taskCanceled\<lparr>task_takenUntil := 0\<rparr>)\<rparr> = stateOf taskCanceled"
    by (simp add: samples2 taskCanceled_def)
  show ?thesis
    using cancelTask_cases [of "stateOf taskRunning" "''T''" taskRunning 5000000]
      cancelTask_cases [of "stateOf taskRunning" "''T''" taskRunning 1001000]
      cancelTask_cases [of "stateOf taskUnscheduled" "''T''" taskUnscheduled 1001000]
      cancelTask_cases [of "stateOf taskCompleted" "''T''" taskCompleted 1001000]
      cancelTask_cases [of "stateOf taskCanceled" "''T''" taskCanceled 1002000]
    by (simp add: samples2 taskCanceled_def Let_def)
qed

text \<open>C3 as stated fails: after createTask of \<open>T\<close> and a first cancelTask, the last
  run is exception (canceled), a terminal state; a second cancelTask returns the
  current status and leaves the task as it is, but it puts a second resolved message
  and publishes task-exception a second time.\<close>

theorem cancelTask_twice_counterexample:
  "stateCanceled = handle ctx0 1001000 (CancelTask ''T'')
                     (handle ctx0 1000000 (CreateTask ''T'' defA) state0)
   \<and> map state (runs (the (Task stateCanceled ''T''))) = [Exception]
   \<and> map reasonResolved (runs (the (Task stateCanceled ''T''))) = [Some Canceled]
   \<and> 1002000 \<le> deadline (the (Task stateCanceled ''T''))
   \<and> fst (cancelTask 1002000 ''T'' stateCanceled)
       = Inr (StatusReply (status (the (Task stateCanceled ''T''))))
   \<and> Task (snd (cancelTask 1002000 ''T'' stateCanceled)) = Task stateCanceled
   \<and> queue (snd (cancelTask 1002000 ''T'' stateCanceled))
       = queue stateCanceled @ [ResolvedMessage ''T'' ''G'' ''S1'' Exception]
   \<and> published (snd (cancelTask 1002000 ''T'' stateCanceled))
       = published stateCanceled @ [TaskException (status (the (Task stateCanceled ''T''))) 0]
   \<and> snd (cancelTask 1002000 ''T'' stateCanceled) \<noteq> stateCanceled"
proof -
  have a: "stateCanceled = handle ctx0 1001000 (CancelTask ''T'')
                     (handle ctx0 1000000 (CreateTask ''T'' defA) state0)"
    by (simp add: stateCanceled_def stateCreated_def)
  have t: "Task stateCanceled ''T'' =
      Some (taskFromDef ''T'' (defA\<lparr>def_expires := Some 31540600000\<rparr>)
              [\<lparr>state = Exception, reasonCreated = Scheduled, reasonResolved = Some Canceled,
                scheduled = 1000000, started = None, resolved = Some 1001000,
                takenUntil = None, workerGroup = None, workerId = None\<rparr>])"
    by (simp add: stateCanceled_def stateCreated_def samples createTask_eval cancelTask_def
        cancelTask_modify_def)
  have b: "fst (cancelTask 1002000 ''T'' stateCanceled)
       = Inr (StatusReply (status (the (Task stateCanceled ''T''))))"
    "Task (snd (cancelTask 1002000 ''T'' stateCanceled)) = Task stateCanceled"
    "queue (snd (cancelTask 1002000 ''T'' stateCanceled))
       = queue stateCanceled @ [ResolvedMessage ''T'' ''G'' ''S1'' Exception]"
    "published (snd (cancelTask 1002000 ''T'' stateCanceled))
       = published stateCanceled @ [TaskException (status (the (Task stateCanceled ''T''))) 0]"
    by (simp_all add: t cancelTask_def cancelTask_modify_def lastRunState_def Let_def
        samples publish_def putMessage_def status_def task_state_def map_upd_triv)
  have "queue (snd (cancelTask 1002000 ''T'' stateCanceled)) \<noteq> queue stateCanceled"
    by (simp add: b)
  then have c: "snd (cancelTask 1002000 ''T'' stateCanceled) \<noteq> stateCanceled"
    by auto
  show ?thesis using a t b c by (simp add: samples)
qed

subsection \<open>reportCompleted: the artifact gate and the target\<close>

lemma resolveTask_modify_last_running:
  assumes "length (runs t) = Suc runId" "state (runs t ! runId) = Running"
  shows "resolveTask_modify now runId target t =
     t\<lparr>runs := (runs t)[runId := (runs t ! runId)\<lparr>state := target_state target,
                  reasonResolved := Some (target_reason target), resolved := Some now\<rparr>],
       task_takenUntil := 0\<rparr>"
  using assms by (simp add: resolveTask_modify_def)

lemma resolveTask_last_running:
  assumes "Task s tid = Some t" "length (runs t) = Suc runId" "state (runs t ! runId) = Running"
  shows "resolveTask now tid runId target s =
     (if target = ToCompleted \<and> \<not> haveAllBlobs s tid runId then (Inl RequestConflict, s)
      else
        let t' = t\<lparr>runs := (runs t)[runId := (runs t ! runId)\<lparr>state := target_state target,
                          reasonResolved := Some (target_reason target), resolved := Some now\<rparr>],
                   task_takenUntil := 0\<rparr>
        in (Inr (StatusReply (status t')),
            s\<lparr>Task := (Task s)(tid \<mapsto> t'),
              queue := queue s @ [ResolvedMessage tid (taskGroupId t) (schedulerId t)
                                    (target_state target)],
              published := published s @ [if target = ToCompleted then TaskCompleted (status t') runId
                                          else TaskFailed (status t') runId]\<rparr>))"
  using assms
  by (auto simp: resolveTask_def resolveTask_modify_last_running Let_def publish_def putMessage_def)

lemma haveAllBlobs_iff:
  "haveAllBlobs s tid runId \<longleftrightarrow>
     (\<forall>a \<in> set (Artifact s). art_taskId a = tid \<and> art_runId a = runId
          \<and> art_storageType a = ''blob'' \<longrightarrow> art_present a)"
  by (auto simp: haveAllBlobs_def filter_empty_conv)

text \<open>
  C4, as the code has it: the storage type that gates completion is \<open>blob\<close>. Let the
  run at \<open>runId\<close> be the last run and be running, and the body not carry
  \<open>success === false\<close>. Then reportCompleted succeeds, resolving the run as completed,
  exactly when every artifact of this task and run with storage type \<open>blob\<close> has
  \<open>present = true\<close>; when such an artifact has \<open>present = false\<close> it returns
  RequestConflict and changes nothing, so the run stays running.
\<close>

theorem reportCompleted_blob_gate:
  assumes "Task s tid = Some t"
    and "length (runs t) = runId + 1"
    and "state (runs t ! runId) = Running"
    and "success \<noteq> Some False"
  shows "(fst (reportCompleted now tid runId success s) \<noteq> Inl RequestConflict \<longleftrightarrow>
           (\<forall>a \<in> set (Artifact s). art_taskId a = tid \<and> art_runId a = runId
                \<and> art_storageType a = ''blob'' \<longrightarrow> art_present a))
    \<and> ((\<forall>a \<in> set (Artifact s). art_taskId a = tid \<and> art_runId a = runId
                \<and> art_storageType a = ''blob'' \<longrightarrow> art_present a) \<longrightarrow>
        fst (reportCompleted now tid runId success s)
          = Inr (StatusReply (status (the (Task (snd (reportCompleted now tid runId success s)) tid))))
        \<and> state (runs (the (Task (snd (reportCompleted now tid runId success s)) tid)) ! runId)
             = Completed
        \<and> reasonResolved (runs (the (Task (snd (reportCompleted now tid runId success s)) tid)) ! runId)
             = Some ResolvedCompleted)
    \<and> ((\<exists>a \<in> set (Artifact s). art_taskId a = tid \<and> art_runId a = runId
                \<and> art_storageType a = ''blob'' \<and> \<not> art_present a) \<longrightarrow>
        reportCompleted now tid runId success s = (Inl RequestConflict, s))"
  using assms
  by (auto simp: reportCompleted_def resolveTask_last_running haveAllBlobs_iff Let_def
      target_state_def target_reason_def)

text \<open>A missing blob artifact blocks the completion of the sample run; without
  artifacts the run completes.\<close>

theorem reportCompleted_blob_gate_witness:
  "Task (stateRunning\<lparr>Artifact := [artifactBlob]\<rparr>) ''T'' = Some taskRunning
   \<and> length (runs taskRunning) = 0 + 1
   \<and> state (runs taskRunning ! 0) = Running
   \<and> reportCompleted 1002000 ''T'' 0 None (stateRunning\<lparr>Artifact := [artifactBlob]\<rparr>)
       = (Inl RequestConflict, stateRunning\<lparr>Artifact := [artifactBlob]\<rparr>)
   \<and> Task stateRunning ''T'' = Some taskRunning
   \<and> Artifact stateRunning = []
   \<and> state (runs (the (Task (snd (reportCompleted 1002000 ''T'' 0 None stateRunning)) ''T'')) ! 0)
       = Completed
   \<and> reasonResolved (runs (the (Task (snd (reportCompleted 1002000 ''T'' 0 None stateRunning)) ''T'')) ! 0)
       = Some ResolvedCompleted"
  using reportCompleted_blob_gate [of "stateRunning\<lparr>Artifact := [artifactBlob]\<rparr>" "''T''"
      taskRunning 0 None 1002000]
    reportCompleted_blob_gate [of stateRunning "''T''" taskRunning 0 None 1002000]
  by (simp add: samples2)

text \<open>C4 as stated fails: an artifact of storage type \<open>object\<close> with
  \<open>present = false\<close> does not hold the run back; reportCompleted resolves it as
  completed.\<close>

theorem reportCompleted_object_counterexample:
  "Task (stateRunning\<lparr>Artifact := [artifactObject]\<rparr>) ''T'' = Some taskRunning
   \<and> length (runs taskRunning) = 1
   \<and> state (runs taskRunning ! 0) = Running
   \<and> art_taskId artifactObject = ''T'' \<and> art_runId artifactObject = 0
   \<and> art_storageType artifactObject = ''object''
   \<and> \<not> art_present artifactObject
   \<and> fst (reportCompleted 1002000 ''T'' 0 None (stateRunning\<lparr>Artifact := [artifactObject]\<rparr>))
       \<noteq> Inl RequestConflict
   \<and> map state (runs (the (Task (snd (reportCompleted 1002000 ''T'' 0 None
         (stateRunning\<lparr>Artifact := [artifactObject]\<rparr>))) ''T''))) = [Completed]"
  by (simp add: reportCompleted_def resolveTask_def resolveTask_modify_def haveAllBlobs_def
      samples2 Let_def target_state_def target_reason_def publish_def putMessage_def)

text \<open>
  C10, as the code has it. Let the run at \<open>runId\<close> be the last run and be running. A body with
  \<open>success === false\<close> makes reportCompleted resolve the run as failed: state failed,
  reasonResolved failed, a task-failed event (and no artifact check). Any other body,
  the empty one included, selects the target completed: the run is resolved as
  completed with a task-completed event if the artifact check of resolveTask for
  that target passes (no blob artifact of the run with \<open>present = false\<close>);
  otherwise the request is a RequestConflict and nothing changes.
\<close>

theorem reportCompleted_target:
  assumes "Task s tid = Some t"
    and "length (runs t) = runId + 1"
    and "state (runs t ! runId) = Running"
  shows "(success = Some False \<longrightarrow>
           (let t' = t\<lparr>runs := (runs t)[runId := (runs t ! runId)\<lparr>state := Failed,
                            reasonResolved := Some ResolvedFailed, resolved := Some now\<rparr>],
                       task_takenUntil := 0\<rparr>
            in reportCompleted now tid runId success s =
                 (Inr (StatusReply (status t')),
                  s\<lparr>Task := (Task s)(tid \<mapsto> t'),
                    queue := queue s @ [ResolvedMessage tid (taskGroupId t) (schedulerId t) Failed],
                    published := published s @ [TaskFailed (status t') runId]\<rparr>)))
    \<and> (success \<noteq> Some False \<longrightarrow>
           (let t' = t\<lparr>runs := (runs t)[runId := (runs t ! runId)\<lparr>state := Completed,
                            reasonResolved := Some ResolvedCompleted, resolved := Some now\<rparr>],
                       task_takenUntil := 0\<rparr>
            in reportCompleted now tid runId success s =
                 (if haveAllBlobs s tid runId
                  then (Inr (StatusReply (status t')),
                        s\<lparr>Task := (Task s)(tid \<mapsto> t'),
                          queue := queue s @ [ResolvedMessage tid (taskGroupId t) (schedulerId t) Completed],
                          published := published s @ [TaskCompleted (status t') runId]\<rparr>)
                  else (Inl RequestConflict, s))))"
  using assms
  by (auto simp: reportCompleted_def resolveTask_last_running Let_def
      target_state_def target_reason_def)

text \<open>The sample run reported with \<open>{success: false}\<close>, with \<open>{success: true}\<close> and
  with an empty body; then, with a blob artifact that has not been uploaded, with an
  empty body and with \<open>{success: false}\<close>.\<close>

theorem reportCompleted_target_witness:
  "Task stateRunning ''T'' = Some taskRunning
   \<and> length (runs taskRunning) = 0 + 1
   \<and> state (runs taskRunning ! 0) = Running
   \<and> map state (runs (the (Task (snd (reportCompleted 1002000 ''T'' 0 (Some False) stateRunning)) ''T'')))
       = [Failed]
   \<and> map reasonResolved (runs (the (Task (snd (reportCompleted 1002000 ''T'' 0 (Some False) stateRunning)) ''T'')))
       = [Some ResolvedFailed]
   \<and> queue (snd (reportCompleted 1002000 ''T'' 0 (Some False) stateRunning))
       = [ResolvedMessage ''T'' ''G'' ''S1'' Failed]
   \<and> map state (runs (the (Task (snd (reportCompleted 1002000 ''T'' 0 (Some True) stateRunning)) ''T'')))
       = [Completed]
   \<and> map state (runs (the (Task (snd (reportCompleted 1002000 ''T'' 0 None stateRunning)) ''T'')))
       = [Completed]
   \<and> queue (snd (reportCompleted 1002000 ''T'' 0 None stateRunning))
       = [ResolvedMessage ''T'' ''G'' ''S1'' Completed]
   \<and> Task (stateRunning\<lparr>Artifact := [artifactBlob]\<rparr>) ''T'' = Some taskRunning
   \<and> \<not> haveAllBlobs (stateRunning\<lparr>Artifact := [artifactBlob]\<rparr>) ''T'' 0
   \<and> reportCompleted 1002000 ''T'' 0 None (stateRunning\<lparr>Artifact := [artifactBlob]\<rparr>)
       = (Inl RequestConflict, stateRunning\<lparr>Artifact := [artifactBlob]\<rparr>)
   \<and> map state (runs (the (Task (snd (reportCompleted 1002000 ''T'' 0 (Some False)
         (stateRunning\<lparr>Artifact := [artifactBlob]\<rparr>))) ''T''))) = [Failed]"
  using reportCompleted_target [of stateRunning "''T''" taskRunning 0 "Some False" 1002000]
    reportCompleted_target [of stateRunning "''T''" taskRunning 0 "Some True" 1002000]
    reportCompleted_target [of stateRunning "''T''" taskRunning 0 None 1002000]
    reportCompleted_target [of "stateRunning\<lparr>Artifact := [artifactBlob]\<rparr>" "''T''"
        taskRunning 0 None 1002000]
    reportCompleted_target [of "stateRunning\<lparr>Artifact := [artifactBlob]\<rparr>" "''T''"
        taskRunning 0 "Some False" 1002000]
  by (simp add: samples2 Let_def haveAllBlobs_def)

text \<open>C10 as stated fails: with a blob artifact of the run that has not been
  uploaded, a body without \<open>success\<close> and a body with \<open>success: true\<close> do not resolve
  the running last run as completed; the answer is RequestConflict and the run stays
  running.\<close>

theorem reportCompleted_missing_blob_counterexample:
  "Task (stateRunning\<lparr>Artifact := [artifactBlob]\<rparr>) ''T'' = Some taskRunning
   \<and> length (runs taskRunning) = 1
   \<and> state (runs taskRunning ! 0) = Running
   \<and> art_taskId artifactBlob = ''T'' \<and> art_runId artifactBlob = 0
   \<and> art_storageType artifactBlob = ''blob'' \<and> \<not> art_present artifactBlob
   \<and> fst (reportCompleted 1002000 ''T'' 0 None (stateRunning\<lparr>Artifact := [artifactBlob]\<rparr>))
       = Inl RequestConflict
   \<and> map state (runs (the (Task (snd (reportCompleted 1002000 ''T'' 0 None
         (stateRunning\<lparr>Artifact := [artifactBlob]\<rparr>))) ''T''))) = [Running]
   \<and> fst (reportCompleted 1002000 ''T'' 0 (Some True) (stateRunning\<lparr>Artifact := [artifactBlob]\<rparr>))
       = Inl RequestConflict
   \<and> map state (runs (the (Task (snd (reportCompleted 1002000 ''T'' 0 (Some True)
         (stateRunning\<lparr>Artifact := [artifactBlob]\<rparr>))) ''T''))) = [Running]"
  by (simp add: reportCompleted_def resolveTask_def haveAllBlobs_def samples2)

subsection \<open>reclaimTask\<close>

text \<open>
  C6, as the code has it. reclaimTask answers
  \<^item> ResourceNotFound when the task does not exist or has no run \<open>runId\<close>;
  \<^item> RequestConflict when the deadline has passed (\<open>deadline \<le> now\<close>), or when the
    run is not the last run or is not running; nothing changes;
  \<^item> success in every remaining case, that is exactly when the run is the last run,
    is running and the deadline has not passed. The proposed takenUntil is the time
    claimTimeout seconds after now, as \<^verbatim>\<open>setSeconds\<close> computes it. The run's
    takenUntil (and the task's) moves to it, and a claim-expiration message is put,
    only when it is strictly greater than the run's takenUntil; a reclaim that does
    not advance takenUntil changes nothing and still succeeds, replying the proposed
    value.
\<close>

theorem reclaimTask_cases:
  "reclaimTask c now tid runId s =
     (case Task s tid of
        None \<Rightarrow> (Inl ResourceNotFound, s)
      | Some t \<Rightarrow>
          if length (runs t) \<le> runId then (Inl ResourceNotFound, s)
          else if deadline t \<le> now then (Inl RequestConflict, s)
          else if length (runs t) \<noteq> runId + 1 \<or> state (runs t ! runId) \<noteq> Running
          then (Inl RequestConflict, s)
          else
            let proposed = addSeconds c now (claimTimeout c)
            in if (case takenUntil (runs t ! runId) of None \<Rightarrow> False | Some tu \<Rightarrow> proposed \<le> tu)
               then (Inr (ReclaimReply (status t) runId (workerGroup (runs t ! runId))
                            (workerId (runs t ! runId)) proposed), s)
               else
                 let t' = t\<lparr>runs := (runs t)[runId := (runs t ! runId)\<lparr>takenUntil := Some proposed\<rparr>],
                            task_takenUntil := proposed\<rparr>
                 in (Inr (ReclaimReply (status t') runId (workerGroup (runs t ! runId))
                            (workerId (runs t ! runId)) proposed),
                     s\<lparr>Task := (Task s)(tid \<mapsto> t'),
                       queue := queue s @ [ClaimMessage tid runId proposed]\<rparr>))"
  by (auto simp: reclaimTask_def reclaimTask_modify_def Let_def store_same split: option.splits)

text \<open>The sample run reclaimed in time (takenUntil moves from 2200500 to 3100000), a
  run that does not exist, a task that does not exist, a reclaim at the deadline, and
  a reclaim of a run that has completed.\<close>

theorem reclaimTask_cases_witness:
  "Task stateRunning ''T'' = Some taskRunning
   \<and> addSeconds ctx0 1900000 (claimTimeout ctx0) = 3100000
   \<and> fst (reclaimTask ctx0 1900000 ''T'' 0 stateRunning)
       = Inr (ReclaimReply (status (the (Task (snd (reclaimTask ctx0 1900000 ''T'' 0 stateRunning)) ''T'')))
               0 (Some ''wg'') (Some ''w1'') 3100000)
   \<and> map takenUntil (runs (the (Task (snd (reclaimTask ctx0 1900000 ''T'' 0 stateRunning)) ''T'')))
       = [Some 3100000]
   \<and> task_takenUntil (the (Task (snd (reclaimTask ctx0 1900000 ''T'' 0 stateRunning)) ''T''))
       = 3100000
   \<and> queue (snd (reclaimTask ctx0 1900000 ''T'' 0 stateRunning)) = [ClaimMessage ''T'' 0 3100000]
   \<and> reclaimTask ctx0 1900000 ''T'' 1 stateRunning = (Inl ResourceNotFound, stateRunning)
   \<and> Task stateRunning ''U'' = None
   \<and> reclaimTask ctx0 1900000 ''U'' 0 stateRunning = (Inl ResourceNotFound, stateRunning)
   \<and> reclaimTask ctx0 4600000 ''T'' 0 stateRunning = (Inl RequestConflict, stateRunning)
   \<and> Task (stateOf taskCompleted) ''T'' = Some taskCompleted
   \<and> reclaimTask ctx0 1900000 ''T'' 0 (stateOf taskCompleted)
       = (Inl RequestConflict, stateOf taskCompleted)"
  using reclaimTask_cases [of ctx0 1900000 "''T''" 0 stateRunning]
    reclaimTask_cases [of ctx0 1900000 "''T''" 1 stateRunning]
    reclaimTask_cases [of ctx0 1900000 "''U''" 0 stateRunning]
    reclaimTask_cases [of ctx0 4600000 "''T''" 0 stateRunning]
    reclaimTask_cases [of ctx0 1900000 "''T''" 0 "stateOf taskCompleted"]
  by (simp add: samples2 Let_def)

text \<open>C6 as stated fails: the sample run is reclaimed in the millisecond of its claim,
  the proposed takenUntil (now and 1200 seconds) equals the current one, nothing is
  advanced, and the answer is a success, not RequestConflict.\<close>

theorem reclaimTask_not_advancing_counterexample:
  "Task stateRunning ''T'' = Some taskRunning
   \<and> length (runs taskRunning) = 1
   \<and> state (runs taskRunning ! 0) = Running
   \<and> takenUntil (runs taskRunning ! 0) = Some 2200500
   \<and> claimTimeout ctx0 = 1200
   \<and> addSeconds ctx0 1000500 (claimTimeout ctx0) = 1000500 + 1200 * 1000
   \<and> addSeconds ctx0 1000500 (claimTimeout ctx0) = 2200500
   \<and> 1000500 < deadline taskRunning
   \<and> reclaimTask ctx0 1000500 ''T'' 0 stateRunning
       = (Inr (ReclaimReply (status taskRunning) 0 (Some ''wg'') (Some ''w1'') 2200500), stateRunning)"
  by (simp add: reclaimTask_def reclaimTask_modify_def samples Let_def)

subsection \<open>createTask: the stages of the handler\<close>

lemma patchAndValidateTaskDef_rejects:
  "patchAndValidateTaskDef c now tid d = Inl InputError \<longleftrightarrow>
     (def_created d < now - 15 * 60 * 1000
      \<or> now + 15 * 60 * 1000 < def_created d
      \<or> def_deadline d < def_created d
      \<or> def_deadline d < now
      \<or> 5 * 24 * 60 * 60 * 1000 + 15 * 60 * 1000 < def_deadline d - now
      \<or> (case def_expires d of None \<Rightarrow> addOneYear c (def_deadline d) | Some e \<Rightarrow> e)
           < def_deadline d)"
  by (auto simp: patchAndValidateTaskDef_def Let_def split: option.splits)

lemma patchAndValidateTaskDef_error:
  "patchAndValidateTaskDef c now tid d = Inl e \<Longrightarrow> e = InputError"
  by (auto simp: patchAndValidateTaskDef_def Let_def split: option.splits if_splits)

lemma patchAndValidateTaskDef_patched:
  assumes "patchAndValidateTaskDef c now tid d0 = Inr d"
  shows "def_taskGroupId d
           = Some (case def_taskGroupId d0 of None \<Rightarrow> tid | Some g \<Rightarrow> if g = [] then tid else g)"
    and "def_expires d
           = Some (case def_expires d0 of None \<Rightarrow> addOneYear c (def_deadline d0) | Some e \<Rightarrow> e)"
    and "def_priority d = (if def_priority d0 = Normal then Lowest else def_priority d0)"
    and "def_schedulerId d = def_schedulerId d0"
    and "def_scopes d = def_scopes d0"
    and "def_dependencies d = def_dependencies d0"
    and "def_deadline d = def_deadline d0"
    and "def_retries d = def_retries d0"
  using assms
  by (auto simp: patchAndValidateTaskDef_def Let_def split: option.splits if_splits)

lemma respond_InputError:
  "respond reported r = Inl InputError \<Longrightarrow> r = Inl InputError"
  by (auto simp: respond_def split: if_splits)

lemma tryCreateTask_InputError:
  "tryCreateTask c new d s = Inl InputError \<Longrightarrow> propertyTooLarge c new"
  by (auto simp: tryCreateTask_def split: if_splits option.splits)

lemma tryCreateTask_Task:
  "tryCreateTask c new d s = Inr (t, s') \<Longrightarrow> Task s' k = None
     \<Longrightarrow> Task s k = None \<and> k \<noteq> taskId new"
  by (auto simp: tryCreateTask_def split: if_splits option.splits)

lemma tryCreateTask_dependencies:
  "tryCreateTask c new d s = Inr (t, s') \<Longrightarrow> def_dependencies d = dependencies new
     \<Longrightarrow> dependencies t = def_dependencies d"
  by (auto simp: tryCreateTask_def definition_of_def split: if_splits option.splits)

lemma trackIfUnscheduled_error:
  "trackIfUnscheduled now t s = (Some e, t', s') \<Longrightarrow>
     \<exists>dep \<in> set (dependencies t). Task s dep = None"
  by (auto simp: trackIfUnscheduled_def dependencyTracker_trackDependencies_def
      dependencyTracker_scheduleTask_def Let_def list_ex_iff split: if_splits)

lemma ensureTaskGroup_Task:
  "ensureTaskGroup c tid d s = (ok, reported, s') \<Longrightarrow> Task s' = Task s"
  by (auto simp: ensureTaskGroup_def Let_def split: option.splits if_splits prod.splits)

lemma createTask_group_conflict:
  assumes "patchAndValidateTaskDef c now tid d0 = Inr d"
    and "\<not> list_ex (\<lambda>sc. endsWith sc ''**'') (def_scopes d)"
    and "ensureTaskGroup c tid d s = (False, reported, s1)"
  shows "createTask c now tid d0 s = (Inl RequestConflict, s1)"
  using assms by (simp add: createTask_def)

lemma createTask_store_error:
  assumes "patchAndValidateTaskDef c now tid d0 = Inr d"
    and "\<not> list_ex (\<lambda>sc. endsWith sc ''**'') (def_scopes d)"
    and "ensureTaskGroup c tid d s = (True, reported, s1)"
    and "tryCreateTask c (taskFromDef tid d (initialRuns now d)) d
           (putDeadlineMessage tid (the (def_taskGroupId d)) (def_schedulerId d)
              (def_deadline d) s1) = Inl e"
  shows "createTask c now tid d0 s =
     (respond reported (Inl e),
      putDeadlineMessage tid (the (def_taskGroupId d)) (def_schedulerId d) (def_deadline d) s1)"
  using assms by (simp add: createTask_def Let_def)

lemma createTask_track_error:
  assumes "patchAndValidateTaskDef c now tid d0 = Inr d"
    and "\<not> list_ex (\<lambda>sc. endsWith sc ''**'') (def_scopes d)"
    and "ensureTaskGroup c tid d s = (True, reported, s1)"
    and "tryCreateTask c (taskFromDef tid d (initialRuns now d)) d
           (putDeadlineMessage tid (the (def_taskGroupId d)) (def_schedulerId d)
              (def_deadline d) s1) = Inr (t, s3)"
    and "trackIfUnscheduled now t s3 = (Some e, t', s4)"
  shows "createTask c now tid d0 s = (respond reported (Inl InputError), s4)"
  using assms by (simp add: createTask_def Let_def)

lemma createTask_tracked:
  assumes "patchAndValidateTaskDef c now tid d0 = Inr d"
    and "\<not> list_ex (\<lambda>sc. endsWith sc ''**'') (def_scopes d)"
    and "ensureTaskGroup c tid d s = (True, reported, s1)"
    and "tryCreateTask c (taskFromDef tid d (initialRuns now d)) d
           (putDeadlineMessage tid (the (def_taskGroupId d)) (def_schedulerId d)
              (def_deadline d) s1) = Inr (t, s3)"
    and "trackIfUnscheduled now t s3 = (None, t', s4)"
  shows "createTask c now tid d0 s =
     (respond reported (Inr (StatusReply (status t'))),
      if runZeroState t' \<noteq> Unscheduled \<and> runZeroState t' \<noteq> RunState Pending then s4
      else if runZeroState t' = RunState Pending
      then publish (TaskPending (status t') 0)
             (putPendingMessage t' 0 (publish (TaskDefined (status t')) s4))
      else publish (TaskDefined (status t')) s4)"
  using assms by (simp add: createTask_def Let_def)

subsection \<open>createTask: when it answers InputError\<close>

text \<open>
  C7, as the code has it. createTask returns InputError, writing nothing, whenever the
  timestamps of the definition fail one of the checks of patchAndValidateTaskDef:
  created more than 15 minutes before now; created more than 15 minutes after now;
  deadline before created; deadline before now (a deadline equal to now passes);
  deadline more than 5 days and 15 minutes after now (measured from now, not from
  created); expires (a year after the deadline when omitted) before the deadline. It
  also returns InputError for a scope ending in two stars. Any other InputError of
  createTask comes from the store refusing the row of this task (built from the
  definition with its defaults filled in) as oversize, or from a dependency, other
  than the task itself, that does not exist.
\<close>

theorem createTask_InputError:
  "(def_created d < now - 15 * 60 * 1000
      \<or> now + 15 * 60 * 1000 < def_created d
      \<or> def_deadline d < def_created d
      \<or> def_deadline d < now
      \<or> 5 * 24 * 60 * 60 * 1000 + 15 * 60 * 1000 < def_deadline d - now
      \<or> (case def_expires d of None \<Rightarrow> addOneYear c (def_deadline d) | Some e \<Rightarrow> e)
           < def_deadline d
     \<longrightarrow> createTask c now tid d s = (Inl InputError, s))
   \<and> (list_ex (\<lambda>sc. endsWith sc ''**'') (def_scopes d)
     \<longrightarrow> createTask c now tid d s = (Inl InputError, s))
   \<and> (fst (createTask c now tid d s) = Inl InputError
     \<longrightarrow> (def_created d < now - 15 * 60 * 1000
          \<or> now + 15 * 60 * 1000 < def_created d
          \<or> def_deadline d < def_created d
          \<or> def_deadline d < now
          \<or> 5 * 24 * 60 * 60 * 1000 + 15 * 60 * 1000 < def_deadline d - now
          \<or> (case def_expires d of None \<Rightarrow> addOneYear c (def_deadline d) | Some e \<Rightarrow> e)
               < def_deadline d)
        \<or> list_ex (\<lambda>sc. endsWith sc ''**'') (def_scopes d)
        \<or> (\<exists>p. patchAndValidateTaskDef c now tid d = Inr p
                 \<and> propertyTooLarge c (taskFromDef tid p (initialRuns now p)))
        \<or> (\<exists>dep \<in> set (def_dependencies d). dep \<noteq> tid \<and> Task s dep = None))"
proof (intro conjI impI)
  assume "def_created d < now - 15 * 60 * 1000
      \<or> now + 15 * 60 * 1000 < def_created d
      \<or> def_deadline d < def_created d
      \<or> def_deadline d < now
      \<or> 5 * 24 * 60 * 60 * 1000 + 15 * 60 * 1000 < def_deadline d - now
      \<or> (case def_expires d of None \<Rightarrow> addOneYear c (def_deadline d) | Some e \<Rightarrow> e)
           < def_deadline d"
  then have "patchAndValidateTaskDef c now tid d = Inl InputError"
    by (simp only: patchAndValidateTaskDef_rejects)
  then show "createTask c now tid d s = (Inl InputError, s)"
    by (simp add: createTask_def)
next
  assume star: "list_ex (\<lambda>sc. endsWith sc ''**'') (def_scopes d)"
  show "createTask c now tid d s = (Inl InputError, s)"
  proof (cases "patchAndValidateTaskDef c now tid d")
    case (Inl e)
    then show ?thesis
      using patchAndValidateTaskDef_error [OF Inl] by (simp add: createTask_def)
  next
    case (Inr p)
    then show ?thesis
      using star patchAndValidateTaskDef_patched(5) [OF Inr] by (simp add: createTask_def)
  qed
next
  assume err: "fst (createTask c now tid d s) = Inl InputError"
  show "(def_created d < now - 15 * 60 * 1000
          \<or> now + 15 * 60 * 1000 < def_created d
          \<or> def_deadline d < def_created d
          \<or> def_deadline d < now
          \<or> 5 * 24 * 60 * 60 * 1000 + 15 * 60 * 1000 < def_deadline d - now
          \<or> (case def_expires d of None \<Rightarrow> addOneYear c (def_deadline d) | Some e \<Rightarrow> e)
               < def_deadline d)
        \<or> list_ex (\<lambda>sc. endsWith sc ''**'') (def_scopes d)
        \<or> (\<exists>p. patchAndValidateTaskDef c now tid d = Inr p
                 \<and> propertyTooLarge c (taskFromDef tid p (initialRuns now p)))
        \<or> (\<exists>dep \<in> set (def_dependencies d). dep \<noteq> tid \<and> Task s dep = None)"
  proof (cases "patchAndValidateTaskDef c now tid d")
    case (Inl e)
    then have "patchAndValidateTaskDef c now tid d = Inl InputError"
      using patchAndValidateTaskDef_error [OF Inl] by simp
    then show ?thesis by (simp only: patchAndValidateTaskDef_rejects) simp
  next
    case valid: (Inr p)
    note p = patchAndValidateTaskDef_patched [OF valid]
    show ?thesis
    proof (cases "list_ex (\<lambda>sc. endsWith sc ''**'') (def_scopes d)")
      case True
      then show ?thesis by simp
    next
      case False
      then have nostar: "\<not> list_ex (\<lambda>sc. endsWith sc ''**'') (def_scopes p)"
        by (simp add: p(5))
      obtain ok reported s1 where etg: "ensureTaskGroup c tid p s = (ok, reported, s1)"
        by (metis prod_cases3)
      have ok: ok
        using err createTask_group_conflict [OF valid nostar, of s reported s1] etg
        by (cases ok) auto
      note etg = etg [unfolded eqTrueI [OF ok]]
      have T2: "Task (putDeadlineMessage tid (the (def_taskGroupId p)) (def_schedulerId p)
                        (def_deadline p) s1) = Task s"
        using ensureTaskGroup_Task [OF etg] by (simp add: putDeadlineMessage_def putMessage_def)
      show ?thesis
      proof (cases "tryCreateTask c (taskFromDef tid p (initialRuns now p)) p
                      (putDeadlineMessage tid (the (def_taskGroupId p)) (def_schedulerId p)
                         (def_deadline p) s1)")
        case (Inl e)
        then have "e = InputError"
          using err createTask_store_error [OF valid nostar etg Inl]
          by (auto dest: respond_InputError)
        then have "propertyTooLarge c (taskFromDef tid p (initialRuns now p))"
          using tryCreateTask_InputError Inl by blast
        then show ?thesis using valid by blast
      next
        case (Inr ts)
        obtain t s3 where ts: "ts = (t, s3)" by (cases ts)
        note created = Inr [unfolded ts]
        obtain e t' s4 where tr: "trackIfUnscheduled now t s3 = (e, t', s4)"
          by (metis prod_cases3)
        have "e \<noteq> None"
        proof
          assume "e = None"
          then show False
            using err createTask_tracked [OF valid nostar etg created tr [unfolded \<open>e = None\<close>]]
            by (auto simp: respond_def split: if_splits)
        qed
        then obtain e' where "e = Some e'" by auto
        from trackIfUnscheduled_error [OF tr [unfolded this]]
        obtain dep where dep: "dep \<in> set (dependencies t)" "Task s3 dep = None" by auto
        have "dependencies t = def_dependencies p"
          using tryCreateTask_dependencies [OF created] by (simp add: taskFromDef_def)
        moreover have "Task (putDeadlineMessage tid (the (def_taskGroupId p)) (def_schedulerId p)
                        (def_deadline p) s1) dep = None \<and> dep \<noteq> tid"
          using tryCreateTask_Task [OF created dep(2)] by (simp add: taskFromDef_def)
        ultimately show ?thesis
          using dep(1) T2 p(6) by auto
      qed
    qed
  qed
qed

text \<open>A definition whose deadline lies before its created time, and one with a
  starred scope, are rejected; both have a cause the theorem lists. The sample
  definition has none of the causes and is not rejected.\<close>

theorem createTask_InputError_witness:
  "def_deadline defCreatedAfterDeadline < def_created defCreatedAfterDeadline
   \<and> createTask ctx0 1000000 ''T'' defCreatedAfterDeadline state0 = (Inl InputError, state0)
   \<and> list_ex (\<lambda>sc. endsWith sc ''**'') (def_scopes defStarScope)
   \<and> createTask ctx0 1000000 ''T'' defStarScope state0 = (Inl InputError, state0)
   \<and> fst (createTask ctx0 1000000 ''T'' defStarScope state0) = Inl InputError
   \<and> 1000000 - 15 * 60 * 1000 \<le> def_created defA
   \<and> def_created defA \<le> 1000000 + 15 * 60 * 1000
   \<and> def_created defA \<le> def_deadline defA
   \<and> 1000000 \<le> def_deadline defA
   \<and> def_deadline defA - 1000000 \<le> 5 * 24 * 60 * 60 * 1000 + 15 * 60 * 1000
   \<and> def_expires defA = None
   \<and> def_deadline defA \<le> addOneYear ctx0 (def_deadline defA)
   \<and> def_scopes defA = [] \<and> def_dependencies defA = []
   \<and> fst (createTask ctx0 1000000 ''T'' defA state0) \<noteq> Inl InputError"
  using createTask_InputError [of defCreatedAfterDeadline 1000000 ctx0 "''T''" state0]
    createTask_InputError [of defStarScope 1000000 ctx0 "''T''" state0]
    createTask_InputError [of defA 1000000 ctx0 "''T''" state0]
  by (simp add: defCreatedAfterDeadline_def defStarScope_def defA_def endsWith_def ctx0_def)

text \<open>C7 as stated fails in both directions, at \<open>now = 1000000\<close>: a definition that
  keeps every rule of the claim is rejected because its deadline precedes its created
  time, and so is one with a starred scope; a deadline equal to now (not strictly in
  the future) is accepted, and so is a deadline more than 5 days and 15 minutes after
  created.\<close>

theorem createTask_timestamps_counterexample:
  "spec_timestamps_ok ctx0 1000000 defCreatedAfterDeadline
   \<and> createTask ctx0 1000000 ''T'' defCreatedAfterDeadline state0 = (Inl InputError, state0)
   \<and> \<not> spec_timestamps_ok ctx0 1000000 defDeadlineNow
   \<and> fst (createTask ctx0 1000000 ''T'' defDeadlineNow state0)
       = Inr (StatusReply (status (the (Task (snd (createTask ctx0 1000000 ''T'' defDeadlineNow state0)) ''T''))))
   \<and> \<not> spec_timestamps_ok ctx0 1000000 defLongHorizon
   \<and> fst (createTask ctx0 1000000 ''T'' defLongHorizon state0)
       = Inr (StatusReply (status (the (Task (snd (createTask ctx0 1000000 ''T'' defLongHorizon state0)) ''T''))))
   \<and> spec_timestamps_ok ctx0 1000000 defStarScope
   \<and> createTask ctx0 1000000 ''T'' defStarScope state0 = (Inl InputError, state0)"
  by (simp add: spec_timestamps_ok_def samples defCreatedAfterDeadline_def defDeadlineNow_def
       defLongHorizon_def defStarScope_def createTask_eval)

subsection \<open>defineTask and starred scopes\<close>

text \<open>
  C9. createTask rejects a definition with a scope ending in two stars; defineTask
  has no such check. At the definition below, which createTask rejects with
  InputError, defineTask creates the task with the starred scope and replies with
  its status.
\<close>

theorem defineTask_star_scope_accepted:
  "createTask ctx0 1000000 ''T'' defStarScope state0 = (Inl InputError, state0)
   \<and> fst (defineTask ctx0 1000000 ''T'' defStarScope state0)
       = Inr (StatusReply (status (the (Task (snd (defineTask ctx0 1000000 ''T'' defStarScope state0)) ''T''))))
   \<and> scopes (the (Task (snd (defineTask ctx0 1000000 ''T'' defStarScope state0)) ''T''))
       = [''queue:create-task:**'']
   \<and> runs (the (Task (snd (defineTask ctx0 1000000 ''T'' defStarScope state0)) ''T'')) = []"
  by (simp add: samples defStarScope_def createTask_eval)

subsection \<open>createTask and the scheduler of a task group\<close>

lemma ensureTaskGroup_mismatch:
  assumes "def_taskGroupId d = Some g" "TaskGroup s g = Some tg"
    and "tg_schedulerId tg \<noteq> def_schedulerId d"
  shows "ensureTaskGroup c tid d s = (False, True, s)"
  using assms by (simp add: ensureTaskGroup_def Let_def)

lemma ensureTaskGroup_groups:
  assumes "ensureTaskGroup c tid d s = (ok, reported, s1)"
  shows "Task s1 = Task s"
    and "TaskGroup s g = Some tg \<Longrightarrow> \<exists>tg'. TaskGroup s1 g = Some tg' \<and> tg_schedulerId tg' = tg_schedulerId tg"
    and "ok \<Longrightarrow> \<exists>tg. TaskGroup s1 (the (def_taskGroupId d)) = Some tg \<and> tg_schedulerId tg = def_schedulerId d"
  using assms
  by (auto simp: ensureTaskGroup_def Let_def split: option.splits if_splits prod.splits)

lemma groupOk_mono:
  assumes "groupOk s t"
    and "\<And>g tg. TaskGroup s g = Some tg \<Longrightarrow> \<exists>tg'. TaskGroup s' g = Some tg' \<and> tg_schedulerId tg' = tg_schedulerId tg"
  shows "groupOk s' t"
  using assms unfolding groupOk_def by metis

lemma inv_ensureTaskGroup:
  assumes "groupSchedulerInvariant s" "ensureTaskGroup c tid d s = (ok, reported, s1)"
  shows "groupSchedulerInvariant s1"
  unfolding groupSchedulerInvariant_def
proof (intro allI impI)
  fix k t assume "Task s1 k = Some t"
  then have "Task s k = Some t" using ensureTaskGroup_groups(1) [OF assms(2)] by simp
  then have "groupOk s t" using assms(1) by (auto simp: groupSchedulerInvariant_def)
  then show "groupOk s1 t"
    by (rule groupOk_mono) (rule ensureTaskGroup_groups(2) [OF assms(2)])
qed

lemma inv_tables:
  assumes "groupSchedulerInvariant s" "Task s' = Task s" "TaskGroup s' = TaskGroup s"
  shows "groupSchedulerInvariant s'"
  using assms by (simp add: groupSchedulerInvariant_def groupOk_def)

lemma inv_store:
  assumes "groupSchedulerInvariant s" "TaskGroup s' = TaskGroup s" "Task s' = (Task s)(k \<mapsto> t)" "groupOk s t"
  shows "groupSchedulerInvariant s'"
  using assms by (auto simp: groupSchedulerInvariant_def groupOk_def)

lemma inv_tryCreateTask:
  assumes "groupSchedulerInvariant s" "tryCreateTask c new d s = Inr (t, s')" "groupOk s new"
  shows "groupSchedulerInvariant s' \<and> groupOk s' t"
  using assms
  by (auto simp: tryCreateTask_def groupSchedulerInvariant_def groupOk_def split: if_splits option.splits)

lemma inv_scheduleTask:
  assumes "groupSchedulerInvariant s" "groupOk s t"
  shows "groupSchedulerInvariant (snd (snd (dependencyTracker_scheduleTask now t s)))"
  using assms
  by (auto simp: dependencyTracker_scheduleTask_def Let_def groupSchedulerInvariant_def groupOk_def
      publish_def putMessage_def putPendingMessage_def split: if_splits)

lemma inv_trackIfUnscheduled:
  assumes "groupSchedulerInvariant s" "groupOk s t"
    and "trackIfUnscheduled now t s = (e, t', s')"
  shows "groupSchedulerInvariant s'"
proof -
  let ?s1 = "s\<lparr>TaskDependency := TaskDependency s @ map (\<lambda>dep. (taskId t, dep)) (dependencies t)\<rparr>"
  have 1: "groupSchedulerInvariant ?s1" using assms(1) by (rule inv_tables) simp_all
  have 2: "groupOk ?s1 t" using assms(2) by (simp add: groupOk_def)
  show ?thesis
    using assms(3) assms(1) 1 inv_scheduleTask [OF 1 2, of now]
    by (auto simp: trackIfUnscheduled_def dependencyTracker_trackDependencies_def Let_def
        split: if_splits prod.splits)
qed

lemma inv_publish [simp]:
  "groupSchedulerInvariant (publish e s) = groupSchedulerInvariant s"
  "groupSchedulerInvariant (putMessage m s) = groupSchedulerInvariant s"
  "groupSchedulerInvariant (putPendingMessage t n s) = groupSchedulerInvariant s"
  "groupSchedulerInvariant (putDeadlineMessage a b c0 d s) = groupSchedulerInvariant s"
  by (simp_all add: groupSchedulerInvariant_def groupOk_def publish_def putMessage_def
      putPendingMessage_def putDeadlineMessage_def)

lemma groupOk_put [simp]:
  "groupOk (putDeadlineMessage a b c0 d s) t = groupOk s t"
  by (simp add: groupOk_def putDeadlineMessage_def putMessage_def)

lemma createTask_group_invariant:
  assumes inv: "groupSchedulerInvariant s"
  shows "groupSchedulerInvariant (snd (createTask c now tid d0 s))"
proof (cases "patchAndValidateTaskDef c now tid d0")
  case (Inl e)
  then show ?thesis using inv by (simp add: createTask_def)
next
  case valid: (Inr d)
  show ?thesis
  proof (cases "list_ex (\<lambda>sc. endsWith sc ''**'') (def_scopes d)")
    case True
    then show ?thesis using inv valid by (simp add: createTask_def)
  next
    case nostar: False
    obtain ok reported s1 where etg: "ensureTaskGroup c tid d s = (ok, reported, s1)"
      by (metis prod_cases3)
    have inv1: "groupSchedulerInvariant s1" by (rule inv_ensureTaskGroup [OF inv etg])
    show ?thesis
    proof (cases ok)
      case False
      then show ?thesis
        using createTask_group_conflict [OF valid nostar] etg inv1 by simp
    next
      case True
      note etg = etg [unfolded eqTrueI [OF True]]
      let ?s2 = "putDeadlineMessage tid (the (def_taskGroupId d)) (def_schedulerId d) (def_deadline d) s1"
      let ?new = "taskFromDef tid d (initialRuns now d)"
      have inv2: "groupSchedulerInvariant ?s2" using inv1 by simp
      have newOk: "groupOk ?s2 ?new"
        using ensureTaskGroup_groups(3) [OF etg]
        by (simp add: groupOk_def taskFromDef_def putDeadlineMessage_def putMessage_def)
      show ?thesis
      proof (cases "tryCreateTask c ?new d ?s2")
        case (Inl e)
        then show ?thesis
          using createTask_store_error [OF valid nostar etg Inl] inv2 by simp
      next
        case (Inr ts)
        obtain t s3 where ts: "ts = (t, s3)" by (cases ts)
        note created = Inr [unfolded ts]
        have inv3: "groupSchedulerInvariant s3" and tOk: "groupOk s3 t"
          using inv_tryCreateTask [OF inv2 created newOk] by simp_all
        obtain e t' s4 where tr: "trackIfUnscheduled now t s3 = (e, t', s4)"
          by (metis prod_cases3)
        have inv4: "groupSchedulerInvariant s4"
          by (rule inv_trackIfUnscheduled [OF inv3 tOk tr])
        show ?thesis
        proof (cases e)
          case None
          show ?thesis
            using createTask_tracked [OF valid nostar etg created tr [unfolded None]] inv4
            by simp
        next
          case (Some e')
          show ?thesis
            using createTask_track_error [OF valid nostar etg created tr [unfolded Some]] inv4
            by simp
        qed
      qed
    qed
  qed
qed


lemma stateCreated_tables:
  "Task stateCreated = [''T'' \<mapsto> taskFromDef ''T'' (defA\<lparr>def_expires := Some 31540600000\<rparr>)
                                  [new_run Pending Scheduled 1000000]]"
  "TaskGroup stateCreated = [''G'' \<mapsto> \<lparr>tg_schedulerId = ''S1'', tg_expires = 31627000000\<rparr>]"
  by (simp_all add: stateCreated_def samples createTask_eval)

subsection \<open>The invariants of a task under every operation\<close>

lemma runsExtended_refl [simp]: "runsExtended rs rs"
  by (simp add: runsExtended_def)

lemma runsExtended_trans:
  "runsExtended rs rs' \<Longrightarrow> runsExtended rs' rs'' \<Longrightarrow> runsExtended rs rs''"
  unfolding runsExtended_def
  by (metis (no_types, lifting) le_trans less_le_trans order.strict_trans2)

lemma runsExtended_append [simp]: "runsExtended rs (rs @ xs)"
  by (simp add: runsExtended_def nth_append)

lemma runsExtended_update:
  assumes "i < length rs \<Longrightarrow> \<not> terminal (state (rs ! i))
             \<and> reasonCreated x = reasonCreated (rs ! i) \<and> scheduled x = scheduled (rs ! i)"
  shows "runsExtended rs (rs[i := x])"
proof (cases "i < length rs")
  case True
  with assms show ?thesis by (auto simp: runsExtended_def nth_list_update)
next
  case False
  then show ?thesis by (simp add: list_update_beyond)
qed

lemma runsExtended_update_append:
  assumes "i < length rs \<Longrightarrow> \<not> terminal (state (rs ! i))
             \<and> reasonCreated x = reasonCreated (rs ! i) \<and> scheduled x = scheduled (rs ! i)"
  shows "runsExtended rs (rs[i := x] @ xs)"
  using runsExtended_update [OF assms] runsExtended_append runsExtended_trans by blast

lemma butlast_snoc_update:
  "rs \<noteq> [] \<Longrightarrow> butlast rs @ [x] = rs[length rs - 1 := x]"
  by (induction rs rule: rev_induct) (simp_all add: list_update_append)

lemma last_nth: "rs \<noteq> [] \<Longrightarrow> last rs = rs ! (length rs - 1)"
  by (simp add: last_conv_nth)

lemma stepOk_same:
  "stateInvariant s \<Longrightarrow> Task s' = Task s \<Longrightarrow> stepOk s s'"
  by (auto simp: stepOk_def stateInvariant_def)

lemma stepOk_update:
  assumes "stateInvariant s" "Task s k = Some t" "Task s' = (Task s)(k \<mapsto> t')"
    and "taskId t' = taskId t" "taskInvariant t \<Longrightarrow> taskInvariant t'" "runsExtended (runs t) (runs t')"
  shows "stepOk s s'"
  using assms by (auto simp: stepOk_def stateInvariant_def)

lemma stepOk_insert:
  assumes "stateInvariant s" "Task s k = None" "Task s' = (Task s)(k \<mapsto> t')"
    and "taskId t' = k" "taskInvariant t'"
  shows "stepOk s s'"
  using assms by (auto simp: stepOk_def stateInvariant_def)

lemma stepOk_trans:
  "stepOk s s' \<Longrightarrow> stepOk s' s'' \<Longrightarrow> stepOk s s''"
  unfolding stepOk_def by (meson runsExtended_trans)

lemma stepOk_inv: "stepOk s s' \<Longrightarrow> stateInvariant s'"
  by (simp add: stepOk_def)

lemma reportException_modify_step:
  "taskId (reportException_modify now runId reason t) = taskId t"
  "taskInvariant t \<Longrightarrow> taskInvariant (reportException_modify now runId reason t)"
  "runsExtended (runs t) (runs (reportException_modify now runId reason t))"
  by (auto simp: reportException_modify_def Let_def taskInvariant_def terminal_def new_run_def
      intro!: runsExtended_update runsExtended_update_append)

lemma resolveTask_modify_step:
  "taskId (resolveTask_modify now runId target t) = taskId t"
  "taskInvariant t \<Longrightarrow> taskInvariant (resolveTask_modify now runId target t)"
  "runsExtended (runs t) (runs (resolveTask_modify now runId target t))"
  by (auto simp: resolveTask_modify_def Let_def taskInvariant_def terminal_def
      intro!: runsExtended_update)

lemma reclaimTask_modify_step:
  "taskId (fst (reclaimTask_modify tid runId proposed t)) = taskId t"
  "taskInvariant t \<Longrightarrow> taskInvariant (fst (reclaimTask_modify tid runId proposed t))"
  "runsExtended (runs t) (runs (fst (reclaimTask_modify tid runId proposed t)))"
  by (auto simp: reclaimTask_modify_def Let_def taskInvariant_def terminal_def
      intro!: runsExtended_update split: option.splits)

lemma cancelTask_modify_step:
  "taskId (cancelTask_modify now t) = taskId t"
  "taskInvariant t \<Longrightarrow> taskInvariant (cancelTask_modify now t)"
  "runsExtended (runs t) (runs (cancelTask_modify now t))"
proof -
  show "taskId (cancelTask_modify now t) = taskId t"
    by (simp add: cancelTask_modify_cases)
  show "taskInvariant t \<Longrightarrow> taskInvariant (cancelTask_modify now t)"
    by (auto simp: cancelTask_modify_cases taskInvariant_def MAX_RUNS_ALLOWED_def)
  show "runsExtended (runs t) (runs (cancelTask_modify now t))"
  proof (cases "runs t = []")
    case True
    then show ?thesis by (simp add: cancelTask_modify_cases runsExtended_def)
  next
    case False
    then show ?thesis
      by (auto simp: cancelTask_modify_cases butlast_snoc_update last_conv_nth terminal_def
          intro!: runsExtended_update)
  qed
qed

lemma rerunTask_modify_step:
  "taskId (rerunTask_modify now t) = taskId t"
  "taskInvariant t \<Longrightarrow> taskInvariant (rerunTask_modify now t)"
  "runsExtended (runs t) (runs (rerunTask_modify now t))"
  by (auto simp: rerunTask_modify_def Let_def taskInvariant_def MAX_RUNS_ALLOWED_def)


lemma stepOk_modify:
  assumes "stateInvariant s"
    and "Task s' = (case Task s k of None \<Rightarrow> Task s
                    | Some t \<Rightarrow> if b t then Task s else (Task s)(k \<mapsto> f t))"
    and "\<And>t. taskId (f t) = taskId t"
    and "\<And>t. taskInvariant t \<Longrightarrow> taskInvariant (f t)"
    and "\<And>t. runsExtended (runs t) (runs (f t))"
  shows "stepOk s s'"
proof (cases "Task s k")
  case None
  then show ?thesis using assms(1,2) by (simp add: stepOk_same)
next
  case (Some t)
  show ?thesis
  proof (cases "b t")
    case True
    then show ?thesis using assms(1,2) Some by (simp add: stepOk_same)
  next
    case False
    then have "Task s' = (Task s)(k \<mapsto> f t)" using assms(2) Some by simp
    then show ?thesis
      by (rule stepOk_update [OF assms(1) Some _ assms(3) assms(4) assms(5)])
  qed
qed

lemma reportException_Task:
  "Task (snd (reportException now tid runId reason s)) =
     (case Task s tid of None \<Rightarrow> Task s
      | Some t \<Rightarrow> if length (runs t) \<le> runId then Task s
                  else (Task s)(tid \<mapsto> reportException_modify now runId reason t))"
  by (auto simp: reportException_def Let_def publish_def putMessage_def putPendingMessage_def
      split: option.splits)

lemma resolveTask_Task:
  "Task (snd (resolveTask now tid runId target s)) =
     (case Task s tid of None \<Rightarrow> Task s
      | Some t \<Rightarrow> if length (runs t) \<le> runId
                     \<or> (target = ToCompleted \<and> \<not> haveAllBlobs s tid runId) then Task s
                  else (Task s)(tid \<mapsto> resolveTask_modify now runId target t))"
  by (auto simp: resolveTask_def Let_def publish_def putMessage_def split: option.splits)

lemma reclaimTask_Task:
  "Task (snd (reclaimTask c now tid runId s)) =
     (case Task s tid of None \<Rightarrow> Task s
      | Some t \<Rightarrow> if length (runs t) \<le> runId \<or> deadline t \<le> now then Task s
                  else (Task s)(tid \<mapsto> fst (reclaimTask_modify tid runId (addSeconds c now (claimTimeout c)) t)))"
  by (auto simp: reclaimTask_def Let_def split: option.splits prod.splits)

lemma cancelTask_Task:
  "Task (snd (cancelTask now tid s)) =
     (case Task s tid of None \<Rightarrow> Task s
      | Some t \<Rightarrow> if deadline t < now then Task s
                  else (Task s)(tid \<mapsto> cancelTask_modify now t))"
  by (auto simp: cancelTask_def Let_def publish_def putMessage_def split: option.splits)

lemma rerunTask_Task:
  "Task (snd (rerunTask now tid s)) =
     (case Task s tid of None \<Rightarrow> Task s
      | Some t \<Rightarrow> if deadline t < now then Task s
                  else (Task s)(tid \<mapsto> rerunTask_modify now t))"
  by (auto simp: rerunTask_def Let_def publish_def putMessage_def putPendingMessage_def
      split: option.splits)

lemma stepOk_reportException:
  "stateInvariant s \<Longrightarrow> stepOk s (snd (reportException now tid runId reason s))"
  by (rule stepOk_modify [OF _ reportException_Task]) (simp_all add: reportException_modify_step)

lemma stepOk_resolveTask:
  "stateInvariant s \<Longrightarrow> stepOk s (snd (resolveTask now tid runId target s))"
  by (rule stepOk_modify [OF _ resolveTask_Task]) (simp_all add: resolveTask_modify_step)

lemma stepOk_reclaimTask:
  "stateInvariant s \<Longrightarrow> stepOk s (snd (reclaimTask c now tid runId s))"
  by (rule stepOk_modify [OF _ reclaimTask_Task]) (simp_all add: reclaimTask_modify_step)

lemma stepOk_cancelTask:
  "stateInvariant s \<Longrightarrow> stepOk s (snd (cancelTask now tid s))"
  by (rule stepOk_modify [OF _ cancelTask_Task]) (simp_all add: cancelTask_modify_step)

lemma stepOk_rerunTask:
  "stateInvariant s \<Longrightarrow> stepOk s (snd (rerunTask now tid s))"
  by (rule stepOk_modify [OF _ rerunTask_Task]) (simp_all add: rerunTask_modify_step)

lemma stepOk_dependencyTracker_scheduleTask:
  assumes "stateInvariant s" "Task s k = Some t0"
  shows "stepOk s (snd (snd (dependencyTracker_scheduleTask now t0 s)))"
proof -
  have k: "taskId t0 = k" and inv0: "taskInvariant t0"
    using assms by (auto simp: stateInvariant_def)
  show ?thesis
  proof (cases "deadline t0 < now \<or> task_state t0 \<noteq> Unscheduled")
    case True
    then show ?thesis
      using assms(1) by (auto simp: dependencyTracker_scheduleTask_def stepOk_same)
  next
    case False
    then have empty: "runs t0 = []"
      by (auto simp: task_state_def lastRunState_def split: list.splits)
    let ?t = "t0\<lparr>runs := runs t0 @ [new_run Pending Scheduled now]\<rparr>"
    have T: "Task (snd (snd (dependencyTracker_scheduleTask now t0 s))) = (Task s)(k \<mapsto> ?t)"
      using False k
      by (simp add: dependencyTracker_scheduleTask_def Let_def publish_def putMessage_def
          putPendingMessage_def)
    show ?thesis
      using assms(1,2) T
    proof (rule stepOk_update)
      show "taskId ?t = taskId t0" by simp
      show "taskInvariant ?t" using inv0 empty
        by (simp add: taskInvariant_def MAX_RUNS_ALLOWED_def)
      show "runsExtended (runs t0) (runs ?t)" by simp
    qed
  qed
qed

lemma stepOk_scheduleTask:
  "stateInvariant s \<Longrightarrow> stepOk s (snd (scheduleTask now tid s))"
proof (cases "Task s tid")
  case None
  assume "stateInvariant s"
  then show ?thesis using None by (simp add: scheduleTask_def stepOk_same)
next
  case (Some t)
  assume inv: "stateInvariant s"
  have "snd (scheduleTask now tid s) = snd (snd (dependencyTracker_scheduleTask now t s))"
    using Some by (simp add: scheduleTask_def split: prod.splits option.splits)
  then show ?thesis
    using stepOk_dependencyTracker_scheduleTask [OF inv Some] by simp
qed

lemma stepOk_claimTask:
  assumes "stateInvariant s"
  shows "stepOk s (snd (claimTask c now tid runId wg wid s))"
proof -
  let ?f = "\<lambda>t. t\<lparr>runs := (runs t)[runId := (runs t ! runId)\<lparr>state := Running,
                        started := Some now, takenUntil := Some (now + claimTimeout c * 1000),
                        workerGroup := Some wg, workerId := Some wid\<rparr>],
                    task_takenUntil := now + claimTimeout c * 1000\<rparr>"
  let ?b = "\<lambda>t. deadline t \<le> now
              \<or> (case Worker s (provisionerId t, workerType t, wg, wid) of
                     None \<Rightarrow> False | Some quarantineUntil \<Rightarrow> now < quarantineUntil)
              \<or> length (runs t) \<le> runId \<or> state (runs t ! runId) \<noteq> Pending"
  have T: "Task (snd (claimTask c now tid runId wg wid s)) =
     (case Task s tid of None \<Rightarrow> Task s
      | Some t \<Rightarrow> if ?b t then Task s else (Task s)(tid \<mapsto> ?f t))"
    by (auto simp: claimTask_def workClaimer_claimTask_def Let_def publish_def putMessage_def
        split: option.splits)
  have ext: "runsExtended (runs t) (runs (?f t))" if "\<not> ?b t" for t
    using that by (auto simp: terminal_def intro!: runsExtended_update)
  show ?thesis
  proof (cases "Task s tid")
    case None
    then show ?thesis using assms T by (simp add: stepOk_same)
  next
    case (Some t)
    show ?thesis
    proof (cases "?b t")
      case True
      then show ?thesis using assms T Some by (simp add: stepOk_same)
    next
      case False
      then have "Task (snd (claimTask c now tid runId wg wid s)) = (Task s)(tid \<mapsto> ?f t)"
        using T Some by simp
      then show ?thesis
        using assms Some
      proof (intro stepOk_update [where t = t and t' = "?f t"])
        show "taskId (?f t) = taskId t" by simp
        show "taskInvariant t \<Longrightarrow> taskInvariant (?f t)" by (simp add: taskInvariant_def)
        show "runsExtended (runs t) (runs (?f t))" using ext [OF False] .
      qed
    qed
  qed
qed


lemma stepOk_claimResolver:
  assumes "stateInvariant s"
  shows "stepOk s (claimResolver_handle now tid runId tu s)"
proof -
  let ?g = "\<lambda>t. t\<lparr>runs := (runs t)[runId := (runs t ! runId)\<lparr>state := Exception,
                          reasonResolved := Some ClaimExpired, resolved := Some now\<rparr>]\<rparr>"
  let ?f = "\<lambda>t. if 0 < retriesLeft (?g t)
                 then (?g t)\<lparr>retriesLeft := retriesLeft (?g t) - 1,
                             runs := runs (?g t) @ [new_run Pending Retry now]\<rparr>
                 else ?g t"
  let ?b = "\<lambda>t. \<not> (runId < length (runs t) \<and> state (runs t ! runId) = Running
                      \<and> takenUntil (runs t ! runId) = Some tu)"
  have T: "Task (claimResolver_handle now tid runId tu s) =
     (case Task s tid of None \<Rightarrow> Task s
      | Some t \<Rightarrow> if ?b t then Task s else (Task s)(tid \<mapsto> ?f t))"
    by (auto simp: claimResolver_handle_def Let_def publish_def putMessage_def putPendingMessage_def
        split: option.splits)
  show ?thesis
  proof (cases "Task s tid")
    case None
    then show ?thesis using assms T by (simp add: stepOk_same)
  next
    case (Some t)
    show ?thesis
    proof (cases "?b t")
      case True
      then show ?thesis using assms T Some by (simp add: stepOk_same)
    next
      case False
      then have T': "Task (claimResolver_handle now tid runId tu s) = (Task s)(tid \<mapsto> ?f t)"
        using T Some by simp
      show ?thesis
      proof (rule stepOk_update [OF assms Some T'])
        show "taskId (?f t) = taskId t" by simp
        show "taskInvariant t \<Longrightarrow> taskInvariant (?f t)" by (simp add: taskInvariant_def)
        show "runsExtended (runs t) (runs (?f t))"
          using False
          by (auto simp: terminal_def intro!: runsExtended_update runsExtended_update_append)
      qed
    qed
  qed
qed

lemma stepOk_deadlineResolver:
  assumes "stateInvariant s"
  shows "stepOk s (deadlineResolver_handle now tid dl s)"
proof -
  let ?x = "\<lparr>state = Exception, reasonCreated = CreatedException,
             reasonResolved = Some DeadlineExceeded, scheduled = now,
             started = None, resolved = Some now, takenUntil = None,
             workerGroup = None, workerId = None\<rparr>"
  let ?f = "\<lambda>t. t\<lparr>runs := (if runs t = [] then [?x]
                   else butlast (runs t) @ [(last (runs t))\<lparr>state := Exception,
                          reasonResolved := Some DeadlineExceeded, resolved := Some now\<rparr>])\<rparr>"
  let ?b = "\<lambda>t. \<not> (deadline t = dl \<and> (lastRunState (runs t) = Unscheduled
                   \<or> lastRunState (runs t) = RunState Pending
                   \<or> lastRunState (runs t) = RunState Running))"
  have T: "Task (deadlineResolver_handle now tid dl s) =
     (case Task s tid of None \<Rightarrow> Task s
      | Some t \<Rightarrow> if ?b t then Task s else (Task s)(tid \<mapsto> ?f t))"
    by (auto simp: deadlineResolver_handle_def Let_def publish_def putMessage_def
        split: option.splits)
  show ?thesis
  proof (cases "Task s tid")
    case None
    then show ?thesis using assms T by (simp add: stepOk_same)
  next
    case (Some t)
    show ?thesis
    proof (cases "?b t")
      case True
      then show ?thesis using assms T Some by (simp add: stepOk_same)
    next
      case False
      then have T': "Task (deadlineResolver_handle now tid dl s) = (Task s)(tid \<mapsto> ?f t)"
        using T Some by simp
      show ?thesis
      proof (rule stepOk_update [OF assms Some T'])
        show "taskId (?f t) = taskId t" by simp
        show "taskInvariant t \<Longrightarrow> taskInvariant (?f t)"
          by (auto simp: taskInvariant_def MAX_RUNS_ALLOWED_def)
        show "runsExtended (runs t) (runs (?f t))"
        proof (cases "runs t = []")
          case True
          then show ?thesis by (simp add: runsExtended_def)
        next
          case ne: False
          then have "\<not> terminal (state (last (runs t)))"
            using False by (auto simp: lastRunState_def terminal_def split: list.splits)
          then show ?thesis
            using ne
            by (auto simp: butlast_snoc_update last_conv_nth intro!: runsExtended_update)
        qed
      qed
    qed
  qed
qed

lemma stepOk_Task_cong:
  "stepOk s s' \<Longrightarrow> Task s0 = Task s \<Longrightarrow> Task s1 = Task s' \<Longrightarrow> stepOk s0 s1"
  by (simp add: stepOk_def stateInvariant_def)

lemma stepOk_trackIfUnscheduled:
  assumes "stateInvariant s" "Task s k = Some t"
  shows "stepOk s (snd (snd (trackIfUnscheduled now t s)))"
proof -
  let ?s1 = "s\<lparr>TaskDependency := TaskDependency s @ map (\<lambda>dep. (taskId t, dep)) (dependencies t)\<rparr>"
  have inv1: "stateInvariant ?s1" using assms(1) by (simp add: stateInvariant_def)
  have T1: "Task ?s1 k = Some t" using assms(2) by simp
  have sched: "stepOk s (snd (snd (dependencyTracker_scheduleTask now t ?s1)))"
    using stepOk_dependencyTracker_scheduleTask [OF inv1 T1, of now]
    by (rule stepOk_Task_cong) simp_all
  show ?thesis
    using assms(1) sched
    by (auto simp: trackIfUnscheduled_def dependencyTracker_trackDependencies_def Let_def
        stepOk_same intro: stepOk_Task_cong [OF stepOk_same [OF assms(1) refl]])
qed

lemma taskInvariant_new:
  assumes "0 \<le> def_retries d" "def_retries d \<le> int MAX_RUNS_ALLOWED - 1" "length rs \<le> 1"
  shows "taskInvariant (taskFromDef tid d rs)"
  using assms by (auto simp: taskInvariant_def taskFromDef_def MAX_RUNS_ALLOWED_def)

lemma stepOk_store_track:
  assumes inv: "stateInvariant s"
    and new: "taskId new = tid" "taskInvariant new"
    and created: "tryCreateTask c new d s = Inr (t, s3)"
  shows "stepOk s (snd (snd (trackIfUnscheduled now t s3)))"
proof (cases "Task s tid")
  case None
  then have s3: "Task s3 = (Task s)(tid \<mapsto> new)" and t: "t = new"
    using created new(1) by (auto simp: tryCreateTask_def split: if_splits)
  have 1: "stepOk s s3"
    by (rule stepOk_insert [OF inv None s3 new])
  have 2: "stepOk s3 (snd (snd (trackIfUnscheduled now t s3)))"
    by (rule stepOk_trackIfUnscheduled [OF stepOk_inv [OF 1], of tid]) (simp add: s3 t)
  show ?thesis by (rule stepOk_trans [OF 1 2])
next
  case (Some t0)
  then have s3: "s3 = s" and t: "t = t0"
    using created new(1) by (auto simp: tryCreateTask_def split: if_splits)
  show ?thesis
    unfolding s3 by (rule stepOk_trackIfUnscheduled [OF inv, of tid]) (simp add: Some t)
qed

lemma createTask_tracked_Task:
  assumes "patchAndValidateTaskDef c now tid d0 = Inr d"
    and "\<not> list_ex (\<lambda>sc. endsWith sc ''**'') (def_scopes d)"
    and "ensureTaskGroup c tid d s = (True, reported, s1)"
    and "tryCreateTask c (taskFromDef tid d (initialRuns now d)) d
           (putDeadlineMessage tid (the (def_taskGroupId d)) (def_schedulerId d)
              (def_deadline d) s1) = Inr (t, s3)"
  shows "Task (snd (createTask c now tid d0 s)) = Task (snd (snd (trackIfUnscheduled now t s3)))"
proof -
  obtain e t' s4 where tr: "trackIfUnscheduled now t s3 = (e, t', s4)"
    by (metis prod_cases3)
  show ?thesis
  proof (cases e)
    case None
    show ?thesis
      using createTask_tracked [OF assms tr [unfolded None]] tr
      by (simp add: publish_def putMessage_def putPendingMessage_def)
  next
    case (Some e')
    show ?thesis
      using createTask_track_error [OF assms tr [unfolded Some]] tr by simp
  qed
qed

lemma stepOk_createTask:
  assumes inv: "stateInvariant s"
    and retries: "0 \<le> def_retries d0" "def_retries d0 \<le> int MAX_RUNS_ALLOWED - 1"
  shows "stepOk s (snd (createTask c now tid d0 s))"
proof (cases "patchAndValidateTaskDef c now tid d0")
  case (Inl e)
  then show ?thesis using inv by (simp add: createTask_def stepOk_same)
next
  case valid: (Inr d)
  note p = patchAndValidateTaskDef_patched [OF valid]
  show ?thesis
  proof (cases "list_ex (\<lambda>sc. endsWith sc ''**'') (def_scopes d)")
    case True
    then show ?thesis using inv valid by (simp add: createTask_def stepOk_same)
  next
    case nostar: False
    obtain ok reported s1 where etg: "ensureTaskGroup c tid d s = (ok, reported, s1)"
      by (metis prod_cases3)
    have T1: "Task s1 = Task s" by (rule ensureTaskGroup_Task [OF etg])
    show ?thesis
    proof (cases ok)
      case False
      then show ?thesis
        using createTask_group_conflict [OF valid nostar, of s reported s1] etg inv T1
        by (simp add: stepOk_same)
    next
      case True
      note etg = etg [unfolded eqTrueI [OF True]]
      let ?s2 = "putDeadlineMessage tid (the (def_taskGroupId d)) (def_schedulerId d) (def_deadline d) s1"
      let ?new = "taskFromDef tid d (initialRuns now d)"
      have T2: "Task ?s2 = Task s"
        using T1 by (simp add: putDeadlineMessage_def putMessage_def)
      have inv2: "stateInvariant ?s2"
        using inv by (simp add: stateInvariant_def T2)
      have new1: "taskId ?new = tid" by (simp add: taskFromDef_def)
      have new2: "taskInvariant ?new"
        by (rule taskInvariant_new) (use retries p(8) in \<open>simp_all add: initialRuns_def\<close>)
      show ?thesis
      proof (cases "tryCreateTask c ?new d ?s2")
        case (Inl e)
        have "Task (snd (createTask c now tid d0 s)) = Task s"
          using createTask_store_error [OF valid nostar etg Inl] T2 by simp
        then show ?thesis using inv by (simp add: stepOk_same)
      next
        case (Inr ts)
        obtain t s3 where ts: "ts = (t, s3)" by (cases ts)
        note created = Inr [unfolded ts]
        have "stepOk ?s2 (snd (snd (trackIfUnscheduled now t s3)))"
          by (rule stepOk_store_track [OF inv2 new1 new2 created])
        then show ?thesis
          by (rule stepOk_Task_cong)
            (simp_all add: T2 createTask_tracked_Task [OF valid nostar etg created])
      qed
    qed
  qed
qed

lemma defineTask_group_conflict:
  assumes "patchAndValidateTaskDef c now tid d0 = Inr d1"
    and "ensureTaskGroup c tid (withSelfDependency tid d1) s = (False, reported, s1)"
  shows "defineTask c now tid d0 s = (Inl RequestConflict, s1)"
  using assms by (simp add: defineTask_def Let_def)

lemma defineTask_store_error:
  assumes "patchAndValidateTaskDef c now tid d0 = Inr d1"
    and "ensureTaskGroup c tid (withSelfDependency tid d1) s = (True, reported, s1)"
    and "tryCreateTask c (taskFromDef tid (withSelfDependency tid d1) []) (withSelfDependency tid d1)
           (putDeadlineMessage tid (the (def_taskGroupId (withSelfDependency tid d1)))
              (def_schedulerId (withSelfDependency tid d1))
              (def_deadline (withSelfDependency tid d1)) s1) = Inl e"
  shows "snd (defineTask c now tid d0 s) =
     putDeadlineMessage tid (the (def_taskGroupId (withSelfDependency tid d1)))
       (def_schedulerId (withSelfDependency tid d1)) (def_deadline (withSelfDependency tid d1)) s1"
  using assms by (simp add: defineTask_def Let_def)

lemma defineTask_tracked_Task:
  assumes "patchAndValidateTaskDef c now tid d0 = Inr d1"
    and "ensureTaskGroup c tid (withSelfDependency tid d1) s = (True, reported, s1)"
    and "tryCreateTask c (taskFromDef tid (withSelfDependency tid d1) []) (withSelfDependency tid d1)
           (putDeadlineMessage tid (the (def_taskGroupId (withSelfDependency tid d1)))
              (def_schedulerId (withSelfDependency tid d1))
              (def_deadline (withSelfDependency tid d1)) s1) = Inr (t, s3)"
  shows "Task (snd (defineTask c now tid d0 s)) = Task (snd (snd (trackIfUnscheduled now t s3)))"
proof -
  obtain e t' s4 where tr: "trackIfUnscheduled now t s3 = (e, t', s4)"
    by (metis prod_cases3)
  show ?thesis
  proof (cases e)
    case None
    then show ?thesis
      using assms tr by (simp add: defineTask_def Let_def publish_def)
  next
    case (Some e')
    then show ?thesis
      using assms tr by (simp add: defineTask_def Let_def)
  qed
qed

lemma stepOk_defineTask:
  assumes inv: "stateInvariant s"
    and retries: "0 \<le> def_retries d0" "def_retries d0 \<le> int MAX_RUNS_ALLOWED - 1"
  shows "stepOk s (snd (defineTask c now tid d0 s))"
proof (cases "patchAndValidateTaskDef c now tid d0")
  case (Inl e)
  then show ?thesis using inv by (simp add: defineTask_def stepOk_same)
next
  case valid: (Inr d1)
  note p = patchAndValidateTaskDef_patched [OF valid]
  let ?d = "withSelfDependency tid d1"
  have dr: "def_retries ?d = def_retries d0" using p(8) by (simp add: withSelfDependency_def)
  obtain ok reported s1 where etg: "ensureTaskGroup c tid ?d s = (ok, reported, s1)"
    by (metis prod_cases3)
  have T1: "Task s1 = Task s" by (rule ensureTaskGroup_Task [OF etg])
  show ?thesis
  proof (cases ok)
    case False
    then have "snd (defineTask c now tid d0 s) = s1"
      using defineTask_group_conflict [OF valid] etg by simp
    then show ?thesis using inv T1 by (simp add: stepOk_same)
  next
    case True
    note etg = etg [unfolded eqTrueI [OF True]]
    let ?s2 = "putDeadlineMessage tid (the (def_taskGroupId ?d)) (def_schedulerId ?d) (def_deadline ?d) s1"
    let ?new = "taskFromDef tid ?d []"
    have T2: "Task ?s2 = Task s"
      using T1 by (simp add: putDeadlineMessage_def putMessage_def)
    have inv2: "stateInvariant ?s2"
      using inv by (simp add: stateInvariant_def T2)
    have new1: "taskId ?new = tid" by (simp add: taskFromDef_def)
    have new2: "taskInvariant ?new"
      by (rule taskInvariant_new) (use retries dr in simp_all)
    show ?thesis
    proof (cases "tryCreateTask c ?new ?d ?s2")
      case (Inl e)
      have "Task (snd (defineTask c now tid d0 s)) = Task s"
        using defineTask_store_error [OF valid etg Inl] T2 by simp
      then show ?thesis using inv by (simp add: stepOk_same)
    next
      case (Inr ts)
      obtain t s3 where ts: "ts = (t, s3)" by (cases ts)
      note created = Inr [unfolded ts]
      have "stepOk ?s2 (snd (snd (trackIfUnscheduled now t s3)))"
        by (rule stepOk_store_track [OF inv2 new1 new2 created])
      then show ?thesis
        by (rule stepOk_Task_cong)
          (simp_all add: T2 defineTask_tracked_Task [OF valid etg created])
    qed
  qed
qed

lemma taskInvariant_claimed: "taskInvariant t \<Longrightarrow> claimedInvariant t"
  by (auto simp: taskInvariant_def claimedInvariant_def MAX_RUNS_ALLOWED_def)

lemma stepOk_handle:
  assumes "stateInvariant s" "requestOk r"
  shows "stepOk s (handle c now r s)"
proof (cases r)
  case (CreateTask tid d)
  then show ?thesis using assms by (simp add: stepOk_createTask)
next
  case (DefineTask tid d)
  then show ?thesis using assms by (simp add: stepOk_defineTask)
next
  case (ScheduleTask tid)
  then show ?thesis using assms by (simp add: stepOk_scheduleTask)
next
  case (RerunTask tid)
  then show ?thesis using assms by (simp add: stepOk_rerunTask)
next
  case (CancelTask tid)
  then show ?thesis using assms by (simp add: stepOk_cancelTask)
next
  case (ClaimTask tid runId wg wid)
  then show ?thesis using assms by (simp add: stepOk_claimTask)
next
  case (ReclaimTask tid runId)
  then show ?thesis using assms by (simp add: stepOk_reclaimTask)
next
  case (ReportCompleted tid runId success)
  then show ?thesis using assms by (simp add: reportCompleted_def stepOk_resolveTask)
next
  case (ReportFailed tid runId)
  then show ?thesis using assms by (simp add: reportFailed_def stepOk_resolveTask)
next
  case (ReportException tid runId reason)
  then show ?thesis using assms by (simp add: stepOk_reportException)
next
  case (ClaimExpiration tid runId tu)
  then show ?thesis using assms by (simp add: stepOk_claimResolver)
next
  case (DeadlineExpiration tid dl)
  then show ?thesis using assms by (simp add: stepOk_deadlineResolver)
qed

lemma stateInvariant_handleAll:
  assumes "stateInvariant s" "list_all (\<lambda>x. requestOk (snd x)) rs"
  shows "stateInvariant (handleAll c rs s)"
  using assms
proof (induction rs arbitrary: s)
  case Nil
  then show ?case by simp
next
  case (Cons x rs)
  obtain now r where x: "x = (now, r)" by (cases x)
  have "stateInvariant (handle c now r s)"
    using stepOk_handle [of s r c now] Cons.prems x by (simp add: stepOk_inv)
  then show ?case using Cons x by simp
qed

lemma stateInvariant_state0: "stateInvariant state0"
  by (simp add: stateInvariant_def state0_def)

text \<open>
  C5. A request to create or define a task is admitted with between 0 and 49 retries
  (the bound of the request schema, checked before the handler runs). In every
  service that a history of admitted requests reaches from the empty one, every task
  satisfies \<open>0 \<le> retriesLeft \<le> retries\<close> and \<open>length runs \<le> 50\<close>, and every operation
  (createTask, defineTask, scheduleTask, rerunTask, cancelTask, claimTask,
  reclaimTask, reportCompleted, reportFailed, reportException, and the
  claim-expiration and deadline resolvers) leads to a service in which every task
  satisfies the same; no task is removed, and the runs of every task are extended: no
  run changes its index and no run in a terminal state is changed. What the
  operations maintain is the budget \<open>length runs + retriesLeft \<le> 50\<close> with
  \<open>0 \<le> retriesLeft \<le> retries \<le> 49\<close>: it holds of the empty service, every operation
  keeps it from whichever service has it, and it implies the three invariants.
\<close>

theorem operations_preserve_invariants:
  "(list_all (\<lambda>x. requestOk (snd x)) rs \<and> requestOk r \<longrightarrow>
      (\<forall>k t. Task (handleAll c rs state0) k = Some t \<longrightarrow>
          claimedInvariant t
          \<and> (\<exists>t'. Task (handle c now r (handleAll c rs state0)) k = Some t'
                 \<and> runsExtended (runs t) (runs t')))
      \<and> (\<forall>k t'. Task (handle c now r (handleAll c rs state0)) k = Some t' \<longrightarrow>
             claimedInvariant t'))
   \<and> (stateInvariant s \<and> requestOk r \<longrightarrow>
        stateInvariant (handle c now r s)
        \<and> (\<forall>k t. Task s k = Some t \<longrightarrow>
              (\<exists>t'. Task (handle c now r s) k = Some t' \<and> runsExtended (runs t) (runs t')))
        \<and> (\<forall>k t'. Task (handle c now r s) k = Some t' \<longrightarrow> claimedInvariant t'))
   \<and> stateInvariant state0
   \<and> (\<forall>k t. stateInvariant s \<and> Task s k = Some t \<longrightarrow> claimedInvariant t)"
proof -
  have step: "stateInvariant (handle c now r s)
        \<and> (\<forall>k t. Task s k = Some t \<longrightarrow>
              (\<exists>t'. Task (handle c now r s) k = Some t' \<and> runsExtended (runs t) (runs t')))
        \<and> (\<forall>k t'. Task (handle c now r s) k = Some t' \<longrightarrow> claimedInvariant t')"
    if "stateInvariant s" "requestOk r" for s
    using stepOk_handle [OF that, of c now]
    by (auto simp: stepOk_def stateInvariant_def dest: taskInvariant_claimed)
  have claimed: "claimedInvariant t" if "stateInvariant s" "Task s k = Some t" for s k t
    using that by (auto simp: stateInvariant_def dest: taskInvariant_claimed)
  have reach: "stateInvariant (handleAll c rs state0)"
    if "list_all (\<lambda>x. requestOk (snd x)) rs"
    by (rule stateInvariant_handleAll [OF stateInvariant_state0 that])
  show ?thesis
    using step [of s] step [of "handleAll c rs state0"] claimed reach stateInvariant_state0
    by blast
qed

text \<open>The retry scenario as a history: the sample task is created with two retries,
  claimed, and reported with worker-shutdown; then it has two runs and one retry
  left. The next request is a second worker-shutdown report, for the new run.\<close>

theorem operations_preserve_invariants_witness:
  "list_all (\<lambda>x. requestOk (snd x))
      [(1000000, CreateTask ''T'' defA), (1000500, ClaimTask ''T'' 0 ''wg'' ''w1''),
       (1001000, ReportException ''T'' 0 WorkerShutdown)]
   \<and> requestOk (CancelTask ''T'')
   \<and> Task (handleAll ctx0 [(1000000, CreateTask ''T'' defA)] state0) ''T'' = Some taskCreated
   \<and> Task (handleAll ctx0 [(1000000, CreateTask ''T'' defA),
                            (1000500, ClaimTask ''T'' 0 ''wg'' ''w1'')] state0) ''T''
       = Some taskRunning
   \<and> map state (runs (the (Task (handleAll ctx0
         [(1000000, CreateTask ''T'' defA), (1000500, ClaimTask ''T'' 0 ''wg'' ''w1''),
          (1001000, ReportException ''T'' 0 WorkerShutdown)] state0) ''T''))) = [Exception, Pending]
   \<and> retriesLeft (the (Task (handleAll ctx0
         [(1000000, CreateTask ''T'' defA), (1000500, ClaimTask ''T'' 0 ''wg'' ''w1''),
          (1001000, ReportException ''T'' 0 WorkerShutdown)] state0) ''T'')) = 1
   \<and> claimedInvariant (the (Task (handleAll ctx0
         [(1000000, CreateTask ''T'' defA), (1000500, ClaimTask ''T'' 0 ''wg'' ''w1''),
          (1001000, ReportException ''T'' 0 WorkerShutdown)] state0) ''T''))
   \<and> claimedInvariant (the (Task (handle ctx0 1002000 (CancelTask ''T'') (handleAll ctx0
         [(1000000, CreateTask ''T'' defA), (1000500, ClaimTask ''T'' 0 ''wg'' ''w1''),
          (1001000, ReportException ''T'' 0 WorkerShutdown)] state0)) ''T''))
   \<and> runsExtended
        (runs (the (Task (handleAll ctx0
         [(1000000, CreateTask ''T'' defA), (1000500, ClaimTask ''T'' 0 ''wg'' ''w1''),
          (1001000, ReportException ''T'' 0 WorkerShutdown)] state0) ''T'')))
        (runs (the (Task (handle ctx0 1002000 (CancelTask ''T'') (handleAll ctx0
         [(1000000, CreateTask ''T'' defA), (1000500, ClaimTask ''T'' 0 ''wg'' ''w1''),
          (1001000, ReportException ''T'' 0 WorkerShutdown)] state0)) ''T'')))
   \<and> stateInvariant stateRunning
   \<and> Task stateRunning ''T'' = Some taskRunning
   \<and> claimedInvariant taskRunning
   \<and> requestOk (ReportException ''T'' 0 WorkerShutdown)
   \<and> stateInvariant (handle ctx0 1001000 (ReportException ''T'' 0 WorkerShutdown) stateRunning)"
proof -
  let ?rs = "[(1000000, CreateTask ''T'' defA), (1000500, ClaimTask ''T'' 0 ''wg'' ''w1''),
       (1001000, ReportException ''T'' 0 WorkerShutdown)]"
  have ok: "list_all (\<lambda>x. requestOk (snd x)) ?rs" "requestOk (CancelTask ''T'')"
    "requestOk (ReportException ''T'' 0 WorkerShutdown)"
    by (simp_all add: defA_def MAX_RUNS_ALLOWED_def)
  have t1: "Task (handleAll ctx0 [(1000000, CreateTask ''T'' defA)] state0) ''T'' = Some taskCreated"
    using stateCreated_tables(1) by (simp add: stateCreated_def taskCreated_def new_run_def)
  have t2: "Task (handleAll ctx0 [(1000000, CreateTask ''T'' defA),
                            (1000500, ClaimTask ''T'' 0 ''wg'' ''w1'')] state0) ''T''
       = Some taskRunning"
    by (simp add: samples createTask_eval claimTask_def workClaimer_claimTask_def)
  have t3: "\<exists>t. Task (handleAll ctx0 ?rs state0) ''T'' = Some t
              \<and> map state (runs t) = [Exception, Pending] \<and> retriesLeft t = 1"
    by (simp add: samples createTask_eval claimTask_def workClaimer_claimTask_def
        reportException_def reportException_modify_def)
  then obtain t where t: "Task (handleAll ctx0 ?rs state0) ''T'' = Some t"
    "map state (runs t) = [Exception, Pending]" "retriesLeft t = 1" by auto
  note a = operations_preserve_invariants [of ?rs "CancelTask ''T''" ctx0 1002000]
  from a ok t(1) obtain t' where t':
    "Task (handle ctx0 1002000 (CancelTask ''T'') (handleAll ctx0 ?rs state0)) ''T'' = Some t'"
    "runsExtended (runs t) (runs t')" "claimedInvariant t" by blast
  have c': "claimedInvariant t'" using a ok t'(1) by blast
  have i: "stateInvariant stateRunning"
    by (simp add: stateInvariant_def taskInvariant_def MAX_RUNS_ALLOWED_def samples)
  have b: "stateInvariant (handle ctx0 1001000 (ReportException ''T'' 0 WorkerShutdown) stateRunning)"
    using operations_preserve_invariants [of _ "ReportException ''T'' 0 WorkerShutdown"
        ctx0 1001000 stateRunning] i ok(3) by blast
  have T: "Task stateRunning ''T'' = Some taskRunning"
    by (simp add: stateRunning_def state0_def)
  have ci: "claimedInvariant taskRunning"
    using operations_preserve_invariants [where s = stateRunning] i T by blast
  show ?thesis
    using ok t1 t2 t t' c' i b T ci by simp
qed

text \<open>The three invariants alone are not kept by a single operation: from a task with
  50 runs, the last one running, and one retry left (a task that breaks the budget and
  that no history of admitted requests reaches) reportException with reason
  worker-shutdown appends run 51.\<close>

lemma reportException_beyond_budget:
  "Task (state0\<lparr>Task := [''T'' \<mapsto> task50]\<rparr>) ''T'' = Some task50
   \<and> claimedInvariant task50
   \<and> \<not> taskInvariant task50
   \<and> length (runs task50) = 50
   \<and> state (runs task50 ! 49) = Running
   \<and> retriesLeft task50 = 1
   \<and> length (runs (the (Task (handle ctx0 1001000 (ReportException ''T'' 49 WorkerShutdown)
                                  (state0\<lparr>Task := [''T'' \<mapsto> task50]\<rparr>)) ''T''))) = 51
   \<and> \<not> claimedInvariant (the (Task (handle ctx0 1001000 (ReportException ''T'' 49 WorkerShutdown)
                                  (state0\<lparr>Task := [''T'' \<mapsto> task50]\<rparr>)) ''T''))"
  by (simp add: claimedInvariant_def taskInvariant_def MAX_RUNS_ALLOWED_def task50_def taskFromDef_def runRunning_def
      runExpired_def state0_def defA_def reportException_def reportException_modify_def Let_def
      nth_append list_update_append new_run_def publish_def putMessage_def putPendingMessage_def)

subsection \<open>The scheduler of a task group under every operation\<close>

lemma inv_frame:
  assumes "groupSchedulerInvariant s" "TaskGroup s' = TaskGroup s"
    and "\<And>k t'. Task s' k = Some t' \<Longrightarrow>
           \<exists>t. Task s k = Some t \<and> taskGroupId t' = taskGroupId t \<and> schedulerId t' = schedulerId t"
  shows "groupSchedulerInvariant s'"
  unfolding groupSchedulerInvariant_def groupOk_def
proof (intro allI impI)
  fix k t' assume "Task s' k = Some t'"
  then obtain t where "Task s k = Some t" "taskGroupId t' = taskGroupId t"
    "schedulerId t' = schedulerId t" using assms(3) by blast
  then show "\<exists>tg. TaskGroup s' (taskGroupId t') = Some tg \<and> tg_schedulerId tg = schedulerId t'"
    using assms(1,2) by (auto simp: groupSchedulerInvariant_def groupOk_def)
qed

lemma inv_modify:
  assumes "groupSchedulerInvariant s" "TaskGroup s' = TaskGroup s"
    and "Task s' = (case Task s k of None \<Rightarrow> Task s
                    | Some t \<Rightarrow> if b t then Task s else (Task s)(k \<mapsto> f t))"
    and "\<And>t. taskGroupId (f t) = taskGroupId t \<and> schedulerId (f t) = schedulerId t"
  shows "groupSchedulerInvariant s'"
proof (rule inv_frame [OF assms(1,2)])
  fix k' t' assume "Task s' k' = Some t'"
  then show "\<exists>t. Task s k' = Some t \<and> taskGroupId t' = taskGroupId t \<and> schedulerId t' = schedulerId t"
    using assms(3,4) by (auto split: option.splits if_splits)
qed

lemma reportException_TaskGroup:
  "TaskGroup (snd (reportException now tid runId reason s)) = TaskGroup s"
  by (auto simp: reportException_def Let_def publish_def putMessage_def putPendingMessage_def
      split: option.splits)

lemma resolveTask_TaskGroup:
  "TaskGroup (snd (resolveTask now tid runId target s)) = TaskGroup s"
  by (auto simp: resolveTask_def Let_def publish_def putMessage_def split: option.splits)

lemma reclaimTask_TaskGroup:
  "TaskGroup (snd (reclaimTask c now tid runId s)) = TaskGroup s"
  by (auto simp: reclaimTask_def Let_def split: option.splits prod.splits)

lemma cancelTask_TaskGroup:
  "TaskGroup (snd (cancelTask now tid s)) = TaskGroup s"
  by (auto simp: cancelTask_def Let_def publish_def putMessage_def split: option.splits)

lemma rerunTask_TaskGroup:
  "TaskGroup (snd (rerunTask now tid s)) = TaskGroup s"
  by (auto simp: rerunTask_def Let_def publish_def putMessage_def putPendingMessage_def
      split: option.splits)

lemma inv_reportException:
  "groupSchedulerInvariant s \<Longrightarrow> groupSchedulerInvariant (snd (reportException now tid runId reason s))"
  by (rule inv_modify [OF _ reportException_TaskGroup reportException_Task])
     (auto simp: reportException_modify_def Let_def)

lemma inv_resolveTask:
  "groupSchedulerInvariant s \<Longrightarrow> groupSchedulerInvariant (snd (resolveTask now tid runId target s))"
  by (rule inv_modify [OF _ resolveTask_TaskGroup resolveTask_Task])
     (auto simp: resolveTask_modify_def Let_def)

lemma inv_reclaimTask:
  "groupSchedulerInvariant s \<Longrightarrow> groupSchedulerInvariant (snd (reclaimTask c now tid runId s))"
  by (rule inv_modify [OF _ reclaimTask_TaskGroup reclaimTask_Task])
     (auto simp: reclaimTask_modify_def Let_def)

lemma inv_cancelTask:
  "groupSchedulerInvariant s \<Longrightarrow> groupSchedulerInvariant (snd (cancelTask now tid s))"
  by (rule inv_modify [OF _ cancelTask_TaskGroup cancelTask_Task])
     (auto simp: cancelTask_modify_def Let_def)

lemma inv_rerunTask:
  "groupSchedulerInvariant s \<Longrightarrow> groupSchedulerInvariant (snd (rerunTask now tid s))"
  by (rule inv_modify [OF _ rerunTask_TaskGroup rerunTask_Task])
     (auto simp: rerunTask_modify_def Let_def)

lemma inv_scheduleTask_handler:
  assumes "groupSchedulerInvariant s"
  shows "groupSchedulerInvariant (snd (scheduleTask now tid s))"
proof (cases "Task s tid")
  case None
  then show ?thesis using assms by (simp add: scheduleTask_def)
next
  case (Some t)
  then have ok: "groupOk s t" using assms by (auto simp: groupSchedulerInvariant_def)
  have "snd (scheduleTask now tid s) = snd (snd (dependencyTracker_scheduleTask now t s))"
    using Some by (simp add: scheduleTask_def split: prod.splits option.splits)
  then show ?thesis using inv_scheduleTask [OF assms ok, of now] by simp
qed

lemma inv_claimTask:
  assumes "groupSchedulerInvariant s"
  shows "groupSchedulerInvariant (snd (claimTask c now tid runId wg wid s))"
proof (rule inv_frame [OF assms])
  show "TaskGroup (snd (claimTask c now tid runId wg wid s)) = TaskGroup s"
    by (auto simp: claimTask_def workClaimer_claimTask_def Let_def publish_def putMessage_def
        split: option.splits)
next
  fix k t' assume "Task (snd (claimTask c now tid runId wg wid s)) k = Some t'"
  then show "\<exists>t. Task s k = Some t \<and> taskGroupId t' = taskGroupId t \<and> schedulerId t' = schedulerId t"
    by (auto simp: claimTask_def workClaimer_claimTask_def Let_def publish_def putMessage_def
        split: option.splits if_splits)
qed

lemma inv_claimResolver:
  assumes "groupSchedulerInvariant s"
  shows "groupSchedulerInvariant (claimResolver_handle now tid runId tu s)"
proof (rule inv_frame [OF assms])
  show "TaskGroup (claimResolver_handle now tid runId tu s) = TaskGroup s"
    by (auto simp: claimResolver_handle_def Let_def publish_def putMessage_def putPendingMessage_def
        split: option.splits)
next
  fix k t' assume "Task (claimResolver_handle now tid runId tu s) k = Some t'"
  then show "\<exists>t. Task s k = Some t \<and> taskGroupId t' = taskGroupId t \<and> schedulerId t' = schedulerId t"
    by (auto simp: claimResolver_handle_def Let_def publish_def putMessage_def putPendingMessage_def
        split: option.splits if_splits)
qed

lemma inv_deadlineResolver:
  assumes "groupSchedulerInvariant s"
  shows "groupSchedulerInvariant (deadlineResolver_handle now tid dl s)"
proof (rule inv_frame [OF assms])
  show "TaskGroup (deadlineResolver_handle now tid dl s) = TaskGroup s"
    by (auto simp: deadlineResolver_handle_def Let_def publish_def putMessage_def
        split: option.splits)
next
  fix k t' assume "Task (deadlineResolver_handle now tid dl s) k = Some t'"
  then show "\<exists>t. Task s k = Some t \<and> taskGroupId t' = taskGroupId t \<and> schedulerId t' = schedulerId t"
    by (auto simp: deadlineResolver_handle_def Let_def publish_def putMessage_def
        split: option.splits if_splits)
qed

lemma defineTask_tracked_tables:
  assumes "patchAndValidateTaskDef c now tid d0 = Inr d1"
    and "ensureTaskGroup c tid (withSelfDependency tid d1) s = (True, reported, s1)"
    and "tryCreateTask c (taskFromDef tid (withSelfDependency tid d1) []) (withSelfDependency tid d1)
           (putDeadlineMessage tid (the (def_taskGroupId (withSelfDependency tid d1)))
              (def_schedulerId (withSelfDependency tid d1))
              (def_deadline (withSelfDependency tid d1)) s1) = Inr (t, s3)"
  shows "TaskGroup (snd (defineTask c now tid d0 s))
           = TaskGroup (snd (snd (trackIfUnscheduled now t s3)))"
proof -
  obtain e t' s4 where tr: "trackIfUnscheduled now t s3 = (e, t', s4)"
    by (metis prod_cases3)
  show ?thesis
  proof (cases e)
    case None
    then show ?thesis
      using assms tr by (simp add: defineTask_def Let_def publish_def)
  next
    case (Some e')
    then show ?thesis
      using assms tr by (simp add: defineTask_def Let_def)
  qed
qed

lemma defineTask_group_invariant:
  assumes inv: "groupSchedulerInvariant s"
  shows "groupSchedulerInvariant (snd (defineTask c now tid d0 s))"
proof (cases "patchAndValidateTaskDef c now tid d0")
  case (Inl e)
  then show ?thesis using inv by (simp add: defineTask_def)
next
  case valid: (Inr d1)
  let ?d = "withSelfDependency tid d1"
  obtain ok reported s1 where etg: "ensureTaskGroup c tid ?d s = (ok, reported, s1)"
    by (metis prod_cases3)
  have inv1: "groupSchedulerInvariant s1" by (rule inv_ensureTaskGroup [OF inv etg])
  show ?thesis
  proof (cases ok)
    case False
    then show ?thesis
      using defineTask_group_conflict [OF valid] etg inv1 by simp
  next
    case True
    note etg = etg [unfolded eqTrueI [OF True]]
    let ?s2 = "putDeadlineMessage tid (the (def_taskGroupId ?d)) (def_schedulerId ?d) (def_deadline ?d) s1"
    let ?new = "taskFromDef tid ?d []"
    have inv2: "groupSchedulerInvariant ?s2" using inv1 by simp
    have newOk: "groupOk ?s2 ?new"
      using ensureTaskGroup_groups(3) [OF etg]
      by (simp add: groupOk_def taskFromDef_def putDeadlineMessage_def putMessage_def)
    show ?thesis
    proof (cases "tryCreateTask c ?new ?d ?s2")
      case (Inl e)
      then show ?thesis
        using defineTask_store_error [OF valid etg Inl] inv2 by simp
    next
      case (Inr ts)
      obtain t s3 where ts: "ts = (t, s3)" by (cases ts)
      note created = Inr [unfolded ts]
      have inv3: "groupSchedulerInvariant s3" and tOk: "groupOk s3 t"
        using inv_tryCreateTask [OF inv2 created newOk] by simp_all
      obtain e t' s4 where tr: "trackIfUnscheduled now t s3 = (e, t', s4)"
        by (metis prod_cases3)
      have inv4: "groupSchedulerInvariant s4"
        by (rule inv_trackIfUnscheduled [OF inv3 tOk tr])
      show ?thesis
        using inv4 tr defineTask_tracked_Task [OF valid etg created]
          defineTask_tracked_tables [OF valid etg created]
        by (simp add: groupSchedulerInvariant_def groupOk_def)
    qed
  qed
qed

lemma inv_handle:
  assumes "groupSchedulerInvariant s"
  shows "groupSchedulerInvariant (handle c now r s)"
  using assms
  by (cases r)
     (simp_all add: createTask_group_invariant defineTask_group_invariant
        inv_scheduleTask_handler inv_rerunTask inv_cancelTask inv_claimTask inv_reclaimTask
        inv_resolveTask inv_reportException inv_claimResolver inv_deadlineResolver
        reportCompleted_def reportFailed_def)

lemma inv_handleAll:
  "groupSchedulerInvariant s \<Longrightarrow> groupSchedulerInvariant (handleAll c rs s)"
  by (induction rs arbitrary: s) (auto simp: inv_handle)

lemma same_group_same_scheduler:
  assumes "groupSchedulerInvariant s"
  shows "\<forall>k1 t1 k2 t2. Task s k1 = Some t1 \<and> Task s k2 = Some t2
               \<and> taskGroupId t1 = taskGroupId t2 \<longrightarrow> schedulerId t1 = schedulerId t2"
  using assms unfolding groupSchedulerInvariant_def groupOk_def by (metis option.inject)

lemma inv_state0: "groupSchedulerInvariant state0"
  by (simp add: groupSchedulerInvariant_def state0_def)

lemma createTask_mismatch:
  assumes "TaskGroup s g = Some tg" "tg_schedulerId tg \<noteq> def_schedulerId d0"
    and "g = (case def_taskGroupId d0 of None \<Rightarrow> tid | Some g' \<Rightarrow> if g' = [] then tid else g')"
  shows "createTask c now tid d0 s =
          (if patchAndValidateTaskDef c now tid d0 = Inl InputError
              \<or> list_ex (\<lambda>sc. endsWith sc ''**'') (def_scopes d0)
           then Inl InputError else Inl RequestConflict, s)"
proof (cases "patchAndValidateTaskDef c now tid d0")
  case (Inl e)
  then show ?thesis
    using patchAndValidateTaskDef_error [OF Inl] by (simp add: createTask_def)
next
  case valid: (Inr d)
  note p = patchAndValidateTaskDef_patched [OF valid]
  show ?thesis
  proof (cases "list_ex (\<lambda>sc. endsWith sc ''**'') (def_scopes d0)")
    case True
    then show ?thesis using valid p(5) by (simp add: createTask_def)
  next
    case False
    have "def_taskGroupId d = Some g" using assms(3) p(1) by auto
    moreover have "tg_schedulerId tg \<noteq> def_schedulerId d" using assms(2) p(4) by simp
    ultimately have "ensureTaskGroup c tid d s = (False, True, s)"
      using assms(1) ensureTaskGroup_mismatch by blast
    then show ?thesis
      using createTask_group_conflict [OF valid] False p(5) valid by simp
  qed
qed

lemma defineTask_mismatch:
  assumes "TaskGroup s g = Some tg" "tg_schedulerId tg \<noteq> def_schedulerId d0"
    and "g = (case def_taskGroupId d0 of None \<Rightarrow> tid | Some g' \<Rightarrow> if g' = [] then tid else g')"
  shows "defineTask c now tid d0 s =
          (if patchAndValidateTaskDef c now tid d0 = Inl InputError
           then Inl InputError else Inl RequestConflict, s)"
proof (cases "patchAndValidateTaskDef c now tid d0")
  case (Inl e)
  then show ?thesis
    using patchAndValidateTaskDef_error [OF Inl] by (simp add: defineTask_def)
next
  case valid: (Inr d)
  note p = patchAndValidateTaskDef_patched [OF valid]
  have "def_taskGroupId (withSelfDependency tid d) = Some g"
    using assms(3) p(1) by (auto simp: withSelfDependency_def)
  moreover have "tg_schedulerId tg \<noteq> def_schedulerId (withSelfDependency tid d)"
    using assms(2) p(4) by (simp add: withSelfDependency_def)
  ultimately have "ensureTaskGroup c tid (withSelfDependency tid d) s = (False, True, s)"
    using assms(1) ensureTaskGroup_mismatch by blast
  then show ?thesis
    using defineTask_group_conflict [OF valid] valid by simp
qed

text \<open>
  C8, as the code has it. Let the TaskGroup row of group \<open>g\<close> exist with a schedulerId other than
  the one of the definition, \<open>g\<close> being the definition's taskGroupId (the taskId when
  it is omitted). Then createTask writes nothing at all, so the TaskGroup row keeps its
  schedulerId and its expires and no task is created. The answer is RequestConflict
  for a definition that passes the timestamp validation and has no scope ending in two
  stars; a definition that does not is rejected with InputError before the group is
  looked at. defineTask does the same (it has no scope check). Every operation keeps
  the invariant that the group row of every task carries the task's schedulerId, under
  which all tasks sharing a taskGroupId have the same schedulerId; so this holds after
  every history of requests that starts from the empty service.
\<close>

theorem createTask_scheduler_conflict:
  "(TaskGroup s g = Some tg \<and> tg_schedulerId tg \<noteq> def_schedulerId d0
      \<and> g = (case def_taskGroupId d0 of None \<Rightarrow> tid | Some g' \<Rightarrow> if g' = [] then tid else g')
     \<longrightarrow> createTask c now tid d0 s =
          (if patchAndValidateTaskDef c now tid d0 = Inl InputError
              \<or> list_ex (\<lambda>sc. endsWith sc ''**'') (def_scopes d0)
           then Inl InputError else Inl RequestConflict, s)
        \<and> defineTask c now tid d0 s =
          (if patchAndValidateTaskDef c now tid d0 = Inl InputError
           then Inl InputError else Inl RequestConflict, s))
   \<and> (groupSchedulerInvariant s
     \<longrightarrow> groupSchedulerInvariant (handle c now r s)
        \<and> (\<forall>k1 t1 k2 t2. Task s k1 = Some t1 \<and> Task s k2 = Some t2
               \<and> taskGroupId t1 = taskGroupId t2 \<longrightarrow> schedulerId t1 = schedulerId t2))
   \<and> groupSchedulerInvariant (handleAll c rs state0)
   \<and> (\<forall>k1 t1 k2 t2. Task (handleAll c rs state0) k1 = Some t1
          \<and> Task (handleAll c rs state0) k2 = Some t2
          \<and> taskGroupId t1 = taskGroupId t2 \<longrightarrow> schedulerId t1 = schedulerId t2)"
proof -
  have reach: "groupSchedulerInvariant (handleAll c rs state0)"
    by (rule inv_handleAll [OF inv_state0])
  show ?thesis
    using createTask_mismatch [of s g tg d0 tid c now] defineTask_mismatch [of s g tg d0 tid c now]
      inv_handle [of s c now r] same_group_same_scheduler [of s]
      reach same_group_same_scheduler [OF reach]
    by blast
qed

text \<open>The scenario: after createTask of \<open>T\<close> for scheduler \<open>S1\<close> in group \<open>G\<close>,
  createTask and defineTask of \<open>T2\<close> for \<open>S2\<close> in \<open>G\<close> are a RequestConflict and
  leave the service as it was; with a deadline before the created time the answer is
  InputError.\<close>

theorem createTask_scheduler_conflict_witness:
  "TaskGroup stateCreated ''G'' = Some \<lparr>tg_schedulerId = ''S1'', tg_expires = 31627000000\<rparr>
   \<and> def_schedulerId defB = ''S2''
   \<and> def_taskGroupId defB = Some ''G''
   \<and> createTask ctx0 1000100 ''T2'' defB stateCreated = (Inl RequestConflict, stateCreated)
   \<and> defineTask ctx0 1000100 ''T2'' defB stateCreated = (Inl RequestConflict, stateCreated)
   \<and> def_schedulerId defBPast = ''S2''
   \<and> def_taskGroupId defBPast = Some ''G''
   \<and> createTask ctx0 1000100 ''T2'' defBPast stateCreated = (Inl InputError, stateCreated)
   \<and> groupSchedulerInvariant state0
   \<and> stateCreated = handle ctx0 1000000 (CreateTask ''T'' defA) state0
   \<and> groupSchedulerInvariant stateCreated
   \<and> groupSchedulerInvariant (handle ctx0 1000300 (DefineTask ''T3'' defA) stateCreated)
   \<and> groupSchedulerInvariant
        (handleAll ctx0 [(1000000, CreateTask ''T'' defA), (1000100, DefineTask ''T2'' defB),
                         (1000200, CancelTask ''T'')] state0)"
proof -
  have valid: "patchAndValidateTaskDef ctx0 1000100 ''T2'' defB \<noteq> Inl InputError"
    by (simp add: patchAndValidateTaskDef_def defB_def defA_def ctx0_def Let_def)
  have invalid: "patchAndValidateTaskDef ctx0 1000100 ''T2'' defBPast = Inl InputError"
    by (simp add: patchAndValidateTaskDef_def defBPast_def defB_def defA_def ctx0_def Let_def)
  have nostar: "\<not> list_ex (\<lambda>sc. endsWith sc ''**'') (def_scopes defB)"
    by (simp add: defB_def defA_def)
  have b: "def_schedulerId defB = ''S2''" "def_taskGroupId defB = Some ''G''"
    "def_schedulerId defBPast = ''S2''" "def_taskGroupId defBPast = Some ''G''"
    by (simp_all add: defBPast_def defB_def defA_def)
  have g: "TaskGroup stateCreated ''G'' = Some \<lparr>tg_schedulerId = ''S1'', tg_expires = 31627000000\<rparr>"
    by (simp add: stateCreated_tables)
  have sc: "stateCreated = handle ctx0 1000000 (CreateTask ''T'' defA) state0"
    by (simp add: stateCreated_def)
  have c: "createTask ctx0 1000100 ''T2'' defB stateCreated = (Inl RequestConflict, stateCreated)
     \<and> defineTask ctx0 1000100 ''T2'' defB stateCreated = (Inl RequestConflict, stateCreated)"
    using createTask_scheduler_conflict [of stateCreated "''G''"
        "\<lparr>tg_schedulerId = ''S1'', tg_expires = 31627000000\<rparr>" defB "''T2''" ctx0 1000100]
      g b valid nostar
    by simp
  have d: "createTask ctx0 1000100 ''T2'' defBPast stateCreated = (Inl InputError, stateCreated)"
    using createTask_scheduler_conflict [of stateCreated "''G''"
        "\<lparr>tg_schedulerId = ''S1'', tg_expires = 31627000000\<rparr>" defBPast "''T2''" ctx0 1000100]
      g b invalid
    by simp
  have i0: "groupSchedulerInvariant state0"
    using createTask_scheduler_conflict [where c = ctx0 and rs = "[]"] by simp
  have i1: "groupSchedulerInvariant stateCreated"
    using createTask_scheduler_conflict [where c = ctx0
        and rs = "[(1000000, CreateTask ''T'' defA)]"]
    by (simp add: stateCreated_def)
  have i2: "groupSchedulerInvariant
        (handleAll ctx0 [(1000000, CreateTask ''T'' defA), (1000100, DefineTask ''T2'' defB),
                         (1000200, CancelTask ''T'')] state0)"
    using createTask_scheduler_conflict [where c = ctx0
        and rs = "[(1000000, CreateTask ''T'' defA), (1000100, DefineTask ''T2'' defB),
                   (1000200, CancelTask ''T'')]"]
    by blast
  have i3: "groupSchedulerInvariant (handle ctx0 1000300 (DefineTask ''T3'' defA) stateCreated)"
    using createTask_scheduler_conflict [where s = stateCreated and c = ctx0
        and now = 1000300 and r = "DefineTask ''T3'' defA"] i1
    by blast
  show ?thesis using g b c d i0 sc i1 i2 i3 by blast
qed

text \<open>C8 as stated fails: a createTask into group \<open>G\<close> of scheduler \<open>S1\<close> with
  scheduler \<open>S2\<close> returns InputError, not RequestConflict, when the deadline of the
  definition precedes its created time, or when a scope ends in two stars.\<close>

theorem createTask_scheduler_InputError_counterexample:
  "stateCreated = handle ctx0 1000000 (CreateTask ''T'' defA) state0
   \<and> TaskGroup stateCreated ''G'' = Some \<lparr>tg_schedulerId = ''S1'', tg_expires = 31627000000\<rparr>
   \<and> def_schedulerId defBPast = ''S2''
   \<and> def_taskGroupId defBPast = Some ''G''
   \<and> createTask ctx0 1000100 ''T2'' defBPast stateCreated = (Inl InputError, stateCreated)
   \<and> def_schedulerId defBStar = ''S2''
   \<and> def_taskGroupId defBStar = Some ''G''
   \<and> createTask ctx0 1000100 ''T2'' defBStar stateCreated = (Inl InputError, stateCreated)"
proof -
  have a: "stateCreated = handle ctx0 1000000 (CreateTask ''T'' defA) state0"
    by (simp add: stateCreated_def)
  have g: "TaskGroup stateCreated ''G'' = Some \<lparr>tg_schedulerId = ''S1'', tg_expires = 31627000000\<rparr>"
    by (simp add: stateCreated_tables)
  have b: "def_schedulerId defBPast = ''S2''" "def_taskGroupId defBPast = Some ''G''"
    "def_schedulerId defBStar = ''S2''" "def_taskGroupId defBStar = Some ''G''"
    by (simp_all add: defBPast_def defBStar_def defB_def defA_def)
  have c: "createTask ctx0 1000100 ''T2'' defBPast stateCreated = (Inl InputError, stateCreated)"
    "createTask ctx0 1000100 ''T2'' defBStar stateCreated = (Inl InputError, stateCreated)"
    by (simp_all add: defBPast_def defBStar_def defB_def defA_def ctx0_def createTask_def
        patchAndValidateTaskDef_def endsWith_def Let_def)
  show ?thesis using a g b c by blast
qed

subsection \<open>createTask called again\<close>

lemma dependencyResolved_cong:
  "Task s' = Task s \<Longrightarrow> dependencyResolved s' req dep = dependencyResolved s req dep"
  by (simp add: dependencyResolved_def)

lemma dependencyResolved_edges:
  "dependencyResolved (s\<lparr>TaskDependency := x\<rparr>) req = dependencyResolved s req"
  by (rule ext) (simp add: dependencyResolved_def)

text \<open>createTask after the store: what it replies and what it emits.\<close>

lemma createTask_tracked_emits:
  assumes "patchAndValidateTaskDef c now tid d0 = Inr d"
    and "\<not> list_ex (\<lambda>sc. endsWith sc ''**'') (def_scopes d)"
    and "ensureTaskGroup c tid d s = (True, reported, s1)"
    and "tryCreateTask c (taskFromDef tid d (initialRuns now d)) d
           (putDeadlineMessage tid (the (def_taskGroupId d)) (def_schedulerId d)
              (def_deadline d) s1) = Inr (t, s3)"
    and "trackIfUnscheduled now t s3 = (None, t', s4)"
  shows "createTask c now tid d0 s =
     (respond reported (Inr (StatusReply (status t'))),
      s4\<lparr>queue := queue s4 @ createdMessages t',
         published := published s4 @ createdEvents t'\<rparr>)"
  unfolding createTask_tracked [OF assms]
  by (cases "runZeroState t'")
     (auto simp: createdMessages_def createdEvents_def publish_def putMessage_def
        putPendingMessage_def)

text \<open>What tracking the dependencies does, in closed form.\<close>

lemma trackIfUnscheduled_cases:
  "trackIfUnscheduled now t s =
     (if task_state t \<noteq> Unscheduled then (None, t, s)
      else if list_ex (\<lambda>dep. Task s dep = None) (dependencies t) then (Some InputError, t, s)
      else if list_all (dependencyResolved s (requires t)) (dependencies t) \<and> \<not> deadline t < now
      then (None, t\<lparr>runs := runs t @ [new_run Pending Scheduled now]\<rparr>,
            s\<lparr>TaskDependency := TaskDependency s @ edgesOf t,
              Task := (Task s)(taskId t \<mapsto> t\<lparr>runs := runs t @ [new_run Pending Scheduled now]\<rparr>),
              queue := queue s @ [PendingMessage (provisionerId t) (workerType t) (priority t) (taskId t) 0],
              published := published s
                 @ [TaskPending (status (t\<lparr>runs := runs t @ [new_run Pending Scheduled now]\<rparr>)) 0]\<rparr>)
      else (None, t, s\<lparr>TaskDependency := TaskDependency s @ edgesOf t\<rparr>))"
  by (auto simp: trackIfUnscheduled_def dependencyTracker_trackDependencies_def
      dependencyTracker_scheduleTask_def Let_def edgesOf_def publish_def putMessage_def
      putPendingMessage_def dependencyResolved_edges)


lemma ensureTaskGroup_frame:
  assumes "ensureTaskGroup c tid p s = (ok, reported, sA)"
  shows "Task sA = Task s" "queue sA = queue s" "published sA = published s"
    "TaskDependency sA = TaskDependency s" "Artifact sA = Artifact s" "Worker sA = Worker s"
  using assms
  by (auto simp: ensureTaskGroup_def Let_def split: option.splits if_splits prod.splits)

lemma ensureTaskGroup_facts:
  assumes "ensureTaskGroup c tid p s = (True, False, sA)"
  shows "\<exists>tg. TaskGroup sA (the (def_taskGroupId p)) = Some tg
            \<and> tg_schedulerId tg = def_schedulerId p
            \<and> (tg_expires tg < the (def_expires p) \<longrightarrow>
                 tg_expires tg = the (def_expires p) + taskGroupExpiresExtension c * 1000)"
    and "TaskGroupMember sA (the (def_taskGroupId p), tid) \<noteq> None"
    and "TaskGroupActiveSet sA (the (def_taskGroupId p), tid) = Some (the (def_expires p))"
  using assms
  by (auto simp: ensureTaskGroup_def Let_def split: option.splits if_splits prod.splits)

lemma ensureTaskGroup_again:
  assumes "ensureTaskGroup c tid p s = (True, False, sA)"
    and "TaskGroup s' = TaskGroup sA"
    and "TaskGroupMember s' = TaskGroupMember sA"
    and "TaskGroupActiveSet s' = TaskGroupActiveSet sA"
  shows "ensureTaskGroup c tid p s' = (True, False, s')"
proof -
  obtain tg where tg: "TaskGroup s' (the (def_taskGroupId p)) = Some tg"
      "tg_schedulerId tg = def_schedulerId p"
      "tg_expires tg < the (def_expires p) \<longrightarrow>
         tg_expires tg = the (def_expires p) + taskGroupExpiresExtension c * 1000"
    using ensureTaskGroup_facts(1) [OF assms(1)] assms(2) by auto
  obtain m where m: "TaskGroupMember s' (the (def_taskGroupId p), tid) = Some m"
    using ensureTaskGroup_facts(2) [OF assms(1)] assms(3) by auto
  have a: "TaskGroupActiveSet s' (the (def_taskGroupId p), tid) = Some (the (def_expires p))"
    using ensureTaskGroup_facts(3) [OF assms(1)] assms(4) by simp
  have same: "(if tg_expires tg < the (def_expires p)
               then tg\<lparr>tg_expires := the (def_expires p) + taskGroupExpiresExtension c * 1000\<rparr>
               else tg) = tg"
    using tg(3) by auto
  have upd: "s'\<lparr>TaskGroup := (TaskGroup s')(the (def_taskGroupId p) \<mapsto> tg)\<rparr> = s'"
    using tg(1) by (simp add: map_upd_triv)
  show ?thesis
    using tg(1,2) m a by (simp add: ensureTaskGroup_def Let_def same upd)
qed

lemma tryCreateTask_cases:
  assumes "tryCreateTask c new d s = Inr (t, s3)"
  shows "\<not> propertyTooLarge c new"
    and "Task s (taskId new) = None \<longrightarrow> t = new \<and> s3 = s\<lparr>Task := (Task s)(taskId new \<mapsto> new)\<rparr>"
    and "Task s (taskId new) \<noteq> None \<longrightarrow> Task s (taskId new) = Some t \<and> s3 = s \<and> definition_of t = d"
  using assms
  by (auto simp: tryCreateTask_def split: if_splits option.splits)

lemma tryCreateTask_existing:
  assumes "Task s (taskId new) = Some t" "\<not> propertyTooLarge c new"
  shows "tryCreateTask c new d s = (if d \<noteq> definition_of t then Inl RequestConflict else Inr (t, s))"
  using assms by (simp add: tryCreateTask_def)

lemma definition_of_taskFromDef:
  assumes "def_taskGroupId p \<noteq> None" "def_expires p \<noteq> None"
  shows "definition_of (taskFromDef tid p rs) = p"
  using assms by (auto simp: definition_of_def taskFromDef_def)

lemma definition_of_runs [simp]:
  "definition_of (t\<lparr>runs := rs\<rparr>) = definition_of t"
  by (simp add: definition_of_def)

lemma patchAndValidateTaskDef_now:
  assumes "patchAndValidateTaskDef c now tid d = Inr p" "patchAndValidateTaskDef c now2 tid d = Inr p2"
  shows "p2 = p"
  using assms
  by (auto simp: patchAndValidateTaskDef_def Let_def split: option.splits if_splits)


lemma task_state_appended [simp]:
  "task_state (t\<lparr>runs := runs t @ [x]\<rparr>) \<noteq> Unscheduled"
  by (simp add: task_state_def lastRunState_def split: list.splits)

lemma trackIfUnscheduled_again:
  assumes "task_state t' \<noteq> Unscheduled
           \<or> (\<not> list_ex (\<lambda>dep. Task s' dep = None) (dependencies t')
               \<and> \<not> list_all (dependencyResolved s' (requires t')) (dependencies t'))"
  shows "trackIfUnscheduled now2 t' s' =
           (None, t', s'\<lparr>TaskDependency := TaskDependency s'
                @ (if task_state t' = Unscheduled then edgesOf t' else [])\<rparr>)"
  using assms by (auto simp: trackIfUnscheduled_cases)

lemma trackIfUnscheduled_stable:
  assumes tr: "trackIfUnscheduled now t s3 = (None, t', s4)"
    and dl: "\<not> deadline t < now"
    and stored: "Task s3 (taskId t) = Some t"
  shows "Task s4 (taskId t) = Some t'
      \<and> taskId t' = taskId t
      \<and> definition_of t' = definition_of t
      \<and> TaskGroup s4 = TaskGroup s3 \<and> TaskGroupMember s4 = TaskGroupMember s3
      \<and> TaskGroupActiveSet s4 = TaskGroupActiveSet s3
      \<and> (\<exists>M E. queue s4 = queue s3 @ M \<and> published s4 = published s3 @ E)
      \<and> (task_state t' \<noteq> Unscheduled
           \<or> (\<not> list_ex (\<lambda>dep. Task s4 dep = None) (dependencies t')
               \<and> \<not> list_all (dependencyResolved s4 (requires t')) (dependencies t')))"
proof (cases "task_state t \<noteq> Unscheduled")
  case True
  then have "t' = t" "s4 = s3" using tr by (simp_all add: trackIfUnscheduled_cases)
  then show ?thesis using True stored by simp
next
  case unsched: False
  then have nomiss: "\<not> list_ex (\<lambda>dep. Task s3 dep = None) (dependencies t)"
    using tr by (auto simp: trackIfUnscheduled_cases split: if_splits)
  show ?thesis
  proof (cases "list_all (dependencyResolved s3 (requires t)) (dependencies t)")
    case True
    define t1 where "t1 = t\<lparr>runs := runs t @ [new_run Pending Scheduled now]\<rparr>"
    have "(None, t', s4) =
       (None, t1,
            s3\<lparr>TaskDependency := TaskDependency s3 @ edgesOf t,
              Task := (Task s3)(taskId t \<mapsto> t1),
              queue := queue s3 @ [PendingMessage (provisionerId t) (workerType t) (priority t) (taskId t) 0],
              published := published s3 @ [TaskPending (status t1) 0]\<rparr>)"
      using tr unsched nomiss True dl unfolding t1_def trackIfUnscheduled_cases by auto
    then have t': "t' = t1" and s4: "s4 = s3\<lparr>TaskDependency := TaskDependency s3 @ edgesOf t,
              Task := (Task s3)(taskId t \<mapsto> t1),
              queue := queue s3 @ [PendingMessage (provisionerId t) (workerType t) (priority t) (taskId t) 0],
              published := published s3 @ [TaskPending (status t1) 0]\<rparr>"
      by auto
    have "task_state t1 \<noteq> Unscheduled" unfolding t1_def by simp
    moreover have "taskId t1 = taskId t" "definition_of t1 = definition_of t"
      unfolding t1_def by simp_all
    ultimately show ?thesis unfolding t' s4 by simp
  next
    case False
    then have "(None, t', s4) = (None, t, s3\<lparr>TaskDependency := TaskDependency s3 @ edgesOf t\<rparr>)"
      using tr unsched nomiss unfolding trackIfUnscheduled_cases by auto
    then have t': "t' = t" and s4: "s4 = s3\<lparr>TaskDependency := TaskDependency s3 @ edgesOf t\<rparr>"
      by auto
    show ?thesis
      unfolding t' s4 using stored nomiss False by (simp add: dependencyResolved_edges)
  qed
qed

lemma absent_cong:
  "Task s' = Task s \<Longrightarrow>
     list_ex (\<lambda>dep. Task s' dep = None) deps = list_ex (\<lambda>dep. Task s dep = None) deps"
  by simp

lemma resolved_cong:
  "Task s' = Task s \<Longrightarrow>
     list_all (dependencyResolved s' req) deps = list_all (dependencyResolved s req) deps"
  by (simp add: list_all_iff dependencyResolved_def)

lemma createTask_success:
  assumes first: "createTask c now tid d s = (Inr r, s1)"
  obtains p sA t s3 t' s4 where
    "patchAndValidateTaskDef c now tid d = Inr p"
    "\<not> list_ex (\<lambda>sc. endsWith sc ''**'') (def_scopes p)"
    "ensureTaskGroup c tid p s = (True, False, sA)"
    "tryCreateTask c (taskFromDef tid p (initialRuns now p)) p
       (putDeadlineMessage tid (the (def_taskGroupId p)) (def_schedulerId p)
          (def_deadline p) sA) = Inr (t, s3)"
    "trackIfUnscheduled now t s3 = (None, t', s4)"
    "r = StatusReply (status t')"
    "s1 = s4\<lparr>queue := queue s4 @ createdMessages t',
             published := published s4 @ createdEvents t'\<rparr>"
proof (cases "patchAndValidateTaskDef c now tid d")
  case (Inl e)
  then show ?thesis using first by (simp add: createTask_def)
next
  case valid: (Inr p)
  show ?thesis
  proof (cases "list_ex (\<lambda>sc. endsWith sc ''**'') (def_scopes p)")
    case True
    then show ?thesis using first valid by (simp add: createTask_def)
  next
    case nostar: False
    obtain ok reported sA where etg: "ensureTaskGroup c tid p s = (ok, reported, sA)"
      by (metis prod_cases3)
    have ok: ok
      using first createTask_group_conflict [OF valid nostar, of s reported sA] etg
      by (cases ok) auto
    note etg = etg [unfolded eqTrueI [OF ok]]
    show ?thesis
    proof (cases "tryCreateTask c (taskFromDef tid p (initialRuns now p)) p
       (putDeadlineMessage tid (the (def_taskGroupId p)) (def_schedulerId p)
          (def_deadline p) sA)")
      case (Inl e)
      then show ?thesis
        using first createTask_store_error [OF valid nostar etg Inl]
        by (auto simp: respond_def split: if_splits)
    next
      case (Inr ts)
      obtain t s3 where ts: "ts = (t, s3)" by (cases ts)
      note created = Inr [unfolded ts]
      obtain e t' s4 where tr: "trackIfUnscheduled now t s3 = (e, t', s4)"
        by (metis prod_cases3)
      show ?thesis
      proof (cases e)
        case (Some e')
        then show ?thesis
          using first createTask_track_error [OF valid nostar etg created tr [unfolded Some]]
          by (auto simp: respond_def split: if_splits)
      next
        case None
        note tr = tr [unfolded None]
        note res = createTask_tracked_emits [OF valid nostar etg created tr]
        have rep: "reported = False" and r: "r = StatusReply (status t')"
          using first res by (auto simp: respond_def split: if_splits)
        show ?thesis
          using that [OF valid nostar etg [unfolded rep] created tr r] first res by simp
      qed
    qed
  qed
qed


lemma patchAndValidateTaskDef_deadline:
  "patchAndValidateTaskDef c now tid d = Inr p \<Longrightarrow> \<not> def_deadline p < now"
  by (auto simp: patchAndValidateTaskDef_def Let_def split: option.splits if_splits)

lemma definition_of_deadline: "definition_of t = p \<Longrightarrow> deadline t = def_deadline p"
  by (auto simp: definition_of_def)

lemma trackIfUnscheduled_edges:
  assumes "trackIfUnscheduled now t s3 = (None, t', s4)"
  shows "task_state t' \<noteq> Unscheduled \<or> set (edgesOf t') \<subseteq> set (TaskDependency s4)"
  using assms by (auto simp: trackIfUnscheduled_cases split: if_splits)

text \<open>The state a successful createTask leaves.\<close>

lemma createTask_success_state:
  assumes wf: "\<And>t. Task s tid = Some t \<Longrightarrow> taskId t = tid"
    and first: "createTask c now tid d s = (Inr r, s1)"
  obtains p sA t' M E where
    "patchAndValidateTaskDef c now tid d = Inr p"
    "\<not> list_ex (\<lambda>sc. endsWith sc ''**'') (def_scopes p)"
    "ensureTaskGroup c tid p s = (True, False, sA)"
    "r = StatusReply (status t')"
    "Task s1 tid = Some t'" "taskId t' = tid" "definition_of t' = p"
    "TaskGroup s1 = TaskGroup sA" "TaskGroupMember s1 = TaskGroupMember sA"
    "TaskGroupActiveSet s1 = TaskGroupActiveSet sA"
    "queue s1 = queue s @ DeadlineMessage tid (the (def_taskGroupId p)) (def_schedulerId p)
                             (def_deadline p) # M @ createdMessages t'"
    "published s1 = published s @ E @ createdEvents t'"
    "task_state t' \<noteq> Unscheduled
       \<or> (\<not> list_ex (\<lambda>dep. Task s1 dep = None) (dependencies t')
           \<and> \<not> list_all (dependencyResolved s1 (requires t')) (dependencies t'))"
    "task_state t' \<noteq> Unscheduled \<or> set (edgesOf t') \<subseteq> set (TaskDependency s1)"
proof -
  from first obtain p sA t s3 t' s4 where
    valid: "patchAndValidateTaskDef c now tid d = Inr p"
    and nostar: "\<not> list_ex (\<lambda>sc. endsWith sc ''**'') (def_scopes p)"
    and etg: "ensureTaskGroup c tid p s = (True, False, sA)"
    and created: "tryCreateTask c (taskFromDef tid p (initialRuns now p)) p
       (putDeadlineMessage tid (the (def_taskGroupId p)) (def_schedulerId p)
          (def_deadline p) sA) = Inr (t, s3)"
    and tr: "trackIfUnscheduled now t s3 = (None, t', s4)"
    and r: "r = StatusReply (status t')"
    and s1: "s1 = s4\<lparr>queue := queue s4 @ createdMessages t',
             published := published s4 @ createdEvents t'\<rparr>"
    by (rule createTask_success)
  let ?s2 = "putDeadlineMessage tid (the (def_taskGroupId p)) (def_schedulerId p) (def_deadline p) sA"
  let ?new = "taskFromDef tid p (initialRuns now p)"
  note p = patchAndValidateTaskDef_patched [OF valid]
  note fr = ensureTaskGroup_frame [OF etg]
  have newId: "taskId ?new = tid" by (simp add: taskFromDef_def)
  have T2: "Task ?s2 tid = Task s tid"
    using fr(1) by (simp add: putDeadlineMessage_def putMessage_def)
  note tc = tryCreateTask_cases [OF created, unfolded newId]
  have t: "Task s3 tid = Some t \<and> taskId t = tid \<and> definition_of t = p
        \<and> TaskGroup s3 = TaskGroup sA \<and> TaskGroupMember s3 = TaskGroupMember sA
        \<and> TaskGroupActiveSet s3 = TaskGroupActiveSet sA
        \<and> queue s3 = queue s @ [DeadlineMessage tid (the (def_taskGroupId p)) (def_schedulerId p)
                                    (def_deadline p)]
        \<and> published s3 = published s"
  proof (cases "Task s tid")
    case None
    then have "t = ?new" "s3 = ?s2\<lparr>Task := (Task ?s2)(tid \<mapsto> ?new)\<rparr>"
      using tc(2) T2 by simp_all
    then show ?thesis
      using newId fr(2,3) p(1,2)
      by (simp add: definition_of_taskFromDef putDeadlineMessage_def putMessage_def)
  next
    case (Some t0)
    then have "Task ?s2 tid = Some t" "s3 = ?s2" "definition_of t = p"
      using tc(3) T2 by simp_all
    then show ?thesis
      using wf [of t] Some T2 fr(2,3) by (simp add: putDeadlineMessage_def putMessage_def)
  qed
  have dl: "\<not> deadline t < now"
    using patchAndValidateTaskDef_deadline [OF valid] definition_of_deadline [of t p] t by simp
  have stored: "Task s3 (taskId t) = Some t" using t by simp
  note st = trackIfUnscheduled_stable [OF tr dl stored]
  obtain M E where ME: "queue s4 = queue s3 @ M" "published s4 = published s3 @ E"
    using st by blast
  have T1: "Task s1 = Task s4" by (simp add: s1)
  have stable: "task_state t' \<noteq> Unscheduled
       \<or> (\<not> list_ex (\<lambda>dep. Task s1 dep = None) (dependencies t')
           \<and> \<not> list_all (dependencyResolved s1 (requires t')) (dependencies t'))"
    using st absent_cong [OF T1] resolved_cong [OF T1] by simp
  show ?thesis
  proof (rule that [OF valid nostar etg r, of M E])
    show "Task s1 tid = Some t'" using st t by (simp add: s1)
    show "taskId t' = tid" using st t by simp
    show "definition_of t' = p" using st t by simp
    show "TaskGroup s1 = TaskGroup sA" using st t by (simp add: s1)
    show "TaskGroupMember s1 = TaskGroupMember sA" using st t by (simp add: s1)
    show "TaskGroupActiveSet s1 = TaskGroupActiveSet sA" using st t by (simp add: s1)
    show "queue s1 = queue s @ DeadlineMessage tid (the (def_taskGroupId p)) (def_schedulerId p)
                             (def_deadline p) # M @ createdMessages t'"
      using ME t by (simp add: s1)
    show "published s1 = published s @ E @ createdEvents t'"
      using ME t by (simp add: s1)
    show "task_state t' \<noteq> Unscheduled
       \<or> (\<not> list_ex (\<lambda>dep. Task s1 dep = None) (dependencies t')
           \<and> \<not> list_all (dependencyResolved s1 (requires t')) (dependencies t'))"
      by (rule stable)
    show "task_state t' \<noteq> Unscheduled \<or> set (edgesOf t') \<subseteq> set (TaskDependency s1)"
      using trackIfUnscheduled_edges [OF tr] by (simp add: s1)
  qed
qed


lemma definition_of_fields:
  "definition_of t = p \<Longrightarrow>
     taskGroupId t = the (def_taskGroupId p) \<and> schedulerId t = def_schedulerId p
       \<and> deadline t = def_deadline p"
  by (auto simp: definition_of_def)

lemma patchAndValidateTaskDef_valid:
  "patchAndValidateTaskDef c now tid d \<noteq> Inl InputError \<Longrightarrow>
     \<exists>p. patchAndValidateTaskDef c now tid d = Inr p"
  using patchAndValidateTaskDef_error [of c now tid d]
  by (cases "patchAndValidateTaskDef c now tid d") auto

lemma patchAndValidateTaskDef_later:
  assumes "patchAndValidateTaskDef c now tid d = Inr p"
    and "now2 - 15 * 60 * 1000 \<le> def_created d" "def_created d \<le> now2 + 15 * 60 * 1000"
    and "now2 \<le> def_deadline d"
    and "def_deadline d - now2 \<le> 5 * 24 * 60 * 60 * 1000 + 15 * 60 * 1000"
  shows "patchAndValidateTaskDef c now2 tid d = Inr p"
proof -
  have "patchAndValidateTaskDef c now tid d \<noteq> Inl InputError" using assms(1) by simp
  then have "patchAndValidateTaskDef c now2 tid d \<noteq> Inl InputError"
    using assms(2-5) unfolding patchAndValidateTaskDef_rejects by auto
  then obtain p2 where p2: "patchAndValidateTaskDef c now2 tid d = Inr p2"
    using patchAndValidateTaskDef_valid by blast
  then show ?thesis using patchAndValidateTaskDef_now [OF assms(1) p2] by simp
qed

text \<open>
  C2, as the code has it. Let createTask of task \<open>tid\<close> with definition \<open>d\<close> succeed with status
  \<open>r\<close>, from a state whose row for \<open>tid\<close>, if any, carries that id, and let \<open>p\<close> be
  the definition with its defaults filled in. A second createTask with the same
  \<open>tid\<close> and \<open>d\<close>, at a time \<open>now2\<close>:
  \<^item> when the timestamps of \<open>d\<close> still pass the checks against \<open>now2\<close> and the store
    does not refuse the row built at \<open>now2\<close>, replies with the same status \<open>r\<close> and
    changes no task and no task group. It does emit again: it puts the deadline
    message once more and, while run 0 is missing or pending, publishes task-defined
    once more, and for a pending run 0 also the pending message and task-pending;
    while the task is unscheduled it writes its dependency edges again. Each of these
    repeats a message, an event or an edge of the first call, nothing new is emitted;
  \<^item> when the timestamps no longer pass (created more than 15 minutes from \<open>now2\<close>,
    deadline before \<open>now2\<close> or more than 5 days and 15 minutes after it), replies
    InputError and changes nothing;
  \<^item> when the timestamps pass and the store refuses the row built at \<open>now2\<close>, replies
    InputError.

  A createTask of \<open>tid\<close> with a valid definition \<open>d'\<close> whose normalized form (defaults
  filled in, priority normal stored as lowest) differs from that of \<open>d\<close> replies
  RequestConflict.
\<close>

theorem createTask_idempotent:
  assumes wf: "\<forall>t. Task s tid = Some t \<longrightarrow> taskId t = tid"
    and first: "createTask c now tid d s = (Inr r, s1)"
    and patched: "patchAndValidateTaskDef c now tid d = Inr p"
  shows "(now2 - 15 * 60 * 1000 \<le> def_created d \<and> def_created d \<le> now2 + 15 * 60 * 1000
            \<and> now2 \<le> def_deadline d
            \<and> def_deadline d - now2 \<le> 5 * 24 * 60 * 60 * 1000 + 15 * 60 * 1000
            \<and> \<not> propertyTooLarge c (taskFromDef tid p (initialRuns now2 p)) \<longrightarrow>
            (let t = the (Task s1 tid);
                 edges = (if task_state t = Unscheduled then edgesOf t else []);
                 messages = DeadlineMessage tid (taskGroupId t) (schedulerId t) (deadline t)
                              # createdMessages t;
                 events = createdEvents t
             in createTask c now2 tid d s1 =
                  (Inr r, s1\<lparr>TaskDependency := TaskDependency s1 @ edges,
                              queue := queue s1 @ messages,
                              published := published s1 @ events\<rparr>)
                \<and> set edges \<subseteq> set (TaskDependency s1)
                \<and> set messages \<subseteq> set (drop (length (queue s)) (queue s1))
                \<and> set events \<subseteq> set (drop (length (published s)) (published s1))))
       \<and> (def_created d < now2 - 15 * 60 * 1000 \<or> now2 + 15 * 60 * 1000 < def_created d
            \<or> def_deadline d < now2
            \<or> 5 * 24 * 60 * 60 * 1000 + 15 * 60 * 1000 < def_deadline d - now2 \<longrightarrow>
           createTask c now2 tid d s1 = (Inl InputError, s1))
       \<and> (now2 - 15 * 60 * 1000 \<le> def_created d \<and> def_created d \<le> now2 + 15 * 60 * 1000
            \<and> now2 \<le> def_deadline d
            \<and> def_deadline d - now2 \<le> 5 * 24 * 60 * 60 * 1000 + 15 * 60 * 1000
            \<and> propertyTooLarge c (taskFromDef tid p (initialRuns now2 p)) \<longrightarrow>
           fst (createTask c now2 tid d s1) = Inl InputError)
       \<and> (patchAndValidateTaskDef c now' tid d' = Inr p' \<and> p' \<noteq> p
            \<and> \<not> list_ex (\<lambda>sc. endsWith sc ''**'') (def_scopes d')
            \<and> \<not> propertyTooLarge c (taskFromDef tid p' (initialRuns now' p'))
          \<longrightarrow> fst (createTask c now' tid d' s1) = Inl RequestConflict)"
proof -
  from wf have wf': "\<And>t. Task s tid = Some t \<Longrightarrow> taskId t = tid" by blast
  from wf' first obtain p0 sA t' M E where
    valid0: "patchAndValidateTaskDef c now tid d = Inr p0"
    and nostar0: "\<not> list_ex (\<lambda>sc. endsWith sc ''**'') (def_scopes p0)"
    and etg0: "ensureTaskGroup c tid p0 s = (True, False, sA)"
    and r: "r = StatusReply (status t')"
    and stored: "Task s1 tid = Some t'"
    and tid: "taskId t' = tid"
    and defn0: "definition_of t' = p0"
    and groups0: "TaskGroup s1 = TaskGroup sA" "TaskGroupMember s1 = TaskGroupMember sA"
      "TaskGroupActiveSet s1 = TaskGroupActiveSet sA"
    and q10: "queue s1 = queue s @ DeadlineMessage tid (the (def_taskGroupId p0))
                (def_schedulerId p0) (def_deadline p0) # M @ createdMessages t'"
    and e1: "published s1 = published s @ E @ createdEvents t'"
    and stable: "task_state t' \<noteq> Unscheduled
       \<or> (\<not> list_ex (\<lambda>dep. Task s1 dep = None) (dependencies t')
           \<and> \<not> list_all (dependencyResolved s1 (requires t')) (dependencies t'))"
    and edges: "task_state t' \<noteq> Unscheduled \<or> set (edgesOf t') \<subseteq> set (TaskDependency s1)"
    by (rule createTask_success_state)
  have p0: "p0 = p" using valid0 patched by simp
  note valid = valid0 [unfolded p0] and nostar = nostar0 [unfolded p0]
    and etg = etg0 [unfolded p0] and defn = defn0 [unfolded p0]
    and q1 = q10 [unfolded p0]
  note groups = groups0
  note fields = definition_of_fields [OF defn]
  let ?s2 = "putDeadlineMessage tid (the (def_taskGroupId p)) (def_schedulerId p)
               (def_deadline p) s1"
  have etg2: "ensureTaskGroup c tid p s1 = (True, False, s1)"
    by (rule ensureTaskGroup_again [OF etg groups])
  have newId: "taskId (taskFromDef tid p (initialRuns now2 p)) = tid"
    by (simp add: taskFromDef_def)
  have part1: "(let t = the (Task s1 tid);
                 edges = (if task_state t = Unscheduled then edgesOf t else []);
                 messages = DeadlineMessage tid (taskGroupId t) (schedulerId t) (deadline t)
                              # createdMessages t;
                 events = createdEvents t
             in createTask c now2 tid d s1 =
                  (Inr r, s1\<lparr>TaskDependency := TaskDependency s1 @ edges,
                              queue := queue s1 @ messages,
                              published := published s1 @ events\<rparr>)
                \<and> set edges \<subseteq> set (TaskDependency s1)
                \<and> set messages \<subseteq> set (drop (length (queue s)) (queue s1))
                \<and> set events \<subseteq> set (drop (length (published s)) (published s1)))"
    if ts: "now2 - 15 * 60 * 1000 \<le> def_created d" "def_created d \<le> now2 + 15 * 60 * 1000"
      "now2 \<le> def_deadline d"
      "def_deadline d - now2 \<le> 5 * 24 * 60 * 60 * 1000 + 15 * 60 * 1000"
      and small: "\<not> propertyTooLarge c (taskFromDef tid p (initialRuns now2 p))"
  proof -
    have valid2: "patchAndValidateTaskDef c now2 tid d = Inr p"
      by (rule patchAndValidateTaskDef_later [OF valid ts])
    have stored2: "Task ?s2 (taskId (taskFromDef tid p (initialRuns now2 p))) = Some t'"
      using stored unfolding newId by (simp add: putDeadlineMessage_def putMessage_def)
    have try2: "tryCreateTask c (taskFromDef tid p (initialRuns now2 p)) p ?s2 = Inr (t', ?s2)"
      using tryCreateTask_existing [OF stored2 small, of p] defn by simp
    have T2: "Task ?s2 = Task s1" by (simp add: putDeadlineMessage_def putMessage_def)
    have stable2: "task_state t' \<noteq> Unscheduled
       \<or> (\<not> list_ex (\<lambda>dep. Task ?s2 dep = None) (dependencies t')
           \<and> \<not> list_all (dependencyResolved ?s2 (requires t')) (dependencies t'))"
      using stable absent_cong [OF T2] resolved_cong [OF T2] by simp
    note tr2 = trackIfUnscheduled_again [OF stable2, of now2]
    note res = createTask_tracked_emits [OF valid2 nostar etg2 try2 tr2]
    show ?thesis
      unfolding res Let_def using stored r fields edges q1 e1
      by (auto simp: respond_def putDeadlineMessage_def putMessage_def)
  qed
  have part2: "createTask c now2 tid d s1 = (Inl InputError, s1)"
    if "def_created d < now2 - 15 * 60 * 1000 \<or> now2 + 15 * 60 * 1000 < def_created d
            \<or> def_deadline d < now2
            \<or> 5 * 24 * 60 * 60 * 1000 + 15 * 60 * 1000 < def_deadline d - now2"
  proof -
    have "patchAndValidateTaskDef c now2 tid d = Inl InputError"
      unfolding patchAndValidateTaskDef_rejects using that by blast
    then show ?thesis by (simp add: createTask_def)
  qed
  have part3: "fst (createTask c now2 tid d s1) = Inl InputError"
    if ts: "now2 - 15 * 60 * 1000 \<le> def_created d" "def_created d \<le> now2 + 15 * 60 * 1000"
      "now2 \<le> def_deadline d"
      "def_deadline d - now2 \<le> 5 * 24 * 60 * 60 * 1000 + 15 * 60 * 1000"
      and large: "propertyTooLarge c (taskFromDef tid p (initialRuns now2 p))"
  proof -
    have valid2: "patchAndValidateTaskDef c now2 tid d = Inr p"
      by (rule patchAndValidateTaskDef_later [OF valid ts])
    have "tryCreateTask c (taskFromDef tid p (initialRuns now2 p)) p ?s2 = Inl InputError"
      using large by (simp add: tryCreateTask_def)
    from createTask_store_error [OF valid2 nostar etg2 this]
    show ?thesis by (simp add: respond_def)
  qed
  have part4: "fst (createTask c now' tid d' s1) = Inl RequestConflict"
    if v': "patchAndValidateTaskDef c now' tid d' = Inr p'"
      and ne: "p' \<noteq> p"
      and ns: "\<not> list_ex (\<lambda>sc. endsWith sc ''**'') (def_scopes d')"
      and small: "\<not> propertyTooLarge c (taskFromDef tid p' (initialRuns now' p'))"
  proof -
    have ns': "\<not> list_ex (\<lambda>sc. endsWith sc ''**'') (def_scopes p')"
      using ns patchAndValidateTaskDef_patched(5) [OF v'] by simp
    obtain ok rep sB where etg': "ensureTaskGroup c tid p' s1 = (ok, rep, sB)"
      by (cases "ensureTaskGroup c tid p' s1") auto
    show ?thesis
    proof (cases ok)
      case False
      then show ?thesis using createTask_group_conflict [OF v' ns'] etg' by simp
    next
      case True
      let ?sB = "putDeadlineMessage tid (the (def_taskGroupId p')) (def_schedulerId p')
               (def_deadline p') sB"
      have "Task sB = Task s1" using ensureTaskGroup_Task [of c tid p' s1] etg' by simp
      then have "Task ?sB (taskId (taskFromDef tid p' (initialRuns now' p'))) = Some t'"
        using stored by (simp add: putDeadlineMessage_def putMessage_def taskFromDef_def)
      from tryCreateTask_existing [OF this small, of p']
      have "tryCreateTask c (taskFromDef tid p' (initialRuns now' p')) p' ?sB = Inl RequestConflict"
        using ne defn by simp
      moreover have "ensureTaskGroup c tid p' s1 = (True, rep, sB)" using etg' True by simp
      ultimately show ?thesis
        using createTask_store_error [OF v' ns', of s1 rep sB RequestConflict]
        by (simp add: respond_def)
    qed
  qed
  show ?thesis using part1 part2 part3 part4 by blast
qed


lemma stateCreated_first:
  "createTask ctx0 1000000 ''T'' defA state0
     = (Inr (StatusReply (status taskCreated)), stateCreated)"
  by (simp add: stateCreated_def taskCreated_def samples createTask_eval prod_eq_iff)

lemma stateCreated_emitted:
  "queue stateCreated = [DeadlineMessage ''T'' ''G'' ''S1'' 4600000,
                         PendingMessage ''prov'' ''wt'' Lowest ''T'' 0]"
  "published stateCreated = [TaskDefined (status taskCreated),
                             TaskPending (status taskCreated) 0]"
  by (simp_all add: stateCreated_def taskCreated_def samples createTask_eval)

text \<open>C2 as stated fails: after createTask of \<open>T\<close> with \<open>defA\<close> in the empty service,
  which emits a deadline message, a pending message, task-defined and task-pending,
  the same call again replies the same status but emits all four once more; the same
  call a thousand seconds later, when created is more than 15 minutes back, replies
  InputError; and createTask of \<open>T\<close> with \<open>defNormal\<close>, a definition different from
  \<open>defA\<close>, replies the status instead of RequestConflict.\<close>

theorem createTask_repeat_counterexample:
  "createTask ctx0 1000000 ''T'' defA state0
     = (Inr (StatusReply (status taskCreated)), stateCreated)
   \<and> queue state0 = [] \<and> published state0 = []
   \<and> queue stateCreated = [DeadlineMessage ''T'' ''G'' ''S1'' 4600000,
                           PendingMessage ''prov'' ''wt'' Lowest ''T'' 0]
   \<and> published stateCreated = [TaskDefined (status taskCreated),
                               TaskPending (status taskCreated) 0]
   \<and> fst (createTask ctx0 1000000 ''T'' defA stateCreated)
       = Inr (StatusReply (status taskCreated))
   \<and> queue (snd (createTask ctx0 1000000 ''T'' defA stateCreated))
       = [DeadlineMessage ''T'' ''G'' ''S1'' 4600000,
          PendingMessage ''prov'' ''wt'' Lowest ''T'' 0,
          DeadlineMessage ''T'' ''G'' ''S1'' 4600000,
          PendingMessage ''prov'' ''wt'' Lowest ''T'' 0]
   \<and> published (snd (createTask ctx0 1000000 ''T'' defA stateCreated))
       = [TaskDefined (status taskCreated), TaskPending (status taskCreated) 0,
          TaskDefined (status taskCreated), TaskPending (status taskCreated) 0]
   \<and> createTask ctx0 2000000 ''T'' defA stateCreated = (Inl InputError, stateCreated)
   \<and> defNormal \<noteq> defA
   \<and> fst (createTask ctx0 1000000 ''T'' defNormal stateCreated)
       = Inr (StatusReply (status taskCreated))"
proof -
  have a: "fst (createTask ctx0 1000000 ''T'' defA stateCreated)
       = Inr (StatusReply (status taskCreated))"
    by (simp add: stateCreated_def taskCreated_def samples createTask_eval definition_of_def)
  have b: "queue (snd (createTask ctx0 1000000 ''T'' defA stateCreated))
       = [DeadlineMessage ''T'' ''G'' ''S1'' 4600000,
          PendingMessage ''prov'' ''wt'' Lowest ''T'' 0,
          DeadlineMessage ''T'' ''G'' ''S1'' 4600000,
          PendingMessage ''prov'' ''wt'' Lowest ''T'' 0]"
    by (simp add: stateCreated_def taskCreated_def samples createTask_eval definition_of_def)
  have c: "published (snd (createTask ctx0 1000000 ''T'' defA stateCreated))
       = [TaskDefined (status taskCreated), TaskPending (status taskCreated) 0,
          TaskDefined (status taskCreated), TaskPending (status taskCreated) 0]"
    by (simp add: stateCreated_def taskCreated_def samples createTask_eval definition_of_def)
  have d: "defNormal \<noteq> defA" by (simp add: defNormal_def defA_def)
  have e: "fst (createTask ctx0 1000000 ''T'' defNormal stateCreated)
       = Inr (StatusReply (status taskCreated))"
    by (simp add: stateCreated_def taskCreated_def defNormal_def samples createTask_eval
        definition_of_def)
  have f: "createTask ctx0 2000000 ''T'' defA stateCreated = (Inl InputError, stateCreated)"
    by (simp add: createTask_def patchAndValidateTaskDef_def defA_def ctx0_def Let_def)
  have g: "queue state0 = []" "published state0 = []" by (simp_all add: state0_def)
  show ?thesis
    using stateCreated_first stateCreated_emitted a b c d e f g by blast
qed

text \<open>The scenario: createTask of \<open>T\<close> with \<open>defA\<close> in the empty service; then the
  same call half a second later, a thousand seconds later, and half a second later
  with a store that refuses the row built then; then a call with another number of
  retries.\<close>

theorem createTask_idempotent_witness:
  "createTask ctx0 1000000 ''T'' defA state0
     = (Inr (StatusReply (status taskCreated)), stateCreated)
   \<and> patchAndValidateTaskDef ctx0 1000000 ''T'' defA
       = Inr (defA\<lparr>def_expires := Some 31540600000\<rparr>)
   \<and> createTask ctx0 1000500 ''T'' defA stateCreated
       = (Inr (StatusReply (status taskCreated)),
          stateCreated\<lparr>queue := queue stateCreated
                                  @ [DeadlineMessage ''T'' ''G'' ''S1'' 4600000,
                                     PendingMessage ''prov'' ''wt'' Lowest ''T'' 0],
                        published := published stateCreated
                                  @ [TaskDefined (status taskCreated),
                                     TaskPending (status taskCreated) 0]\<rparr>)
   \<and> createTask ctx0 2000000 ''T'' defA stateCreated = (Inl InputError, stateCreated)
   \<and> createTask ctxRefusing 1000000 ''T'' defA state0
       = (Inr (StatusReply (status taskCreated)), stateCreated)
   \<and> propertyTooLarge ctxRefusing
        (taskFromDef ''T'' (defA\<lparr>def_expires := Some 31540600000\<rparr>)
           (initialRuns 1000500 (defA\<lparr>def_expires := Some 31540600000\<rparr>)))
   \<and> fst (createTask ctxRefusing 1000500 ''T'' defA stateCreated) = Inl InputError
   \<and> defRetries3 \<noteq> defA
   \<and> fst (createTask ctx0 1000500 ''T'' defRetries3 stateCreated) = Inl RequestConflict"
proof -
  have wf: "\<forall>t. Task state0 ''T'' = Some t \<longrightarrow> taskId t = ''T''"
    by (simp add: state0_def)
  have p: "patchAndValidateTaskDef ctx0 1000000 ''T'' defA
             = Inr (defA\<lparr>def_expires := Some 31540600000\<rparr>)"
    by (simp add: patchAndValidateTaskDef_def samples Let_def)
  have pR: "patchAndValidateTaskDef ctxRefusing 1000000 ''T'' defA
             = Inr (defA\<lparr>def_expires := Some 31540600000\<rparr>)"
    by (simp add: patchAndValidateTaskDef_def ctxRefusing_def samples Let_def)
  have firstR: "createTask ctxRefusing 1000000 ''T'' defA state0
       = (Inr (StatusReply (status taskCreated)), stateCreated)"
    by (simp add: stateCreated_def taskCreated_def ctxRefusing_def samples createTask_eval
        prod_eq_iff)
  have p': "patchAndValidateTaskDef ctx0 1000500 ''T'' defRetries3
             = Inr (defRetries3\<lparr>def_expires := Some 31540600000\<rparr>)"
    by (simp add: patchAndValidateTaskDef_def defRetries3_def samples Let_def)
  have ne: "defRetries3\<lparr>def_expires := Some 31540600000\<rparr>
              \<noteq> defA\<lparr>def_expires := Some 31540600000\<rparr>"
    "defRetries3 \<noteq> defA"
    by (simp_all add: defRetries3_def defA_def)
  have ns: "\<not> list_ex (\<lambda>sc. endsWith sc ''**'') (def_scopes defRetries3)"
    by (simp add: defRetries3_def defA_def)
  have small: "\<not> propertyTooLarge ctx0 x" for x by (simp add: ctx0_def)
  have large: "propertyTooLarge ctxRefusing
        (taskFromDef ''T'' (defA\<lparr>def_expires := Some 31540600000\<rparr>)
           (initialRuns 1000500 (defA\<lparr>def_expires := Some 31540600000\<rparr>)))"
    by (simp add: ctxRefusing_def taskFromDef_def initialRuns_def new_run_def defA_def)
  have ts: "def_created defA = 1000000" "def_deadline defA = 4600000"
    by (simp_all add: defA_def)
  have t: "the (Task stateCreated ''T'') = taskCreated"
    by (simp add: stateCreated_tables taskCreated_def new_run_def)
  have f: "taskGroupId taskCreated = ''G''" "schedulerId taskCreated = ''S1''"
    "deadline taskCreated = 4600000" "task_state taskCreated \<noteq> Unscheduled"
    "createdMessages taskCreated = [PendingMessage ''prov'' ''wt'' Lowest ''T'' 0]"
    "createdEvents taskCreated = [TaskDefined (status taskCreated),
                                   TaskPending (status taskCreated) 0]"
    by (simp_all add: taskCreated_def createdMessages_def createdEvents_def samples
        runZeroState_def task_state_def lastRunState_def)
  have a: "createTask ctx0 1000500 ''T'' defA stateCreated
       = (Inr (StatusReply (status taskCreated)),
          stateCreated\<lparr>queue := queue stateCreated
                                  @ [DeadlineMessage ''T'' ''G'' ''S1'' 4600000,
                                     PendingMessage ''prov'' ''wt'' Lowest ''T'' 0],
                        published := published stateCreated
                                  @ [TaskDefined (status taskCreated),
                                     TaskPending (status taskCreated) 0]\<rparr>)"
    using createTask_idempotent [OF wf stateCreated_first p, of 1000500] small ts
    by (simp add: Let_def t f)
  have b: "createTask ctx0 2000000 ''T'' defA stateCreated = (Inl InputError, stateCreated)"
    using createTask_idempotent [OF wf stateCreated_first p, of 2000000] ts by simp
  have c: "fst (createTask ctxRefusing 1000500 ''T'' defA stateCreated) = Inl InputError"
    using createTask_idempotent [OF wf firstR pR, of 1000500] large ts by simp
  have d: "fst (createTask ctx0 1000500 ''T'' defRetries3 stateCreated) = Inl RequestConflict"
    using createTask_idempotent [OF wf stateCreated_first p, of _ 1000500 defRetries3
        "defRetries3\<lparr>def_expires := Some 31540600000\<rparr>"] p' ne ns small
    by simp
  show ?thesis using stateCreated_first p a b firstR large c ne(2) d by blast
qed

end
